(* ===== verification/Nexus_Prelude.thy ===== *)
theory Nexus_Prelude
  imports Complex_Main "HOL-Library.Multiset"
begin

text \<open>
  Shared vocabulary of the development: the rule collections the component proofs use, and
  the generic facts about lists and maps that several components need.  Nothing in this
  theory models code.

  \<^item> \<open>vwp_rules\<close> collects the rules that execute one external call of a program
    symbolically (declared in theory \<open>Effects\<close>);
  \<^item> \<open>store_defs\<close> collects the definitions of what each service command does to the store.
\<close>

named_theorems vwp_rules "symbolic execution of programs, one rule per external call"
named_theorems store_defs "effects of service commands on the store"

subsection \<open>Lists\<close>

lemma remove1_subset: "x \<in> set (remove1 y xs) \<Longrightarrow> x \<in> set xs"
  by (meson in_mono set_remove1_subset)

lemma in_set_remove1_other: "x \<noteq> y \<Longrightarrow> x \<in> set (remove1 y xs) \<longleftrightarrow> x \<in> set xs"
  by (simp add: in_set_remove1)

lemma butlast_last_mset: "xs \<noteq> [] \<Longrightarrow> mset xs = add_mset (last xs) (mset (butlast xs))"
  by (metis append_butlast_last_id mset.simps add_mset_add_single mset_append)

lemma in_butlast_or_last: "xs \<noteq> [] \<Longrightarrow> x \<in> set xs \<longleftrightarrow> x = last xs \<or> x \<in> set (butlast xs)"
  by (metis append_butlast_last_id in_set_conv_decomp in_set_butlastD last_in_set
      rotate1.simps(2) set_ConsD set_rotate1)

lemma distinct_remove1_set: "distinct xs \<Longrightarrow> set (remove1 x xs) = set xs - {x}"
  by simp

text \<open>The text after the last separator of a string determines its last field.\<close>
lemma after_last_sep:
  assumes "c \<notin> set p"
  shows "takeWhile (\<lambda>x. x \<noteq> c) (rev (a @ c # p)) = rev p"
proof -
  have "takeWhile (\<lambda>x. x \<noteq> c) (rev p @ c # rev a) = rev p @ takeWhile (\<lambda>x. x \<noteq> c) (c # rev a)"
    by (rule takeWhile_append2) (use assms in auto)
  then show ?thesis by simp
qed

subsection \<open>Maps built from association lists\<close>

lemma map_of_None_iff: "map_of xs k = None \<longleftrightarrow> k \<notin> fst ` set xs"
  by (rule map_of_eq_None_iff)

lemma map_add_map_of_other: "f \<notin> fst ` set fs \<Longrightarrow> (m ++ map_of fs) f = m f"
  by (simp add: map_add_def map_of_eq_None_iff [THEN iffD2])

lemma remove1_other [simp]: "i \<noteq> j \<Longrightarrow> i \<in> set (remove1 j xs) \<longleftrightarrow> i \<in> set xs"
  by (meson in_set_remove1)

lemma filter_update:
  assumes "n < length gs"
  shows "length (filter P (gs[n := y])) + (if P (gs ! n) then 1 else 0) = length (filter P gs) + (if P y then 1 else 0)"
  using assms
proof (induction gs arbitrary: n)
  case (Cons g gs)
  then show ?case by (cases n) auto
qed simp

end
