(* ===== verification/Js_Runtime.thy ===== *)
theory Js_Runtime
  imports Nexus_Prelude
begin

text \<open>
  The part of the JavaScript language and library the source relies on.

  \<^item> Strings are \<open>string\<close> (lists of bytes, the UTF-8 encoding of the JavaScript string);
    a field of an object that may be absent is a \<open>string option\<close>, with \<open>None\<close> for
    \<open>undefined\<close>.
  \<^item> Numbers are \<open>jsnum\<close>: \<open>NaN\<close> or an exact rational.  Rounding to IEEE doubles and
    the infinities are not modelled; every number the program computes with is a count, a
    millisecond time stamp or a token balance, far from the limits of a double.
  \<^item> \<open>js_String\<close> and \<open>js_Number\<close> are the conversions the Redis hashes go through.
    \<open>js_Number\<close> reads the decimal literals \<open>js_String\<close> writes (optional sign, digits,
    optional fraction, surrounding white space, and \<open>0\<close> for the empty string); the
    exponent, hexadecimal, octal, binary and \<open>Infinity\<close> forms, which no code of the
    repository ever writes, are read as \<open>NaN\<close>.
\<close>

subsection \<open>Absent values\<close>

text \<open>\<open>v ?? d\<close>\<close>
definition nullish :: "'a option \<Rightarrow> 'a \<Rightarrow> 'a" where
  "nullish v d = (case v of None \<Rightarrow> d | Some x \<Rightarrow> x)"

lemma nullish_simps [simp]: "nullish None d = d" "nullish (Some x) d = x"
  by (simp_all add: nullish_def)

text \<open>The truth value of a string that may be \<open>undefined\<close>.\<close>
definition truthy :: "string option \<Rightarrow> bool" where
  "truthy v = (case v of None \<Rightarrow> False | Some s \<Rightarrow> s \<noteq> [])"

lemma truthy_simps [simp]: "\<not> truthy None" "truthy (Some s) \<longleftrightarrow> s \<noteq> []"
  by (simp_all add: truthy_def)

lemma truthy_iff: "truthy x \<longleftrightarrow> (\<exists>s. x = Some s \<and> s \<noteq> [])"
  by (cases x) simp_all

text \<open>\<open>process.env\<close>: the variables that are set.\<close>
type_synonym process_env = "string \<Rightarrow> string option"

subsection \<open>Strings\<close>

definition is_space :: "char \<Rightarrow> bool" where
  "is_space c \<longleftrightarrow> c \<in> {CHR '' '', CHR 0x09, CHR 0x0A, CHR 0x0B, CHR 0x0C, CHR 0x0D}"

text \<open>\<open>s.trim()\<close>, on the ASCII white space characters.\<close>
definition trim :: "string \<Rightarrow> string" where
  "trim s = rev (dropWhile is_space (rev (dropWhile is_space s)))"

text \<open>\<open>s.split(sep)\<close> for a one-character separator.\<close>
fun split_on :: "char \<Rightarrow> string \<Rightarrow> string list" where
  "split_on sep [] = [[]]"
| "split_on sep (c # cs) =
     (if c = sep then [] # split_on sep cs
      else case split_on sep cs of [] \<Rightarrow> [[c]] | w # ws \<Rightarrow> (c # w) # ws)"

definition starts_with :: "string \<Rightarrow> string \<Rightarrow> bool" where
  "starts_with p s \<longleftrightarrow> take (length p) s = p"

lemma starts_with_append [simp]: "starts_with p (p @ s)"
  by (simp add: starts_with_def)

lemma starts_withE: "starts_with p s \<Longrightarrow> s = p @ drop (length p) s"
  unfolding starts_with_def by (metis append_take_drop_id)

lemma split_on_ne: "split_on sep s \<noteq> []"
  by (induction sep s rule: split_on.induct) (auto split: list.splits)

text \<open>No piece holds the separator, and joining the pieces gives the string back.\<close>

lemma split_on_no_sep: "w \<in> set (split_on sep s) \<Longrightarrow> sep \<notin> set w"
proof (induction sep s arbitrary: w rule: split_on.induct)
  case (1 sep)
  then show ?case by simp
next
  case (2 sep c cs)
  show ?case
  proof (cases "c = sep")
    case True
    with 2 show ?thesis by auto
  next
    case False
    obtain v vs where eq: "split_on sep cs = v # vs"
      using split_on_ne by (meson neq_Nil_conv)
    from "2.prems" False eq have "w = c # v \<or> w \<in> set vs" by auto
    with 2 False eq show ?thesis by auto
  qed
qed


subsection \<open>Numbers\<close>

datatype jsnum = NaN | Num rat

fun js_add :: "jsnum \<Rightarrow> jsnum \<Rightarrow> jsnum" where
  "js_add (Num x) (Num y) = Num (x + y)"
| "js_add _ _ = NaN"

fun js_mul :: "jsnum \<Rightarrow> jsnum \<Rightarrow> jsnum" where
  "js_mul (Num x) (Num y) = Num (x * y)"
| "js_mul _ _ = NaN"

definition js_sub :: "jsnum \<Rightarrow> jsnum \<Rightarrow> jsnum" where
  "js_sub x y = js_add x (js_mul (Num (- 1)) y)"

text \<open>\<open>x / c\<close>, for a divisor that is not zero.\<close>
definition js_div :: "jsnum \<Rightarrow> rat \<Rightarrow> jsnum" where
  "js_div x c = js_mul x (Num (1 / c))"

lemma js_sub_div_Num [simp]:
  "js_sub (Num x) (Num y) = Num (x - y)" "js_div (Num x) c = Num (x / c)"
  by (simp_all add: js_sub_def js_div_def)

text \<open>\<open>Math.min(x, y)\<close>: \<open>NaN\<close> when either argument is.\<close>
fun js_min :: "jsnum \<Rightarrow> jsnum \<Rightarrow> jsnum" where
  "js_min (Num x) (Num y) = Num (min x y)"
| "js_min _ _ = NaN"

text \<open>\<open>x >= y\<close>: false when either side is \<open>NaN\<close>.\<close>
fun js_ge :: "jsnum \<Rightarrow> jsnum \<Rightarrow> bool" where
  "js_ge (Num x) (Num y) = (y \<le> x)"
| "js_ge _ _ = False"

text \<open>
  \<open>Math.pow(2, x)\<close> for the integer exponents the program has; a fractional exponent,
  which no attempt counter ever is, is outside the model and gives \<open>NaN\<close>.
\<close>
fun js_pow2 :: "jsnum \<Rightarrow> jsnum" where
  "js_pow2 NaN = NaN"
| "js_pow2 (Num x) =
     (if of_int \<lfloor>x\<rfloor> \<noteq> x then NaN
      else if 0 \<le> x then Num (2 ^ nat \<lfloor>x\<rfloor>) else Num (1 / 2 ^ nat (- \<lfloor>x\<rfloor>)))"

lemma rat_floor_numeral [simp]:
  "\<lfloor>(numeral a :: rat) / numeral b\<rfloor> = numeral a div numeral b"
  "\<lfloor>- ((numeral a :: rat) / numeral b)\<rfloor> = - numeral a div numeral b"
  "\<lfloor>(1 :: rat) / numeral b\<rfloor> = 1 div numeral b"
  using floor_divide_of_int_eq [of "numeral a" "numeral b", where ?'a = rat]
    floor_divide_of_int_eq [of "- numeral a" "numeral b", where ?'a = rat]
    floor_divide_of_int_eq [of 1 "numeral b", where ?'a = rat]
  by simp_all

subsection \<open>Numbers to strings\<close>

definition digit_char :: "nat \<Rightarrow> char" where
  "digit_char d = ''0123456789'' ! d"

fun nat_str :: "nat \<Rightarrow> string" where
  "nat_str n = (if n < 10 then [digit_char n] else nat_str (n div 10) @ [digit_char (n mod 10)])"

declare nat_str.simps [simp del]

text \<open>The least number of decimal places that writes \<open>x\<close> exactly, up to \<open>fuel\<close> places.\<close>
fun dec_places :: "nat \<Rightarrow> rat \<Rightarrow> nat" where
  "dec_places 0 x = 0"
| "dec_places (Suc fuel) x = (if of_int \<lfloor>x\<rfloor> = x then 0 else Suc (dec_places fuel (10 * x)))"

lemma dec_places_numeral:
  "dec_places (numeral k) x =
     (if of_int \<lfloor>x\<rfloor> = x then 0 else Suc (dec_places (pred_numeral k) (10 * x)))"
  by (simp add: numeral_eq_Suc)

text \<open>\<open>k\<close> digits of \<open>n\<close>, padded with leading zeros: the fraction of a decimal.\<close>
fun pad_digits :: "nat \<Rightarrow> nat \<Rightarrow> string" where
  "pad_digits 0 n = []"
| "pad_digits (Suc k) n = pad_digits k (n div 10) @ [digit_char (n mod 10)]"

lemma pad_digits_numeral:
  "pad_digits (numeral k) n = pad_digits (pred_numeral k) (n div 10) @ [digit_char (n mod 10)]"
  unfolding numeral_eq_Suc [of k] by simp

text \<open>A non-negative number as a decimal with at most 20 places.\<close>
definition dec_str :: "rat \<Rightarrow> string" where
  "dec_str x =
     (let k = dec_places 20 x; m = nat \<lfloor>x * 10 ^ k\<rfloor>
      in nat_str (m div 10 ^ k) @ (if k = 0 then [] else CHR ''.'' # pad_digits k (m mod 10 ^ k)))"

text \<open>\<open>String(x)\<close>\<close>
fun js_String :: "jsnum \<Rightarrow> string" where
  "js_String NaN = ''NaN''"
| "js_String (Num x) = (if x < 0 then CHR ''-'' # dec_str (- x) else dec_str x)"

abbreviation int_str :: "int \<Rightarrow> string" where
  "int_str i \<equiv> js_String (Num (of_int i))"

subsection \<open>Strings to numbers\<close>

definition digit_val :: "char \<Rightarrow> nat option" where
  "digit_val c = (let k = of_char c :: nat in if 48 \<le> k \<and> k \<le> 57 then Some (k - 48) else None)"

fun digits_val :: "nat \<Rightarrow> string \<Rightarrow> nat option" where
  "digits_val acc [] = Some acc"
| "digits_val acc (c # cs) =
     (case digit_val c of None \<Rightarrow> None | Some d \<Rightarrow> digits_val (10 * acc + d) cs)"

text \<open>\<open>123\<close>, \<open>123.\<close>, \<open>.5\<close> and \<open>123.5\<close>, but not \<open>.\<close> alone.\<close>
definition unsigned_val :: "string \<Rightarrow> jsnum" where
  "unsigned_val s =
     (let a = takeWhile (\<lambda>c. c \<noteq> CHR ''.'') s; b = drop (Suc (length a)) s
      in if a = [] \<and> b = [] then NaN
         else case digits_val 0 (a @ b) of None \<Rightarrow> NaN | Some n \<Rightarrow> Num (of_nat n / 10 ^ length b))"

text \<open>\<open>Number(s)\<close>\<close>
definition js_Number :: "string \<Rightarrow> jsnum" where
  "js_Number s0 =
     (let s = trim s0
      in if s = [] then Num 0
         else if hd s = CHR ''-'' then js_mul (Num (- 1)) (unsigned_val (tl s))
         else if hd s = CHR ''+'' then unsigned_val (tl s)
         else unsigned_val s)"


lemmas js_eval =
  dec_places_numeral pad_digits_numeral
  nat_str.simps digit_char_def dec_str_def digit_val_def unsigned_val_def js_Number_def trim_def
  is_space_def starts_with_def js_String.simps Let_def


subsection \<open>Writing a number and reading it back\<close>

definition is_decimal :: "rat \<Rightarrow> bool" where
  "is_decimal x \<longleftrightarrow> of_int \<lfloor>x * 10 ^ dec_places 20 x\<rfloor> = x * 10 ^ dec_places 20 x"

lemma dec_places_of_int [simp]: "dec_places n (of_int i) = 0"
  by (cases n) simp_all

lemma is_decimal_of_int [simp]: "is_decimal (of_int i)"
  by (simp add: is_decimal_def)

lemma dec_places_minus: "dec_places n (- x) = dec_places n x"
proof (induction n arbitrary: x)
  case (Suc n)
  have "of_int \<lfloor>- x\<rfloor> = - x \<longleftrightarrow> of_int \<lfloor>x\<rfloor> = x"
    by (metis floor_of_int minus_minus of_int_minus)
  with Suc [of "10 * x"] show ?case by simp
qed simp

lemma digit_val_char [simp]: "d < 10 \<Longrightarrow> digit_val (digit_char d) = Some d"
  by (auto simp: digit_char_def digit_val_def numeral_eq_Suc less_Suc_eq)

lemma digit_char_plain:
  "d < 10 \<Longrightarrow> digit_char d \<noteq> CHR ''.'' \<and> digit_char d \<noteq> CHR ''-'' \<and>
     digit_char d \<noteq> CHR ''+'' \<and> \<not> is_space (digit_char d)"
  by (auto simp: digit_char_def is_space_def numeral_eq_Suc less_Suc_eq)

definition all_digits :: "string \<Rightarrow> bool" where
  "all_digits s \<longleftrightarrow> (\<forall>c \<in> set s. \<exists>d < 10. c = digit_char d)"

lemma digit_char_is_digit [simp]: "\<exists>d < 10. digit_char (n mod 10) = digit_char d"
  by (rule exI [of _ "n mod 10"]) simp

lemma all_digits_append [simp]: "all_digits (s @ t) \<longleftrightarrow> all_digits s \<and> all_digits t"
  by (auto simp: all_digits_def)

lemma all_digits_nat_str: "all_digits (nat_str n) \<and> nat_str n \<noteq> []"
proof (induction n rule: nat_str.induct)
  case (1 n)
  then show ?case
    by (cases "n < 10") (auto simp: all_digits_def nat_str.simps [of n])
qed

lemma all_digits_pad: "all_digits (pad_digits k n)"
  by (induction k n rule: pad_digits.induct) (auto simp: all_digits_def)

lemma length_pad_digits [simp]: "length (pad_digits k n) = k"
  by (induction k n rule: pad_digits.induct) simp_all

lemma digits_val_append:
  "digits_val acc (s @ t) =
     (case digits_val acc s of None \<Rightarrow> None | Some a \<Rightarrow> digits_val a t)"
  by (induction acc s rule: digits_val.induct) (auto split: option.splits)

lemma digits_val_nat_str: "digits_val 0 (nat_str n) = Some n"
proof (induction n rule: nat_str.induct)
  case (1 n)
  then show ?case
    by (cases "n < 10") (auto simp: nat_str.simps [of n] digits_val_append)
qed

lemma digits_val_pad: "digits_val acc (pad_digits k n) = Some (acc * 10 ^ k + n mod 10 ^ k)"
proof (induction k n rule: pad_digits.induct)
  case (2 k n)
  then show ?case
    by (simp add: digits_val_append algebra_simps mod_mult2_eq)
qed simp

lemma dec_places_exact:
  "x * 10 ^ j \<in> \<int> \<Longrightarrow> j \<le> fuel \<Longrightarrow>
     of_int \<lfloor>x * 10 ^ dec_places fuel x\<rfloor> = x * 10 ^ dec_places fuel x"
proof (induction fuel arbitrary: x j)
  case 0
  then show ?case by (auto elim: Ints_cases)
next
  case (Suc fuel)
  show ?case
  proof (cases "of_int \<lfloor>x\<rfloor> = x")
    case False
    then have "j \<noteq> 0" using Suc.prems(1) by (cases "j = 0") (auto elim: Ints_cases)
    then obtain i where j: "j = Suc i" by (cases j) auto
    have "(10 * x) * 10 ^ i \<in> \<int>" using Suc.prems(1) j by (simp add: ac_simps)
    with Suc.IH [of "10 * x" i] Suc.prems(2) j False show ?thesis
      by (simp add: ac_simps)
  qed simp
qed

lemma is_decimalI: "x * 10 ^ j \<in> \<int> \<Longrightarrow> j \<le> 20 \<Longrightarrow> is_decimal x"
  unfolding is_decimal_def by (rule dec_places_exact)

text \<open>At most \<open>j\<close> decimal places.\<close>
definition places :: "nat \<Rightarrow> rat \<Rightarrow> bool" where
  "places j x \<longleftrightarrow> x * 10 ^ j \<in> \<int>"

lemma places_closed:
  "places j x \<Longrightarrow> places j y \<Longrightarrow> places j (x + y)"
  "places j x \<Longrightarrow> places j y \<Longrightarrow> places j (x - y)"
  "places j x \<Longrightarrow> places j y \<Longrightarrow> places j (min x y)"
  "places j (of_int i)"
  by (auto simp: places_def distrib_right left_diff_distrib min_def)

lemma places_1 [simp]: "places j 1"
  using places_closed(4) [of j 1] by simp

lemma places_decimal: "places 20 x \<Longrightarrow> is_decimal x"
  unfolding places_def by (erule is_decimalI) simp

lemma is_decimal_minus: "is_decimal (- x) \<longleftrightarrow> is_decimal x"
proof -
  have "of_int \<lfloor>- y\<rfloor> = - y \<longleftrightarrow> of_int \<lfloor>y\<rfloor> = y" for y :: rat
    by (metis floor_of_int minus_minus of_int_minus)
  from this [of "x * 10 ^ dec_places 20 x"] show ?thesis
    by (simp add: is_decimal_def dec_places_minus)
qed

lemma dropWhile_ne_hd: "s \<noteq> [] \<Longrightarrow> \<not> P (hd s) \<Longrightarrow> dropWhile P s = s"
  by (cases s) simp_all

lemma trim_no_space: "s \<noteq> [] \<Longrightarrow> \<not> is_space (hd s) \<Longrightarrow> \<not> is_space (last s) \<Longrightarrow> trim s = s"
  by (simp add: trim_def dropWhile_ne_hd hd_rev)

lemma all_digits_no_dot: "all_digits s \<Longrightarrow> CHR ''.'' \<notin> set s"
  unfolding all_digits_def using digit_char_plain by metis

lemma all_digits_ends:
  assumes "all_digits s" "s \<noteq> []"
  shows "hd s \<noteq> CHR ''-'' \<and> hd s \<noteq> CHR ''+'' \<and> \<not> is_space (hd s) \<and> \<not> is_space (last s)"
proof -
  have "c \<noteq> CHR ''-'' \<and> c \<noteq> CHR ''+'' \<and> \<not> is_space c" if c: "c \<in> set s" for c
  proof -
    obtain d where "d < 10" "c = digit_char d"
      using assms(1) c by (auto simp: all_digits_def)
    then show ?thesis using digit_char_plain [of d] by simp
  qed
  from this [of "hd s"] this [of "last s"] assms(2) show ?thesis by simp
qed

lemma unsigned_val_dec_str:
  assumes "0 \<le> x" and "is_decimal x"
  shows "unsigned_val (dec_str x) = Num x"
proof -
  define k where "k = dec_places 20 x"
  define m where "m = nat \<lfloor>x * 10 ^ k\<rfloor>"
  let ?a = "nat_str (m div 10 ^ k)" and ?b = "pad_digits k (m mod 10 ^ k)"
  have m: "of_nat m = x * 10 ^ k"
    using assms unfolding m_def k_def is_decimal_def by (simp add: of_nat_nat)
  have str: "dec_str x = ?a @ (if k = 0 then [] else CHR ''.'' # ?b)"
    by (simp add: dec_str_def Let_def m_def k_def)
  have "c \<noteq> CHR ''.''" if "c \<in> set ?a" for c
    using all_digits_no_dot [of ?a] all_digits_nat_str that by metis
  then have a: "takeWhile (\<lambda>c. c \<noteq> CHR ''.'') (dec_str x) = ?a"
    unfolding str by (subst takeWhile_append2) auto
  have b: "drop (Suc (length ?a)) (dec_str x) = (if k = 0 then [] else ?b)"
    by (simp add: str)
  have "digits_val 0 (?a @ (if k = 0 then [] else ?b)) = Some m"
    by (simp add: digits_val_append digits_val_nat_str digits_val_pad div_mult_mod_eq)
  moreover have "length (if k = 0 then [] else ?b) = k" by simp
  ultimately show ?thesis
    using a b all_digits_nat_str m by (simp add: unsigned_val_def Let_def)
qed

lemma dec_str_ends:
  "dec_str x \<noteq> [] \<and> hd (dec_str x) \<noteq> CHR ''-'' \<and> hd (dec_str x) \<noteq> CHR ''+'' \<and>
     \<not> is_space (hd (dec_str x)) \<and> \<not> is_space (last (dec_str x))"
proof -
  define k where "k = dec_places 20 x"
  define m where "m = nat \<lfloor>x * 10 ^ k\<rfloor>"
  let ?a = "nat_str (m div 10 ^ k)" and ?b = "pad_digits k (m mod 10 ^ k)"
  have a: "?a \<noteq> []" "all_digits ?a" using all_digits_nat_str by simp_all
  have "\<not> is_space (last ?b)" if "k \<noteq> 0"
    using that all_digits_ends [OF all_digits_pad, of k] length_pad_digits [of k]
    by (metis list.size(3))
  then have "\<not> is_space (last (?a @ (if k = 0 then [] else CHR ''.'' # ?b)))"
    using all_digits_ends [OF a(2) a(1)] length_pad_digits [of k "m mod 10 ^ k"]
    by (auto simp: is_space_def simp del: length_pad_digits)
  moreover have "dec_str x = ?a @ (if k = 0 then [] else CHR ''.'' # ?b)"
    by (simp add: dec_str_def Let_def m_def k_def)
  ultimately show ?thesis using a all_digits_ends [OF a(2) a(1)] by (metis append_is_Nil_conv hd_append2)
qed

lemma js_Number_String [simp]: "is_decimal x \<Longrightarrow> js_Number (js_String (Num x)) = Num x"
proof (cases "x < 0")
  case True
  assume "is_decimal x"
  with True have "unsigned_val (dec_str (- x)) = Num (- x)"
    by (intro unsigned_val_dec_str) (simp_all add: is_decimal_minus)
  with True show ?thesis
    using dec_str_ends [of "- x"] by (simp add: js_Number_def trim_no_space is_space_def)
next
  case False
  assume "is_decimal x"
  with False have "unsigned_val (dec_str x) = Num x"
    by (intro unsigned_val_dec_str) simp_all
  with False show ?thesis
    using dec_str_ends [of x] by (simp add: js_Number_def trim_no_space)
qed

lemma js_Number_int_str [simp]: "js_Number (int_str i) = Num (of_int i)"
  by (rule js_Number_String) simp

lemma js_Number_0 [simp]: "js_Number ''0'' = Num 0"
  and js_Number_3 [simp]: "js_Number ''3'' = Num 3"
  by (simp_all add: js_eval)

text \<open>Kept folded: the text of a number is unfolded only to evaluate it (\<open>js_eval\<close>).\<close>
declare js_String.simps [simp del]

end
