(* ===== verification/Js_Date.thy ===== *)
theory Js_Date
  imports Js_Runtime
begin

text \<open>
  \<open>new Date(t).toISOString()\<close> for years 0 to 9999: the proleptic Gregorian date of a
  millisecond time stamp, by eras of 400 years counted from 1 March of the year 0.
\<close>

definition civil_of_month :: "int \<Rightarrow> int \<Rightarrow> int \<Rightarrow> int \<times> int \<times> int" where
  "civil_of_month y doy mp =
     (if mp < 10 then (y, mp + 3, doy - (153 * mp + 2) div 5 + 1)
      else (y + 1, mp - 9, doy - (153 * mp + 2) div 5 + 1))"

definition civil_of_doy :: "int \<Rightarrow> int \<Rightarrow> int \<times> int \<times> int" where
  "civil_of_doy y doy = civil_of_month y doy ((5 * doy + 2) div 153)"

definition civil_of_doe :: "int \<Rightarrow> int \<Rightarrow> int \<Rightarrow> int \<times> int \<times> int" where
  "civil_of_doe era doe yoe = civil_of_doy (yoe + era * 400) (doe - (365 * yoe + yoe div 4 - yoe div 100))"

definition civil_of_era :: "int \<Rightarrow> int \<Rightarrow> int \<times> int \<times> int" where
  "civil_of_era era doe =
     civil_of_doe era doe ((doe - doe div 1460 + doe div 36524 - doe div 146096) div 365)"

definition civil_of_days :: "int \<Rightarrow> int \<times> int \<times> int" where
  "civil_of_days z = civil_of_era ((z + 719468) div 146097) ((z + 719468) mod 146097)"

lemmas civil_defs =
  civil_of_days_def civil_of_era_def civil_of_doe_def civil_of_doy_def civil_of_month_def

definition pad_int :: "nat \<Rightarrow> int \<Rightarrow> string" where
  "pad_int k i = pad_digits k (nat i)"

definition iso_time :: "int \<Rightarrow> string" where
  "iso_time ms =
     pad_int 2 (ms div 3600000) @ '':'' @ pad_int 2 (ms div 60000 mod 60) @ '':'' @
     pad_int 2 (ms div 1000 mod 60) @ ''.'' @ pad_int 3 (ms mod 1000) @ ''Z''"

definition iso_date :: "int \<times> int \<times> int \<Rightarrow> string" where
  "iso_date ymd = (case ymd of (y, m, d) \<Rightarrow>
     pad_int 4 y @ ''-'' @ pad_int 2 m @ ''-'' @ pad_int 2 d @ ''T'')"

definition to_iso :: "int \<Rightarrow> string" where
  "to_iso t = iso_date (civil_of_days (t div 86400000)) @ iso_time (t mod 86400000)"

lemma length_to_iso [simp]: "length (to_iso t) = 24"
  by (simp add: to_iso_def iso_date_def iso_time_def pad_int_def split: prod.split)

lemma to_iso_not_Nil [simp]: "to_iso t \<noteq> []"
  using length_to_iso [of t] by (metis list.size(3) zero_neq_numeral)

lemmas iso_eval = to_iso_def iso_date_def iso_time_def pad_int_def civil_defs

end
