(* ===== verification/Json.thy ===== *)
theory Json
  imports Js_Runtime
begin

text \<open>
  JSON texts: the values the program serialises, \<open>JSON.stringify\<close> and \<open>JSON.parse\<close>.

  Objects are lists of members in insertion order, as JavaScript objects enumerate them.
  A value that has no JSON text (\<open>undefined\<close>) is \<open>None\<close> where the source can meet one.
  The parser reads the full grammar of strings, literals, arrays and objects with white
  space; numbers are the plain decimal forms (no exponent), and a \<open>\u\<close> escape stands for
  the UTF-8 bytes of its code unit (surrogate pairs are not combined).
\<close>

datatype json =
    JNull | JBool bool | JNum rat | JStr string | JArr "json list" | JObj "(string \<times> json) list"

subsection \<open>JSON.stringify\<close>

definition hex_char :: "nat \<Rightarrow> char" where
  "hex_char d = ''0123456789abcdef'' ! d"

definition esc_char :: "char \<Rightarrow> string" where
  "esc_char c =
     (if c = CHR 0x22 then [CHR 0x5C, CHR 0x22]
      else if c = CHR 0x5C then [CHR 0x5C, CHR 0x5C]
      else if c = CHR 0x08 then [CHR 0x5C, CHR ''b'']
      else if c = CHR 0x0C then [CHR 0x5C, CHR ''f'']
      else if c = CHR 0x0A then [CHR 0x5C, CHR ''n'']
      else if c = CHR 0x0D then [CHR 0x5C, CHR ''r'']
      else if c = CHR 0x09 then [CHR 0x5C, CHR ''t'']
      else if (of_char c :: nat) < 32
        then [CHR 0x5C, CHR ''u'', CHR ''0'', CHR ''0'',
              hex_char (of_char c div 16), hex_char (of_char c mod 16)]
      else [c])"

definition quote_str :: "string \<Rightarrow> string" where
  "quote_str s = CHR 0x22 # concat (map esc_char s) @ [CHR 0x22]"

fun join_comma :: "string list \<Rightarrow> string" where
  "join_comma [] = []"
| "join_comma [w] = w"
| "join_comma (w # ws) = w @ CHR '','' # join_comma ws"

fun json_stringify :: "json \<Rightarrow> string" where
  "json_stringify JNull = ''null''"
| "json_stringify (JBool b) = (if b then ''true'' else ''false'')"
| "json_stringify (JNum x) = js_String (Num x)"
| "json_stringify (JStr s) = quote_str s"
| "json_stringify (JArr xs) = CHR ''['' # join_comma (map json_stringify xs) @ '']''"
| "json_stringify (JObj ms) =
     CHR ''{'' # join_comma (map (\<lambda>m. quote_str (fst m) @ CHR '':'' # json_stringify (snd m)) ms) @ ''}''"

subsection \<open>JSON.parse\<close>

definition json_space :: "char \<Rightarrow> bool" where
  "json_space c \<longleftrightarrow> c \<in> {CHR '' '', CHR 0x09, CHR 0x0A, CHR 0x0D}"

definition skip_ws :: "string \<Rightarrow> string" where
  "skip_ws s = dropWhile json_space s"

definition hex_val :: "char \<Rightarrow> nat option" where
  "hex_val c =
     (let k = of_char c :: nat
      in if 48 \<le> k \<and> k \<le> 57 then Some (k - 48)
         else if 97 \<le> k \<and> k \<le> 102 then Some (k - 87)
         else if 65 \<le> k \<and> k \<le> 70 then Some (k - 55) else None)"

text \<open>The UTF-8 bytes of a code unit.\<close>
definition utf8 :: "nat \<Rightarrow> string" where
  "utf8 n =
     (if n < 128 then [char_of n]
      else if n < 2048 then [char_of (192 + n div 64), char_of (128 + n mod 64)]
      else [char_of (224 + n div 4096), char_of (128 + n div 64 mod 64), char_of (128 + n mod 64)])"

definition unescape :: "char \<Rightarrow> char option" where
  "unescape c =
     (if c = CHR 0x22 \<or> c = CHR 0x5C \<or> c = CHR ''/'' then Some c
      else if c = CHR ''b'' then Some (CHR 0x08)
      else if c = CHR ''f'' then Some (CHR 0x0C)
      else if c = CHR ''n'' then Some (CHR 0x0A)
      else if c = CHR ''r'' then Some (CHR 0x0D)
      else if c = CHR ''t'' then Some (CHR 0x09) else None)"

text \<open>The rest of a string literal, after its opening quote.\<close>
fun parse_chars :: "string \<Rightarrow> (string \<times> string) option" where
  "parse_chars [] = None"
| "parse_chars (c # cs) =
     (if c = CHR 0x22 then Some ([], cs)
      else if (of_char c :: nat) < 32 then None
      else if c \<noteq> CHR 0x5C then map_option (apfst ((#) c)) (parse_chars cs)
      else case cs of
          [] \<Rightarrow> None
        | e # cs1 \<Rightarrow>
            (if e = CHR ''u'' then
               (case cs1 of
                  h1 # h2 # h3 # h4 # cs2 \<Rightarrow>
                    (case (hex_val h1, hex_val h2, hex_val h3, hex_val h4) of
                       (Some a, Some b, Some c, Some d) \<Rightarrow>
                         map_option (apfst ((@) (utf8 (4096 * a + 256 * b + 16 * c + d)))) (parse_chars cs2)
                     | _ \<Rightarrow> None)
                | _ \<Rightarrow> None)
             else case unescape e of
                None \<Rightarrow> None
              | Some x \<Rightarrow> map_option (apfst ((#) x)) (parse_chars cs1)))"

definition is_digit :: "char \<Rightarrow> bool" where
  "is_digit c \<longleftrightarrow> digit_val c \<noteq> None"

text \<open>An unsigned JSON number: no leading zero, digits on both sides of the point.\<close>
definition parse_unsigned :: "string \<Rightarrow> (rat \<times> string) option" where
  "parse_unsigned s =
     (let a = takeWhile is_digit s; r = dropWhile is_digit s
      in if a = [] \<or> (hd a = CHR ''0'' \<and> tl a \<noteq> []) then None
         else case r of
             c # r1 \<Rightarrow>
               (if c = CHR ''.'' then
                  (let b = takeWhile is_digit r1
                   in if b = [] then None
                      else case digits_val 0 (a @ b) of
                          None \<Rightarrow> None
                        | Some n \<Rightarrow> Some (of_nat n / 10 ^ length b, dropWhile is_digit r1))
                else map_option (\<lambda>n. (of_nat n, r)) (digits_val 0 a))
           | [] \<Rightarrow> map_option (\<lambda>n. (of_nat n, r)) (digits_val 0 a))"

text \<open>
  Values, with fuel for the nesting and the lengths: \<open>JSON.parse\<close> starts with more fuel
  than the text has characters, and every call consumes one before it reads at least one.
\<close>
fun parse_value :: "nat \<Rightarrow> string \<Rightarrow> (json \<times> string) option"
  and parse_elems :: "nat \<Rightarrow> string \<Rightarrow> (json list \<times> string) option"
  and parse_members :: "nat \<Rightarrow> string \<Rightarrow> ((string \<times> json) list \<times> string) option" where
  "parse_value 0 s = None"
| "parse_value (Suc n) s0 =
     (case skip_ws s0 of
        [] \<Rightarrow> None
      | c # cs \<Rightarrow>
          (if c = CHR 0x22 then map_option (apfst JStr) (parse_chars cs)
           else if c = CHR ''['' then
             (if skip_ws cs \<noteq> [] \<and> hd (skip_ws cs) = CHR '']'' then Some (JArr [], tl (skip_ws cs))
              else map_option (apfst JArr) (parse_elems n cs))
           else if c = CHR ''{'' then
             (if skip_ws cs \<noteq> [] \<and> hd (skip_ws cs) = CHR ''}'' then Some (JObj [], tl (skip_ws cs))
              else map_option (apfst JObj) (parse_members n cs))
           else if starts_with ''null'' (c # cs) then Some (JNull, drop 4 (c # cs))
           else if starts_with ''true'' (c # cs) then Some (JBool True, drop 4 (c # cs))
           else if starts_with ''false'' (c # cs) then Some (JBool False, drop 5 (c # cs))
           else if c = CHR ''-'' then map_option (apfst (\<lambda>x. JNum (- x))) (parse_unsigned cs)
           else map_option (apfst JNum) (parse_unsigned (c # cs))))"
| "parse_elems 0 s = None"
| "parse_elems (Suc n) s =
     (case parse_value n s of
        None \<Rightarrow> None
      | Some (v, r) \<Rightarrow>
          (case skip_ws r of
             [] \<Rightarrow> None
           | c # r1 \<Rightarrow>
               (if c = CHR '','' then map_option (apfst ((#) v)) (parse_elems n r1)
                else if c = CHR '']'' then Some ([v], r1) else None)))"
| "parse_members 0 s = None"
| "parse_members (Suc n) s =
     (case skip_ws s of
        [] \<Rightarrow> None
      | q # cs \<Rightarrow>
          (if q \<noteq> CHR 0x22 then None
           else case parse_chars cs of
               None \<Rightarrow> None
             | Some (k, r) \<Rightarrow>
                 (case skip_ws r of
                    [] \<Rightarrow> None
                  | c # r1 \<Rightarrow>
                      (if c \<noteq> CHR '':'' then None
                       else case parse_value n r1 of
                           None \<Rightarrow> None
                         | Some (v, r2) \<Rightarrow>
                             (case skip_ws r2 of
                                [] \<Rightarrow> None
                              | d # r3 \<Rightarrow>
                                  (if d = CHR '','' then map_option (apfst ((#) (k, v))) (parse_members n r3)
                                   else if d = CHR ''}'' then Some ([(k, v)], r3) else None))))))"

text \<open>\<open>JSON.parse(s)\<close>: \<open>None\<close> where it throws a \<open>SyntaxError\<close>.\<close>
definition json_parse :: "string \<Rightarrow> json option" where
  "json_parse s =
     (case parse_value (Suc (2 * length s)) s of
        Some (v, r) \<Rightarrow> if skip_ws r = [] then Some v else None
      | None \<Rightarrow> None)"

end
