(* ===== verification/Job_Types.thy ===== *)
theory Job_Types
  imports Json
begin

text \<open>
  The data of the system: \<^verbatim>\<open>shared/src/types.ts\<close>, the columns of the \<open>jobs\<close> table in
  \<^verbatim>\<open>infra/postgres/*.sql\<close> and the events of \<^verbatim>\<open>server/src/websocket.ts\<close>.

  Record fields carry a prefix (\<open>j_\<close> for \<open>Job\<close>, \<open>o_\<close> for \<open>EnqueueOptions\<close>, \<open>r_\<close> for
  a table row, \<open>e_\<close> for an event), since a field name is a constant of the theory.
  Optional fields are options.  Time stamps are integers (milliseconds since the epoch).
\<close>

subsection \<open>Job status\<close>

datatype job_status = Pending | Active | Completed | Failed | Delayed | Dlq

fun status_str :: "job_status \<Rightarrow> string" where
  "status_str Pending = ''pending''"
| "status_str Active = ''active''"
| "status_str Completed = ''completed''"
| "status_str Failed = ''failed''"
| "status_str Delayed = ''delayed''"
| "status_str Dlq = ''dlq''"

lemma status_str_inj [simp]: "status_str a = status_str b \<longleftrightarrow> a = b"
  by (cases a; cases b) simp_all

text \<open>The \<open>CHECK\<close> of the \<open>status\<close> column: the strings that are a status.\<close>
fun status_of_str :: "string \<Rightarrow> job_status option" where
  "status_of_str s =
     (if s = ''pending'' then Some Pending else if s = ''active'' then Some Active
      else if s = ''completed'' then Some Completed else if s = ''failed'' then Some Failed
      else if s = ''delayed'' then Some Delayed else if s = ''dlq'' then Some Dlq else None)"

lemma status_of_status_str [simp]: "status_of_str (status_str s) = Some s"
  by (cases s) simp_all

lemma status_of_str_Some: "status_of_str s = Some st \<longleftrightarrow> s = status_str st"
  by (cases st) auto

subsection \<open>Priorities, options\<close>

datatype priority = High | Normal | Low

fun priority_str :: "priority \<Rightarrow> string" where
  "priority_str High = ''high''"
| "priority_str Normal = ''normal''"
| "priority_str Low = ''low''"

lemma priority_str_inj [simp]: "priority_str a = priority_str b \<longleftrightarrow> a = b"
  by (cases a; cases b) simp_all

lemma priority_str_normal [simp]: "priority_str p = ''normal'' \<longleftrightarrow> p = Normal"
  by (cases p) simp_all

instantiation priority :: linorder
begin

definition less_eq_priority :: "priority \<Rightarrow> priority \<Rightarrow> bool" where
  "less_eq_priority a b \<longleftrightarrow> a = b \<or> a = Low \<or> b = High"

definition less_priority :: "priority \<Rightarrow> priority \<Rightarrow> bool" where
  "less_priority a b \<longleftrightarrow> a \<noteq> b \<and> (a = Low \<or> b = High)"

instance
proof
  fix a b c :: priority
  show "a < b \<longleftrightarrow> a \<le> b \<and> \<not> b \<le> a"
    by (cases a; cases b) (simp_all add: less_eq_priority_def less_priority_def)
  show "a \<le> a" by (simp add: less_eq_priority_def)
  show "a \<le> b \<Longrightarrow> b \<le> c \<Longrightarrow> a \<le> c"
    by (cases a; cases b; cases c) (simp_all add: less_eq_priority_def)
  show "a \<le> b \<Longrightarrow> b \<le> a \<Longrightarrow> a = b"
    by (cases a; cases b) (simp_all add: less_eq_priority_def)
  show "a \<le> b \<or> b \<le> a"
    by (cases a; cases b) (simp_all add: less_eq_priority_def)
qed

end

record rate_limit_config =
  maxTokens :: rat
  refillRate :: rat

record enqueue_options =
  o_queue :: "string option"
  o_maxAttempts :: "int option"
  o_idempotencyKey :: "string option"
  o_delay :: "int option"
  o_priority :: "priority option"

definition no_options :: enqueue_options where
  "no_options = \<lparr>o_queue = None, o_maxAttempts = None, o_idempotencyKey = None,
     o_delay = None, o_priority = None\<rparr>"

subsection \<open>Jobs and table rows\<close>

record job =
  j_id :: string
  j_queueName :: string
  j_jobName :: string
  j_payload :: string
  j_status :: job_status
  j_attempts :: int
  j_maxAttempts :: int
  j_errorMessage :: "string option"
  j_createdAt :: string
  j_startedAt :: "string option"
  j_completedAt :: "string option"

text \<open>
  A row of \<open>jobs\<close>; \<open>NULL\<close> is \<open>None\<close>.  The \<open>payload\<close> column holds the JSON text the
  program bound to the statement.
\<close>
record job_row =
  r_queue_name :: string
  r_job_name :: string
  r_payload :: "string option"
  r_status :: job_status
  r_attempts :: int
  r_max_attempts :: int
  r_error_message :: "string option"
  r_created_at :: int
  r_started_at :: "int option"
  r_completed_at :: "int option"
  r_idempotency_key :: "string option"
  r_priority :: "string option"
  r_delayed_until :: "int option"

text \<open>
  The columns an \<open>INSERT\<close> does not list take the defaults of the schema
  (\<open>attempts\<close> 0, \<open>max_attempts\<close> 1, \<open>priority\<close> \<open>'normal'\<close>, the rest \<open>NULL\<close>); the
  server stamps \<open>created_at\<close> when it runs the statement.
\<close>
definition default_row :: "string \<Rightarrow> string \<Rightarrow> string option \<Rightarrow> job_status \<Rightarrow> job_row" where
  "default_row q n p st = \<lparr>r_queue_name = q, r_job_name = n, r_payload = p, r_status = st,
     r_attempts = 0, r_max_attempts = 1, r_error_message = None, r_created_at = 0,
     r_started_at = None, r_completed_at = None, r_idempotency_key = None,
     r_priority = Some ''normal'', r_delayed_until = None\<rparr>"

subsection \<open>Events\<close>

record job_event =
  e_type :: string
  e_jobId :: string
  e_jobName :: string
  e_queueName :: string
  e_timestamp :: int
  e_extra :: "(string \<times> json) list"

text \<open>\<open>JSON.stringify(event)\<close>: the members in the order the object literals list them.\<close>
definition event_text :: "job_event \<Rightarrow> string" where
  "event_text ev = json_stringify (JObj
     ([(''type'', JStr (e_type ev)), (''jobId'', JStr (e_jobId ev)), (''jobName'', JStr (e_jobName ev)),
       (''queueName'', JStr (e_queueName ev)), (''timestamp'', JNum (of_int (e_timestamp ev)))]
      @ e_extra ev))"

end
