(* ===== verification/Redis_Keys.thy ===== *)
theory Redis_Keys
  imports Job_Types
begin

text \<open>
  \<^verbatim>\<open>shared/src/keys.ts\<close>: the names of every Redis key, one function per entry of
  \<open>redisKeys\<close>, and \<open>targetList\<close>, the choice between the two list keys that the producer,
  the worker, the scheduler, the janitor and the routes each write out.

  The lemmas say when two keys are the same string: the producer and the worker rely on
  equal names for equal things, and on nothing else sharing a name.
\<close>

definition key_prefix :: string where
  "key_prefix = ''nexus''"

definition queue_key :: "string \<Rightarrow> string" where
  "queue_key name = key_prefix @ '':queue:'' @ name"

definition queuePriority_key :: "string \<Rightarrow> string \<Rightarrow> string" where
  "queuePriority_key name priority = key_prefix @ '':queue:'' @ name @ '':'' @ priority"

definition job_key :: "string \<Rightarrow> string" where
  "job_key id' = key_prefix @ '':job:'' @ id'"

definition queueRegistry_key :: string where
  "queueRegistry_key = key_prefix @ '':queues''"

definition processing_key :: "string \<Rightarrow> string" where
  "processing_key workerId = key_prefix @ '':processing:'' @ workerId"

definition dlq_key :: "string \<Rightarrow> string" where
  "dlq_key queueName = key_prefix @ '':dlq:'' @ queueName"

definition idempotency_key :: "string \<Rightarrow> string" where
  "idempotency_key key = key_prefix @ '':idem:'' @ key"

definition delayed_key :: "string \<Rightarrow> string" where
  "delayed_key queueName = key_prefix @ '':delayed:'' @ queueName"

definition cronSchedule_key :: string where
  "cronSchedule_key = key_prefix @ '':cron:schedule''"

definition cronDef_key :: "string \<Rightarrow> string" where
  "cronDef_key cronId = key_prefix @ '':cron:def:'' @ cronId"

definition rateLimit_key :: "string \<Rightarrow> string" where
  "rateLimit_key queueName = key_prefix @ '':ratelimit:'' @ queueName"

definition heartbeat_key :: "string \<Rightarrow> string" where
  "heartbeat_key workerId = key_prefix @ '':heartbeat:'' @ workerId"

definition workerMeta_key :: "string \<Rightarrow> string" where
  "workerMeta_key workerId = key_prefix @ '':worker:'' @ workerId"

definition workerRegistry_key :: string where
  "workerRegistry_key = key_prefix @ '':workers''"

definition events_channel :: string where
  "events_channel = key_prefix @ '':events''"

text \<open>\<open>priority === 'normal' ? redisKeys.queue(q) : redisKeys.queuePriority(q, priority)\<close>\<close>
definition targetList :: "string \<Rightarrow> string \<Rightarrow> string" where
  "targetList q priority =
     (if priority = ''normal'' then queue_key q else queuePriority_key q priority)"

lemmas key_defs =
  queue_key_def queuePriority_key_def job_key_def queueRegistry_key_def processing_key_def
  dlq_key_def idempotency_key_def delayed_key_def cronSchedule_key_def cronDef_key_def
  rateLimit_key_def heartbeat_key_def workerMeta_key_def workerRegistry_key_def
  events_channel_def key_prefix_def

subsection \<open>Equal keys\<close>

lemma key_inj [simp]:
  "queue_key a = queue_key b \<longleftrightarrow> a = b"
  "job_key a = job_key b \<longleftrightarrow> a = b"
  "processing_key a = processing_key b \<longleftrightarrow> a = b"
  "dlq_key a = dlq_key b \<longleftrightarrow> a = b"
  "idempotency_key a = idempotency_key b \<longleftrightarrow> a = b"
  "delayed_key a = delayed_key b \<longleftrightarrow> a = b"
  "cronDef_key a = cronDef_key b \<longleftrightarrow> a = b"
  "rateLimit_key a = rateLimit_key b \<longleftrightarrow> a = b"
  "heartbeat_key a = heartbeat_key b \<longleftrightarrow> a = b"
  "workerMeta_key a = workerMeta_key b \<longleftrightarrow> a = b"
  by (simp_all add: key_defs)

text \<open>Keys that live in the same kind of Redis value: lists, hashes, sorted sets, sets, strings.\<close>

lemma list_keys_distinct [simp]:
  "queue_key a \<noteq> processing_key b" "processing_key b \<noteq> queue_key a"
  "queue_key a \<noteq> dlq_key b" "dlq_key b \<noteq> queue_key a"
  "queuePriority_key a p \<noteq> processing_key b" "processing_key b \<noteq> queuePriority_key a p"
  "queuePriority_key a p \<noteq> dlq_key b" "dlq_key b \<noteq> queuePriority_key a p"
  "processing_key a \<noteq> dlq_key b" "dlq_key b \<noteq> processing_key a"
  by (simp_all add: key_defs)

lemma targetList_distinct [simp]:
  "targetList q p \<noteq> processing_key w" "processing_key w \<noteq> targetList q p"
  "targetList q p \<noteq> dlq_key d" "dlq_key d \<noteq> targetList q p"
  by (simp_all add: targetList_def)

lemma hash_keys_distinct [simp]:
  "job_key a \<noteq> workerMeta_key b" "workerMeta_key b \<noteq> job_key a"
  "job_key a \<noteq> cronDef_key b" "cronDef_key b \<noteq> job_key a"
  "job_key a \<noteq> rateLimit_key b" "rateLimit_key b \<noteq> job_key a"
  "workerMeta_key a \<noteq> cronDef_key b" "cronDef_key b \<noteq> workerMeta_key a"
  "workerMeta_key a \<noteq> rateLimit_key b" "rateLimit_key b \<noteq> workerMeta_key a"
  "cronDef_key a \<noteq> rateLimit_key b" "rateLimit_key b \<noteq> cronDef_key a"
  by (simp_all add: key_defs)

lemma other_keys_distinct [simp]:
  "delayed_key a \<noteq> cronSchedule_key" "cronSchedule_key \<noteq> delayed_key a"
  "queueRegistry_key \<noteq> workerRegistry_key" "workerRegistry_key \<noteq> queueRegistry_key"
  "idempotency_key a \<noteq> heartbeat_key b" "heartbeat_key b \<noteq> idempotency_key a"
  by (simp_all add: key_defs)

text \<open>A processing list deleted by name is a list key only.\<close>

lemma del_keys_distinct [simp]:
  "processing_key a \<noteq> workerMeta_key b" "workerMeta_key b \<noteq> processing_key a"
  "processing_key a \<noteq> job_key b" "job_key b \<noteq> processing_key a"
  "processing_key a \<noteq> heartbeat_key b" "heartbeat_key b \<noteq> processing_key a"
  "workerMeta_key a \<noteq> heartbeat_key b" "heartbeat_key b \<noteq> workerMeta_key a"
  "heartbeat_key a \<noteq> job_key b" "job_key b \<noteq> heartbeat_key a"
  "workerMeta_key a \<noteq> queue_key b" "queue_key b \<noteq> workerMeta_key a"
  "workerMeta_key a \<noteq> queuePriority_key b p" "queuePriority_key b p \<noteq> workerMeta_key a"
  "workerMeta_key a \<noteq> dlq_key b" "dlq_key b \<noteq> workerMeta_key a"
  "heartbeat_key a \<noteq> queue_key b" "queue_key b \<noteq> heartbeat_key a"
  "heartbeat_key a \<noteq> queuePriority_key b p" "queuePriority_key b p \<noteq> heartbeat_key a"
  "heartbeat_key a \<noteq> dlq_key b" "dlq_key b \<noteq> heartbeat_key a"
  "processing_key a \<noteq> delayed_key b" "delayed_key b \<noteq> processing_key a"
  "workerMeta_key a \<noteq> delayed_key b" "delayed_key b \<noteq> workerMeta_key a"
  "heartbeat_key a \<noteq> delayed_key b" "delayed_key b \<noteq> heartbeat_key a"
  "processing_key a \<noteq> cronSchedule_key" "cronSchedule_key \<noteq> processing_key a"
  "workerMeta_key a \<noteq> targetList q p'" "targetList q p' \<noteq> workerMeta_key a"
  "heartbeat_key a \<noteq> targetList q p'" "targetList q p' \<noteq> heartbeat_key a"
  "processing_key a \<noteq> idempotency_key c" "workerMeta_key a \<noteq> idempotency_key c"
  "workerMeta_key a \<noteq> cronSchedule_key" "cronSchedule_key \<noteq> workerMeta_key a"
  by (simp_all add: key_defs targetList_def)

lemma queue_key_eq_priority:
  "queue_key a = queuePriority_key b p \<longleftrightarrow> a = b @ '':'' @ p"
  by (simp add: key_defs)

lemma queuePriority_key_inj:
  "CHR '':'' \<notin> set p \<Longrightarrow> CHR '':'' \<notin> set q \<Longrightarrow>
     queuePriority_key a p = queuePriority_key b q \<longleftrightarrow> a = b \<and> p = q"
proof
  assume p: "CHR '':'' \<notin> set p" and q: "CHR '':'' \<notin> set q"
    and eq: "queuePriority_key a p = queuePriority_key b q"
  from eq have ab: "a @ CHR '':'' # p = b @ CHR '':'' # q" by (simp add: key_defs)
  from after_last_sep [OF p, of a] after_last_sep [OF q, of b] ab have "p = q"
    by simp
  with ab show "a = b \<and> p = q" by simp
qed simp

lemma priority_str_no_colon [simp]: "CHR '':'' \<notin> set (priority_str p)"
  by (cases p) simp_all

subsection \<open>All keys at once\<close>

text \<open>The keys of the program as data, to state what two of them can have in common.\<close>
datatype redis_key =
    KQueue string | KQueuePriority string string | KJob string | KQueueRegistry
  | KProcessing string | KDlq string | KIdempotency string | KDelayed string | KCronSchedule
  | KCronDef string | KRateLimit string | KHeartbeat string | KWorkerMeta string
  | KWorkerRegistry | KEvents

fun key_str :: "redis_key \<Rightarrow> string" where
  "key_str (KQueue n) = queue_key n"
| "key_str (KQueuePriority n p) = queuePriority_key n p"
| "key_str (KJob i) = job_key i"
| "key_str KQueueRegistry = queueRegistry_key"
| "key_str (KProcessing w) = processing_key w"
| "key_str (KDlq n) = dlq_key n"
| "key_str (KIdempotency k) = idempotency_key k"
| "key_str (KDelayed n) = delayed_key n"
| "key_str KCronSchedule = cronSchedule_key"
| "key_str (KCronDef c) = cronDef_key c"
| "key_str (KRateLimit n) = rateLimit_key n"
| "key_str (KHeartbeat w) = heartbeat_key w"
| "key_str (KWorkerMeta w) = workerMeta_key w"
| "key_str KWorkerRegistry = workerRegistry_key"
| "key_str KEvents = events_channel"

text \<open>The list a key of a queue names, as the text after \<^verbatim>\<open>nexus:queue:\<close>.\<close>
fun queue_suffix :: "redis_key \<Rightarrow> string option" where
  "queue_suffix (KQueue n) = Some n"
| "queue_suffix (KQueuePriority n p) = Some (n @ '':'' @ p)"
| "queue_suffix _ = None"

lemma key_str_eq_iff:
  "key_str a = key_str b \<longleftrightarrow> a = b \<or> (queue_suffix a \<noteq> None \<and> queue_suffix a = queue_suffix b)"
  by (cases a; cases b) (auto simp: key_defs)

end
