(* ===== verification/Effects.thy ===== *)
theory Effects
  imports Redis_Keys
begin

text \<open>
  Programs over the outside world.

  Every handler of the source is a chain of \<open>await\<close>s on Redis, Postgres and a few host
  facilities (the clock, the UUID generator, timers, the user's job handler, the cron
  library).  None of those is code of this repository, so a program is a tree of external
  calls (\<open>prog\<close>): it does nothing but say which call comes next and how to go on from each
  answer.  The service that answers is a parameter \<open>exec\<close> of \<open>run\<close> and \<open>states\<close>; the
  locales \<open>redis_service\<close>, \<open>postgres_service\<close>, \<open>host_service\<close> and \<open>backend\<close> state what the
  program relies on: the documented effect of each command and statement on the data it
  holds (\<open>store\<close>), and that a call that fails has no effect.

  \<open>states\<close> lists every state between two calls: a crash of the process leaves the
  services in one of them.
\<close>

subsection \<open>Commands and answers\<close>

text \<open>The Redis commands the source issues.\<close>
datatype rcmd =
    SADD string string | SREM string string | SMEMBERS string
  | GET string | SETEX string string int | EXISTS string | DEL string
  | HSET string "(string \<times> string) list" | HGET string string | HGETALL string
  | LPUSH string string | RPOPLPUSH string string | BLMOVE string string int
  | LREM string int string | LRANGE string int int | LLEN string
  | ZADD string jsnum string | ZREM string string | ZRANGEBYSCORE string "rat option"
  | PUBLISH string string

text \<open>The assignments of the source's \<open>UPDATE jobs SET ... WHERE id = $1\<close> statements.\<close>
datatype assign =
    SetStatus job_status | StartedNow | StartedNull | CompletedNow | CompletedNull
  | IncAttempts | ErrorNull | SetError string

text \<open>The SQL statements of the source.\<close>
datatype stmt =
    PgInsert string job_row
  | PgUpdate string "assign list"
  | PgSelect string
  | PgCount string "job_status option"
  | PgPage string "job_status option" int int
  | PgGroup string "job_status list"

record handler_ctx =
  c_jobId :: string
  c_jobName :: string
  c_attempt :: jsnum
  c_workerId :: string

text \<open>A registered job handler is an opaque function; a number identifies it.\<close>
type_synonym handler_id = nat

text \<open>
  Host facilities: \<open>Date.now()\<close>, \<open>uuidv4()\<close>, \<open>setTimeout\<close>, the user's handler, the cron
  parser's next occurrence, a Prometheus counter.
\<close>
datatype host_cmd =
    Now | NewUuid | Sleep jsnum | RunHandler handler_id json handler_ctx
  | CronNext string | Inc string "string list"

text \<open>
  A Lua script on one hash: what it returns and the fields it sets, or \<open>None\<close> where it
  raises an error.  Redis runs a script as one atomic step.
\<close>
type_synonym script = "(string \<Rightarrow> string option) \<Rightarrow> (int list \<times> (string \<times> string) list) option"

datatype call = Redis rcmd | RedisMulti "rcmd list" | RedisEval string script | Pg stmt | Host host_cmd

datatype reply =
    RNil | RInt int | RInts "int list" | RStr string | RList "string list" | RHash "string \<Rightarrow> string option"
  | RRow "job_row option" | RRows "(string \<times> job_row) list"
  | RCounts "(job_status \<times> int) list"

text \<open>What a JavaScript \<open>throw\<close> can throw: an \<open>Error\<close> with its message, or another value.\<close>
datatype err = JsError string | OtherThrown string

text \<open>\<open>err instanceof Error ? err.message : String(err)\<close>\<close>
fun err_message :: "err \<Rightarrow> string" where
  "err_message (JsError m) = m"
| "err_message (OtherThrown t) = t"

subsection \<open>Programs\<close>

datatype 'a prog =
    Ret 'a
  | Throw err
  | Call call "(err + reply) \<Rightarrow> 'a prog"

primrec await :: "'a prog \<Rightarrow> ('a \<Rightarrow> 'b prog) \<Rightarrow> 'b prog" where
  "await (Ret a) f = f a"
| "await (Throw e) f = Throw e"
| "await (Call c k) f = Call c (\<lambda>r. await (k r) f)"

text \<open>\<open>try { p } catch (e) { h(e) }\<close>\<close>
primrec try_catch :: "'a prog \<Rightarrow> (err \<Rightarrow> 'a prog) \<Rightarrow> 'a prog" where
  "try_catch (Ret a) h = Ret a"
| "try_catch (Throw e) h = h e"
| "try_catch (Call c k) h = Call c (\<lambda>r. try_catch (k r) h)"

text \<open>Run a program for its effect and go on.\<close>
definition seqp :: "'a prog \<Rightarrow> 'b prog \<Rightarrow> 'b prog" where
  "seqp p q = await p (\<lambda>_. q)"

text \<open>\<open>for (const x of xs) { f(x) }\<close>\<close>
primrec forEach :: "'x list \<Rightarrow> ('x \<Rightarrow> unit prog) \<Rightarrow> unit prog" where
  "forEach [] f = Ret ()"
| "forEach (x # xs) f = seqp (f x) (forEach xs f)"

definition call :: "call \<Rightarrow> reply prog" where
  "call c = Call c (\<lambda>r. case r of Inl e \<Rightarrow> Throw e | Inr x \<Rightarrow> Ret x)"

lemma await_assoc: "await (await p f) g = await p (\<lambda>x. await (f x) g)"
  by (induction p) simp_all

lemma await_Ret [simp]: "await p Ret = p"
  by (induction p) simp_all

subsection \<open>Running a program\<close>

type_synonym 's service = "call \<Rightarrow> 's \<Rightarrow> (err + reply) \<times> 's"

primrec run :: "'s service \<Rightarrow> 'a prog \<Rightarrow> 's \<Rightarrow> (err + 'a) \<times> 's" where
  "run X (Ret a) s = (Inr a, s)"
| "run X (Throw e) s = (Inl e, s)"
| "run X (Call c k) s = (case X c s of (r, s') \<Rightarrow> run X (k r) s')"

text \<open>Every state of the service while the program runs, the first and the last included.\<close>
primrec states :: "'s service \<Rightarrow> 'a prog \<Rightarrow> 's \<Rightarrow> 's list" where
  "states X (Ret a) s = [s]"
| "states X (Throw e) s = [s]"
| "states X (Call c k) s = s # (case X c s of (r, s') \<Rightarrow> states X (k r) s')"

lemma run_await:
  "run X (await p f) s =
     (case run X p s of (Inl e, s') \<Rightarrow> (Inl e, s') | (Inr a, s') \<Rightarrow> run X (f a) s')"
  by (induction p arbitrary: s) (simp_all split: prod.splits)

lemma run_try_catch:
  "run X (try_catch p h) s =
     (case run X p s of (Inl e, s') \<Rightarrow> run X (h e) s' | (Inr a, s') \<Rightarrow> (Inr a, s'))"
  by (induction p arbitrary: s) (simp_all split: prod.splits)

lemma run_seqp:
  "run X (seqp p q) s =
     (case run X p s of (Inl e, s') \<Rightarrow> (Inl e, s') | (Inr a, s') \<Rightarrow> run X q s')"
  by (simp add: seqp_def run_await split: prod.splits sum.splits)

lemma run_call: "run X (call c) s = X c s"
  by (simp add: call_def split: prod.splits sum.splits)

lemma states_ends:
  "hd (states X p s) = s" "last (states X p s) = snd (run X p s)" "states X p s \<noteq> []"
proof -
  show ne: "states X p s \<noteq> []" for s by (cases p) simp_all
  show "hd (states X p s) = s" by (cases p) simp_all
  show "last (states X p s) = snd (run X p s)"
  proof (induction p arbitrary: s)
    case (Call c k)
    obtain r s' where "X c s = (r, s')" by fastforce
    moreover have "states X (k r) s' \<noteq> []" by (cases "k r") simp_all
    ultimately show ?case using Call [of "k r" s'] by simp
  qed simp_all
qed

lemma final_in_states: "snd (run X p s) \<in> set (states X p s)"
  using states_ends(2,3) [of X p s] last_in_set by metis

lemma run_fst: "fst (run X p s) = r \<Longrightarrow> run X p s = (r, snd (run X p s))"
  by (simp add: prod_eq_iff)

subsection \<open>What the services hold\<close>

text \<open>
  The data behind the calls.  Keys that Redis does not have are empty lists, empty maps
  and empty sets; a string key carries the time it expires at.  \<open>s_ran\<close> and \<open>s_metrics\<close>
  record the invocations of job handlers and counters, latest first; \<open>s_issued\<close> the ids
  the UUID generator has returned.
\<close>
record store =
  s_lists :: "string \<Rightarrow> string list"
  s_hashes :: "string \<Rightarrow> string \<Rightarrow> string option"
  s_zsets :: "string \<Rightarrow> string \<Rightarrow> rat option"
  s_sets :: "string \<Rightarrow> string set"
  s_strs :: "string \<Rightarrow> (string \<times> int) option"
  s_published :: "(string \<times> string) list"
  s_rows :: "string \<Rightarrow> job_row option"
  s_clock :: int
  s_issued :: "string set"
  s_ran :: "(handler_id \<times> json \<times> handler_ctx) list"
  s_metrics :: "(string \<times> string list) list"

text \<open>The value of a string key, unless it has expired.\<close>
definition live_str :: "store \<Rightarrow> string \<Rightarrow> string option" where
  "live_str v k = (case s_strs v k of None \<Rightarrow> None
     | Some (x, t) \<Rightarrow> if s_clock v < t then Some x else None)"

fun remove_n :: "nat \<Rightarrow> 'a \<Rightarrow> 'a list \<Rightarrow> 'a list" where
  "remove_n 0 x xs = xs"
| "remove_n (Suc n) x xs = remove_n n x (remove1 x xs)"

text \<open>\<open>LREM key n x\<close>: from the head for positive \<open>n\<close>, from the tail for negative, all for 0.\<close>
definition lrem :: "int \<Rightarrow> 'a \<Rightarrow> 'a list \<Rightarrow> 'a list" where
  "lrem n x xs =
     (if n = 0 then filter (\<lambda>y. y \<noteq> x) xs
      else if 0 < n then remove_n (nat n) x xs
      else rev (remove_n (nat (- n)) x (rev xs)))"

lemma lrem_simps [simp]: "lrem 1 x xs = remove1 x xs" "lrem 0 x xs = filter (\<lambda>y. y \<noteq> x) xs"
  by (simp_all add: lrem_def)

text \<open>\<open>LRANGE key i j\<close>: both ends included, negative indices count from the end.\<close>
definition lrange :: "int \<Rightarrow> int \<Rightarrow> 'a list \<Rightarrow> 'a list" where
  "lrange i j xs =
     (let n = int (length xs);
          a = (if i < 0 then max 0 (n + i) else i);
          b = (if j < 0 then n + j else min j (n - 1))
      in if a > b \<or> a \<ge> n then [] else take (nat (b - a + 1)) (drop (nat a) xs))"

lemma lrange_all [simp]: "lrange 0 (- 1) xs = xs"
  by (cases xs) (simp_all add: lrange_def Let_def)

definition key_exists :: "store \<Rightarrow> string \<Rightarrow> bool" where
  "key_exists v k \<longleftrightarrow> live_str v k \<noteq> None \<or> s_lists v k \<noteq> [] \<or> s_hashes v k \<noteq> Map.empty \<or>
     s_zsets v k \<noteq> Map.empty \<or> s_sets v k \<noteq> {}"

subsection \<open>Redis: effect and answer of each command\<close>

fun redis_effect :: "rcmd \<Rightarrow> store \<Rightarrow> store" where
  "redis_effect (SADD k x) v = v\<lparr>s_sets := (s_sets v)(k := insert x (s_sets v k))\<rparr>"
| "redis_effect (SREM k x) v = v\<lparr>s_sets := (s_sets v)(k := s_sets v k - {x})\<rparr>"
| "redis_effect (SETEX k x ttl) v = v\<lparr>s_strs := (s_strs v)(k \<mapsto> (x, s_clock v + 1000 * ttl))\<rparr>"
| "redis_effect (DEL k) v = v\<lparr>s_lists := (s_lists v)(k := []), s_hashes := (s_hashes v)(k := Map.empty),
     s_zsets := (s_zsets v)(k := Map.empty), s_sets := (s_sets v)(k := {}),
     s_strs := (s_strs v)(k := None)\<rparr>"
| "redis_effect (HSET k fs) v = v\<lparr>s_hashes := (s_hashes v)(k := s_hashes v k ++ map_of fs)\<rparr>"
| "redis_effect (LPUSH k x) v = v\<lparr>s_lists := (s_lists v)(k := x # s_lists v k)\<rparr>"
| "redis_effect (RPOPLPUSH a b) v =
     (if s_lists v a = [] then v
      else let x = last (s_lists v a); ls = (s_lists v)(a := butlast (s_lists v a))
           in v\<lparr>s_lists := ls(b := x # ls b)\<rparr>)"
| "redis_effect (BLMOVE a b ttl) v =
     (if s_lists v a = [] then v
      else let x = last (s_lists v a); ls = (s_lists v)(a := butlast (s_lists v a))
           in v\<lparr>s_lists := ls(b := x # ls b)\<rparr>)"
| "redis_effect (LREM k n x) v = v\<lparr>s_lists := (s_lists v)(k := lrem n x (s_lists v k))\<rparr>"
| "redis_effect (ZADD k (Num sc) x) v = v\<lparr>s_zsets := (s_zsets v)(k := (s_zsets v k)(x \<mapsto> sc))\<rparr>"
| "redis_effect (ZREM k x) v = v\<lparr>s_zsets := (s_zsets v)(k := (s_zsets v k)(x := None))\<rparr>"
| "redis_effect (PUBLISH ch m) v = v\<lparr>s_published := (ch, m) # s_published v\<rparr>"
| "redis_effect _ v = v"

text \<open>
  The answers a command can give in a state.  \<open>SMEMBERS\<close> lists the set in any order,
  \<open>ZRANGEBYSCORE\<close> the members up to the bound by increasing score; \<open>ZADD\<close> refuses a score
  that is not a number.
\<close>
fun redis_allowed :: "rcmd \<Rightarrow> store \<Rightarrow> reply \<Rightarrow> bool" where
  "redis_allowed (SMEMBERS k) v r \<longleftrightarrow> (\<exists>xs. r = RList xs \<and> distinct xs \<and> set xs = s_sets v k)"
| "redis_allowed (GET k) v r \<longleftrightarrow> r = (case live_str v k of None \<Rightarrow> RNil | Some x \<Rightarrow> RStr x)"
| "redis_allowed (EXISTS k) v r \<longleftrightarrow> r = RInt (if key_exists v k then 1 else 0)"
| "redis_allowed (HGET k f) v r \<longleftrightarrow> r = (case s_hashes v k f of None \<Rightarrow> RNil | Some x \<Rightarrow> RStr x)"
| "redis_allowed (HGETALL k) v r \<longleftrightarrow> r = RHash (s_hashes v k)"
| "redis_allowed (RPOPLPUSH a b) v r \<longleftrightarrow>
     r = (if s_lists v a = [] then RNil else RStr (last (s_lists v a)))"
| "redis_allowed (BLMOVE a b ttl) v r \<longleftrightarrow>
     r = (if s_lists v a = [] then RNil else RStr (last (s_lists v a)))"
| "redis_allowed (LRANGE k i j) v r \<longleftrightarrow> r = RList (lrange i j (s_lists v k))"
| "redis_allowed (LLEN k) v r \<longleftrightarrow> r = RInt (int (length (s_lists v k)))"
| "redis_allowed (ZREM k x) v r \<longleftrightarrow> r = RInt (if s_zsets v k x = None then 0 else 1)"
| "redis_allowed (ZADD k NaN x) v r \<longleftrightarrow> False"
| "redis_allowed (ZRANGEBYSCORE k ub) v r \<longleftrightarrow>
     (\<exists>xs. r = RList xs \<and> distinct xs \<and>
        set xs = {x. \<exists>sc. s_zsets v k x = Some sc \<and> (case ub of None \<Rightarrow> True | Some u \<Rightarrow> sc \<le> u)} \<and>
        sorted (map (\<lambda>x. the (s_zsets v k x)) xs))"
| "redis_allowed _ v r \<longleftrightarrow> (\<exists>n. r = RInt n)"

text \<open>A script reads the hash and sets fields of it.\<close>

definition script_effect :: "string \<Rightarrow> script \<Rightarrow> store \<Rightarrow> store" where
  "script_effect k f v = (case f (s_hashes v k) of None \<Rightarrow> v | Some (ns, fs) \<Rightarrow> redis_effect (HSET k fs) v)"

definition script_allowed :: "string \<Rightarrow> script \<Rightarrow> store \<Rightarrow> reply \<Rightarrow> bool" where
  "script_allowed k f v r = (case f (s_hashes v k) of None \<Rightarrow> False | Some (ns, fs) \<Rightarrow> r = RInts ns)"

subsection \<open>Postgres: effect and answer of each statement\<close>

fun apply_assign :: "int \<Rightarrow> assign \<Rightarrow> job_row \<Rightarrow> job_row" where
  "apply_assign t (SetStatus st) w = w\<lparr>r_status := st\<rparr>"
| "apply_assign t StartedNow w = w\<lparr>r_started_at := Some t\<rparr>"
| "apply_assign t StartedNull w = w\<lparr>r_started_at := None\<rparr>"
| "apply_assign t CompletedNow w = w\<lparr>r_completed_at := Some t\<rparr>"
| "apply_assign t CompletedNull w = w\<lparr>r_completed_at := None\<rparr>"
| "apply_assign t IncAttempts w = w\<lparr>r_attempts := r_attempts w + 1\<rparr>"
| "apply_assign t ErrorNull w = w\<lparr>r_error_message := None\<rparr>"
| "apply_assign t (SetError m) w = w\<lparr>r_error_message := Some m\<rparr>"

definition rows_matching :: "store \<Rightarrow> string \<Rightarrow> job_status option \<Rightarrow> string set" where
  "rows_matching v q st =
     {i. \<exists>w. s_rows v i = Some w \<and> r_queue_name w = q \<and>
        (case st of None \<Rightarrow> True | Some x \<Rightarrow> r_status w = x)}"

fun pg_effect :: "stmt \<Rightarrow> store \<Rightarrow> store" where
  "pg_effect (PgInsert i w) v = v\<lparr>s_rows := (s_rows v)(i \<mapsto> w\<lparr>r_created_at := s_clock v\<rparr>)\<rparr>"
| "pg_effect (PgUpdate i as) v =
     v\<lparr>s_rows := (s_rows v)(i := map_option (fold (apply_assign (s_clock v)) as) (s_rows v i))\<rparr>"
| "pg_effect _ v = v"

text \<open>
  An \<open>INSERT\<close> succeeds only where the primary key is free, the payload is not \<open>NULL\<close> and
  the idempotency key, if there is one, is in no other row (the unique index of
  \<^verbatim>\<open>infra/postgres/002_reliability.sql\<close>).
\<close>
fun pg_allowed :: "stmt \<Rightarrow> store \<Rightarrow> reply \<Rightarrow> bool" where
  "pg_allowed (PgInsert i w) v r \<longleftrightarrow>
     r = RNil \<and> s_rows v i = None \<and> r_payload w \<noteq> None \<and>
     (\<forall>k. r_idempotency_key w = Some k \<longrightarrow>
        (\<forall>j w'. s_rows v j = Some w' \<longrightarrow> r_idempotency_key w' \<noteq> Some k))"
| "pg_allowed (PgUpdate i as) v r \<longleftrightarrow> r = RNil"
| "pg_allowed (PgSelect i) v r \<longleftrightarrow> r = RRow (s_rows v i)"
| "pg_allowed (PgCount q st) v r \<longleftrightarrow> r = RInt (int (card (rows_matching v q st)))"
| "pg_allowed (PgPage q st lmt off) v r \<longleftrightarrow>
     0 \<le> lmt \<and> 0 \<le> off \<and>
     (\<exists>all. distinct (map fst all) \<and> set (map fst all) = rows_matching v q st \<and>
        (\<forall>(i, w) \<in> set all. s_rows v i = Some w) \<and>
        sorted (rev (map (\<lambda>x. r_created_at (snd x)) all)) \<and>
        r = RRows (take (nat lmt) (drop (nat off) all)))"
| "pg_allowed (PgGroup q sts) v r \<longleftrightarrow>
     (\<exists>cs. r = RCounts cs \<and> distinct (map fst cs) \<and>
        set cs = (\<lambda>st. (st, int (card (rows_matching v q (Some st))))) `
          {st \<in> set sts. rows_matching v q (Some st) \<noteq> {}})"

subsection \<open>The host\<close>

fun host_effect :: "host_cmd \<Rightarrow> reply \<Rightarrow> store \<Rightarrow> store" where
  "host_effect Now (RInt t) v = v\<lparr>s_clock := t\<rparr>"
| "host_effect (Sleep ms) (RInt t) v = v\<lparr>s_clock := t\<rparr>"
| "host_effect NewUuid (RStr i) v = v\<lparr>s_issued := insert i (s_issued v)\<rparr>"
| "host_effect (RunHandler h p ctx) _ v = v\<lparr>s_ran := (h, p, ctx) # s_ran v\<rparr>"
| "host_effect (Inc m ls) _ v = v\<lparr>s_metrics := (m, ls) # s_metrics v\<rparr>"
| "host_effect _ _ v = v"

text \<open>Time does not run backwards, an id is new, the next cron occurrence is in the future.\<close>
fun host_allowed :: "host_cmd \<Rightarrow> store \<Rightarrow> reply \<Rightarrow> bool" where
  "host_allowed Now v r \<longleftrightarrow> (\<exists>t. r = RInt t \<and> s_clock v \<le> t)"
| "host_allowed (Sleep ms) v r \<longleftrightarrow> (\<exists>t. r = RInt t \<and> s_clock v \<le> t)"
| "host_allowed NewUuid v r \<longleftrightarrow> (\<exists>i. r = RStr i \<and> i \<noteq> [] \<and> i \<notin> s_issued v)"
| "host_allowed (RunHandler h p ctx) v r \<longleftrightarrow> r = RNil"
| "host_allowed (CronNext ex) v r \<longleftrightarrow> (\<exists>t. r = RInt t \<and> s_clock v < t)"
| "host_allowed (Inc m ls) v r \<longleftrightarrow> r = RNil"

text \<open>The host calls that can throw: the user's handler and the cron parser.\<close>
fun host_fallible :: "host_cmd \<Rightarrow> bool" where
  "host_fallible (RunHandler h p ctx) = True"
| "host_fallible (CronNext ex) = True"
| "host_fallible _ = False"

text \<open>A handler that throws has run as well.\<close>
fun host_fail_effect :: "host_cmd \<Rightarrow> store \<Rightarrow> store" where
  "host_fail_effect (RunHandler h p ctx) v = v\<lparr>s_ran := (h, p, ctx) # s_ran v\<rparr>"
| "host_fail_effect _ v = v"

subsection \<open>The contract of a service\<close>

locale redis_service =
  fixes exec :: "'s service" and view :: "'s \<Rightarrow> store"
  assumes redis_ok: "exec (Redis c) s = (Inr r, s') \<Longrightarrow>
      redis_allowed c (view s) r \<and> view s' = redis_effect c (view s)"
    and redis_fail: "exec (Redis c) s = (Inl e, s') \<Longrightarrow> view s' = view s"
    and multi_ok: "exec (RedisMulti cs) s = (Inr r, s') \<Longrightarrow> view s' = fold redis_effect cs (view s)"
    and multi_fail: "exec (RedisMulti cs) s = (Inl e, s') \<Longrightarrow> view s' = view s"
    and eval_ok: "exec (RedisEval k f) s = (Inr r, s') \<Longrightarrow>
      script_allowed k f (view s) r \<and> view s' = script_effect k f (view s)"
    and eval_fail: "exec (RedisEval k f) s = (Inl e, s') \<Longrightarrow> view s' = view s"

locale postgres_service =
  fixes exec :: "'s service" and view :: "'s \<Rightarrow> store"
  assumes pg_ok: "exec (Pg q) s = (Inr r, s') \<Longrightarrow>
      pg_allowed q (view s) r \<and> view s' = pg_effect q (view s)"
    and pg_fail: "exec (Pg q) s = (Inl e, s') \<Longrightarrow> view s' = view s"

locale host_service =
  fixes exec :: "'s service" and view :: "'s \<Rightarrow> store"
  assumes host_ok: "exec (Host h) s = (Inr r, s') \<Longrightarrow>
      host_allowed h (view s) r \<and> view s' = host_effect h r (view s)"
    and host_fail: "exec (Host h) s = (Inl e, s') \<Longrightarrow>
      host_fallible h \<and> view s' = host_fail_effect h (view s)"

locale backend = redis_service + postgres_service + host_service

subsection \<open>Symbolic execution\<close>

text \<open>
  \<open>vwp I p Q v\<close>: from data \<open>v\<close>, whatever the services answer within their contract, every
  state on the way satisfies \<open>I\<close> and the outcome satisfies \<open>Q\<close>.
\<close>

fun effect :: "call \<Rightarrow> reply \<Rightarrow> store \<Rightarrow> store" where
  "effect (Redis c) r v = redis_effect c v"
| "effect (RedisMulti cs) r v = fold redis_effect cs v"
| "effect (RedisEval k f) r v = script_effect k f v"
| "effect (Pg q) r v = pg_effect q v"
| "effect (Host h) r v = host_effect h r v"

fun allowed :: "call \<Rightarrow> store \<Rightarrow> reply \<Rightarrow> bool" where
  "allowed (Redis c) v r = redis_allowed c v r"
| "allowed (RedisMulti cs) v r = True"
| "allowed (RedisEval k f) v r = script_allowed k f v r"
| "allowed (Pg q) v r = pg_allowed q v r"
| "allowed (Host h) v r = host_allowed h v r"

fun fallible :: "call \<Rightarrow> bool" where
  "fallible (Host h) = host_fallible h"
| "fallible _ = True"

fun fail_effect :: "call \<Rightarrow> store \<Rightarrow> store" where
  "fail_effect (Host h) v = host_fail_effect h v"
| "fail_effect _ v = v"

primrec vwp :: "(store \<Rightarrow> bool) \<Rightarrow> 'a prog \<Rightarrow> (err + 'a \<Rightarrow> store \<Rightarrow> bool) \<Rightarrow> store \<Rightarrow> bool" where
  "vwp I (Ret a) Q v \<longleftrightarrow> I v \<and> Q (Inr a) v"
| "vwp I (Throw e) Q v \<longleftrightarrow> I v \<and> Q (Inl e) v"
| "vwp I (Call c k) Q v \<longleftrightarrow> I v \<and>
     (fallible c \<longrightarrow> (\<forall>e. vwp I (k (Inl e)) Q (fail_effect c v))) \<and>
     (\<forall>r. allowed c v r \<longrightarrow> vwp I (k (Inr r)) Q (effect c r v))"

lemma vwp_inv: "vwp I p Q v \<Longrightarrow> I v"
  by (cases p) simp_all

lemma vwp_mono:
  "vwp I p Q v \<Longrightarrow> (\<And>v. I v \<Longrightarrow> J v) \<Longrightarrow> (\<And>r v. Q r v \<Longrightarrow> I v \<Longrightarrow> R r v) \<Longrightarrow> vwp J p R v"
  by (induction p arbitrary: v) simp_all

text \<open>What follows an \<open>await\<close>, and what follows a \<open>catch\<close>.\<close>

definition then_post :: "(store \<Rightarrow> bool) \<Rightarrow> ('a \<Rightarrow> 'b prog) \<Rightarrow> (err + 'b \<Rightarrow> store \<Rightarrow> bool)
    \<Rightarrow> err + 'a \<Rightarrow> store \<Rightarrow> bool" where
  "then_post I f Q r w = (case r of Inl e \<Rightarrow> Q (Inl e) w | Inr a \<Rightarrow> vwp I (f a) Q w)"

definition catch_post :: "(store \<Rightarrow> bool) \<Rightarrow> (err \<Rightarrow> 'a prog) \<Rightarrow> (err + 'a \<Rightarrow> store \<Rightarrow> bool)
    \<Rightarrow> err + 'a \<Rightarrow> store \<Rightarrow> bool" where
  "catch_post I h Q r w = (case r of Inl e \<Rightarrow> vwp I (h e) Q w | Inr a \<Rightarrow> Q (Inr a) w)"

lemma post_simps [simp]:
  "then_post I f Q (Inl e) w = Q (Inl e) w" "then_post I f Q (Inr a) w = vwp I (f a) Q w"
  "catch_post J h R (Inl d) u = vwp J (h d) R u" "catch_post J h R (Inr b) u = R (Inr b) u"
  by (simp_all add: then_post_def catch_post_def)

lemma vwp_await [simp]: "vwp I (await p f) Q v \<longleftrightarrow> vwp I p (then_post I f Q) v"
  by (induction p arbitrary: v) (auto dest: vwp_inv)

lemma vwp_try_catch [simp]: "vwp I (try_catch p h) Q v \<longleftrightarrow> vwp I p (catch_post I h Q) v"
  by (induction p arbitrary: v) (auto dest: vwp_inv)

lemma vwp_seqp [simp]: "vwp I (seqp p q) Q v \<longleftrightarrow> vwp I p (then_post I (\<lambda>_. q) Q) v"
  by (simp add: seqp_def)

lemma vwp_call:
  "vwp I (call c) Q v \<longleftrightarrow> I v \<and> (fallible c \<longrightarrow> I (fail_effect c v) \<and> (\<forall>e. Q (Inl e) (fail_effect c v))) \<and>
     (\<forall>r. allowed c v r \<longrightarrow> I (effect c r v) \<and> Q (Inr r) (effect c r v))"
  by (auto simp: call_def)

text \<open>The rule for loops: \<open>J\<close> relates the elements done so far to the state.\<close>

lemma vwp_forEach:
  assumes step: "\<And>ys x zs v. xs = ys @ x # zs \<Longrightarrow> J ys v \<Longrightarrow>
      vwp I (f x) (\<lambda>r w. case r of Inl e \<Rightarrow> Q (Inl e) w | Inr _ \<Rightarrow> J (ys @ [x]) w) v"
    and init: "J [] v"
    and fin: "\<And>w. J xs w \<Longrightarrow> I w \<and> Q (Inr ()) w"
  shows "vwp I (forEach xs f) Q v"
proof -
  have "xs = ys @ zs \<Longrightarrow> J ys v \<Longrightarrow> vwp I (forEach zs f) Q v" for ys zs v
  proof (induction zs arbitrary: ys v)
    case Nil
    then show ?case using fin by simp
  next
    case (Cons x zs)
    have "vwp I (f x) (\<lambda>r w. case r of Inl e \<Rightarrow> Q (Inl e) w | Inr _ \<Rightarrow> J (ys @ [x]) w) v"
      using Cons.prems by (intro step)
    then show ?case
      by (simp, elim vwp_mono)
        (auto simp: then_post_def Cons.prems(1) split: sum.splits intro: Cons.IH)
  qed
  then show ?thesis using init by simp
qed

context backend
begin

lemma exec_ok: "exec c s = (Inr r, s') \<Longrightarrow> allowed c (view s) r \<and> view s' = effect c r (view s)"
  by (cases c) (auto dest: redis_ok multi_ok eval_ok pg_ok host_ok)

lemma exec_fail: "exec c s = (Inl e, s') \<Longrightarrow> fallible c \<and> view s' = fail_effect c (view s)"
  by (cases c) (auto dest: redis_fail multi_fail eval_fail pg_fail host_fail)

lemma vwp_sound:
  "vwp I p Q (view s) \<Longrightarrow>
     Q (fst (run exec p s)) (view (snd (run exec p s))) \<and> (\<forall>t \<in> set (states exec p s). I (view t))"
proof (induction p arbitrary: s)
  case (Call c k)
  obtain r s' where x: "exec c s = (r, s')" by fastforce
  have "vwp I (k r) Q (view s')"
  proof (cases r)
    case (Inl e)
    with Call.prems x exec_fail [of c s e s'] show ?thesis by simp
  next
    case (Inr y)
    with Call.prems x exec_ok [of c s y s'] show ?thesis by simp
  qed
  then have "Q (fst (run exec (k r) s')) (view (snd (run exec (k r) s'))) \<and>
      (\<forall>t \<in> set (states exec (k r) s'). I (view t))"
    by (rule Call.IH [OF rangeI])
  with Call.prems x show ?case by simp
qed simp_all

lemma run_vwp:
  assumes "vwp I p Q (view s)" and "run exec p s = (r, s')"
  shows "Q r (view s')"
  using vwp_sound [OF assms(1)] assms(2) by simp

lemma states_vwp:
  assumes "vwp I p Q (view s)" and "t \<in> set (states exec p s)"
  shows "I (view t)"
  using vwp_sound [OF assms(1)] assms(2) by simp

end

end
