(* ===== verification/Service_Calls.thy ===== *)
theory Service_Calls
  imports Effects
begin

text \<open>
  The client calls of the source (\<open>redis.lpush(...)\<close>, \<open>pool.query(...)\<close>,
  \<open>Date.now()\<close>, ...) as programs that await one external call and read its answer, and the
  rules that execute each of them symbolically.  An answer of the wrong kind, which the
  contract excludes, throws.
\<close>

definition bad_reply :: err where
  "bad_reply = JsError ''unexpected reply''"

definition redis_unit :: "rcmd \<Rightarrow> unit prog" where
  "redis_unit c = seqp (call (Redis c)) (Ret ())"

definition redis_int :: "rcmd \<Rightarrow> int prog" where
  "redis_int c = await (call (Redis c)) (\<lambda>r. case r of RInt n \<Rightarrow> Ret n | _ \<Rightarrow> Throw bad_reply)"

definition redis_str :: "rcmd \<Rightarrow> string option prog" where
  "redis_str c = await (call (Redis c))
     (\<lambda>r. case r of RStr x \<Rightarrow> Ret (Some x) | RNil \<Rightarrow> Ret None | _ \<Rightarrow> Throw bad_reply)"

definition redis_list :: "rcmd \<Rightarrow> string list prog" where
  "redis_list c = await (call (Redis c)) (\<lambda>r. case r of RList xs \<Rightarrow> Ret xs | _ \<Rightarrow> Throw bad_reply)"

definition redis_hash :: "rcmd \<Rightarrow> (string \<Rightarrow> string option) prog" where
  "redis_hash c = await (call (Redis c)) (\<lambda>r. case r of RHash h \<Rightarrow> Ret h | _ \<Rightarrow> Throw bad_reply)"

text \<open>\<open>multi.exec()\<close>: the queued commands run as one step; their answers are not read.\<close>
definition multi_exec :: "rcmd list \<Rightarrow> unit prog" where
  "multi_exec cs = seqp (call (RedisMulti cs)) (Ret ())"

definition redis_eval :: "string \<Rightarrow> script \<Rightarrow> int list prog" where
  "redis_eval k f = await (call (RedisEval k f)) (\<lambda>r. case r of RInts ns \<Rightarrow> Ret ns | _ \<Rightarrow> Throw bad_reply)"

definition pg_query :: "stmt \<Rightarrow> unit prog" where
  "pg_query q = seqp (call (Pg q)) (Ret ())"

definition pg_row :: "string \<Rightarrow> job_row option prog" where
  "pg_row i = await (call (Pg (PgSelect i))) (\<lambda>r. case r of RRow w \<Rightarrow> Ret w | _ \<Rightarrow> Throw bad_reply)"

definition pg_count :: "string \<Rightarrow> job_status option \<Rightarrow> int prog" where
  "pg_count q st = await (call (Pg (PgCount q st))) (\<lambda>r. case r of RInt n \<Rightarrow> Ret n | _ \<Rightarrow> Throw bad_reply)"

definition pg_page :: "string \<Rightarrow> job_status option \<Rightarrow> int \<Rightarrow> int \<Rightarrow> (string \<times> job_row) list prog" where
  "pg_page q st n m = await (call (Pg (PgPage q st n m)))
     (\<lambda>r. case r of RRows ws \<Rightarrow> Ret ws | _ \<Rightarrow> Throw bad_reply)"

definition pg_group :: "string \<Rightarrow> job_status list \<Rightarrow> (job_status \<times> int) list prog" where
  "pg_group q sts = await (call (Pg (PgGroup q sts)))
     (\<lambda>r. case r of RCounts cs \<Rightarrow> Ret cs | _ \<Rightarrow> Throw bad_reply)"

definition now :: "int prog" where
  "now = await (call (Host Now)) (\<lambda>r. case r of RInt t \<Rightarrow> Ret t | _ \<Rightarrow> Throw bad_reply)"

definition uuidv4 :: "string prog" where
  "uuidv4 = await (call (Host NewUuid)) (\<lambda>r. case r of RStr i \<Rightarrow> Ret i | _ \<Rightarrow> Throw bad_reply)"

definition sleep :: "jsnum \<Rightarrow> unit prog" where
  "sleep ms = seqp (call (Host (Sleep ms))) (Ret ())"

definition run_handler :: "handler_id \<Rightarrow> json \<Rightarrow> handler_ctx \<Rightarrow> unit prog" where
  "run_handler h p ctx = seqp (call (Host (RunHandler h p ctx))) (Ret ())"

definition cron_next :: "string \<Rightarrow> int prog" where
  "cron_next ex = await (call (Host (CronNext ex))) (\<lambda>r. case r of RInt t \<Rightarrow> Ret t | _ \<Rightarrow> Throw bad_reply)"

definition inc_metric :: "string \<Rightarrow> string list \<Rightarrow> unit prog" where
  "inc_metric m ls = seqp (call (Host (Inc m ls))) (Ret ())"

abbreviation "sadd k x \<equiv> redis_unit (SADD k x)"
abbreviation "srem k x \<equiv> redis_unit (SREM k x)"
abbreviation "smembers k \<equiv> redis_list (SMEMBERS k)"
abbreviation "redis_get k \<equiv> redis_str (GET k)"
abbreviation "setex k x ttl \<equiv> redis_unit (SETEX k x ttl)"
abbreviation "redis_exists k \<equiv> redis_int (EXISTS k)"
abbreviation "redis_del k \<equiv> redis_unit (DEL k)"
abbreviation "hset k fs \<equiv> redis_unit (HSET k fs)"
abbreviation "hget k f \<equiv> redis_str (HGET k f)"
abbreviation "hgetall k \<equiv> redis_hash (HGETALL k)"
abbreviation "lpush k x \<equiv> redis_unit (LPUSH k x)"
abbreviation "rpoplpush a b \<equiv> redis_str (RPOPLPUSH a b)"
abbreviation "blmove a b ttl \<equiv> redis_str (BLMOVE a b ttl)"
abbreviation "lrem_cmd k n x \<equiv> redis_unit (LREM k n x)"
abbreviation "lrange_cmd k i j \<equiv> redis_list (LRANGE k i j)"
abbreviation "llen k \<equiv> redis_int (LLEN k)"
abbreviation "zadd k sc x \<equiv> redis_unit (ZADD k sc x)"
abbreviation "zrem k x \<equiv> redis_int (ZREM k x)"
abbreviation "zrangebyscore k ub \<equiv> redis_list (ZRANGEBYSCORE k ub)"
abbreviation "publish ch m \<equiv> redis_unit (PUBLISH ch m)"

subsection \<open>Symbolic execution of the calls\<close>

lemma redis_zadd [simp]:
  "redis_effect (ZADD k sc x) v =
     v\<lparr>s_zsets := (s_zsets v)(k := (s_zsets v k)(x := (case sc of Num q \<Rightarrow> Some q | NaN \<Rightarrow> s_zsets v k x)))\<rparr>"
  "redis_allowed (ZADD k sc x) v r \<longleftrightarrow> sc \<noteq> NaN \<and> (\<exists>n. r = RInt n)"
  by (cases sc; simp add: fun_eq_iff)+

lemma jsnum_not_NaN: "x \<noteq> NaN \<longleftrightarrow> (\<exists>q. x = Num q)"
  by (cases x) auto

lemma ex_RInt [simp]: "\<exists>r n. r = RInt n"
  by blast

lemma vwp_redis_unit [vwp_rules]:
  "vwp I (redis_unit c) Q v \<longleftrightarrow> I v \<and> (\<forall>e. Q (Inl e) v) \<and>
     ((\<exists>r. redis_allowed c v r) \<longrightarrow> I (redis_effect c v) \<and> Q (Inr ()) (redis_effect c v))"
  by (auto simp: redis_unit_def vwp_call)

lemma vwp_redis_str [vwp_rules]:
  "vwp I (rpoplpush a b) Q v \<longleftrightarrow> I v \<and> (\<forall>e. Q (Inl e) v) \<and>
     I (redis_effect (RPOPLPUSH a b) v) \<and>
     Q (Inr (if s_lists v a = [] then None else Some (last (s_lists v a)))) (redis_effect (RPOPLPUSH a b) v)"
  "vwp I (blmove a b ttl) Q v \<longleftrightarrow> I v \<and> (\<forall>e. Q (Inl e) v) \<and>
     I (redis_effect (BLMOVE a b ttl) v) \<and>
     Q (Inr (if s_lists v a = [] then None else Some (last (s_lists v a)))) (redis_effect (BLMOVE a b ttl) v)"
  "vwp I (redis_get k) Q v \<longleftrightarrow> I v \<and> (\<forall>e. Q (Inl e) v) \<and> Q (Inr (live_str v k)) v"
  "vwp I (hget k f) Q v \<longleftrightarrow> I v \<and> (\<forall>e. Q (Inl e) v) \<and> Q (Inr (s_hashes v k f)) v"
  by (auto simp: redis_str_def vwp_call then_post_def split: option.splits)

lemma vwp_redis_int [vwp_rules]:
  "vwp I (redis_exists k) Q v \<longleftrightarrow> I v \<and> (\<forall>e. Q (Inl e) v) \<and> Q (Inr (if key_exists v k then 1 else 0)) v"
  "vwp I (llen k) Q v \<longleftrightarrow> I v \<and> (\<forall>e. Q (Inl e) v) \<and> Q (Inr (int (length (s_lists v k)))) v"
  "vwp I (zrem k x) Q v \<longleftrightarrow> I v \<and> (\<forall>e. Q (Inl e) v) \<and>
     I (redis_effect (ZREM k x) v) \<and>
     Q (Inr (if s_zsets v k x = None then 0 else 1)) (redis_effect (ZREM k x) v)"
  by (auto simp: redis_int_def vwp_call then_post_def)

text \<open>The members up to a score, in an order \<open>ZRANGEBYSCORE\<close> may give.\<close>
definition due_list :: "store \<Rightarrow> string \<Rightarrow> rat option \<Rightarrow> string list \<Rightarrow> bool" where
  "due_list v k ub xs \<longleftrightarrow> redis_allowed (ZRANGEBYSCORE k ub) v (RList xs)"

lemma due_listD:
  assumes "due_list v k ub xs"
  shows "distinct xs"
    and "x \<in> set xs \<longleftrightarrow> (\<exists>sc. s_zsets v k x = Some sc \<and> (case ub of None \<Rightarrow> True | Some u \<Rightarrow> sc \<le> u))"
  using assms by (auto simp: due_list_def)

lemma vwp_redis_list [vwp_rules]:
  "vwp I (smembers k) Q v \<longleftrightarrow> I v \<and> (\<forall>e. Q (Inl e) v) \<and>
     (\<forall>xs. distinct xs \<longrightarrow> set xs = s_sets v k \<longrightarrow> Q (Inr xs) v)"
  "vwp I (lrange_cmd k i j) Q v \<longleftrightarrow> I v \<and> (\<forall>e. Q (Inl e) v) \<and> Q (Inr (lrange i j (s_lists v k))) v"
  "vwp I (zrangebyscore k ub) Q v \<longleftrightarrow> I v \<and> (\<forall>e. Q (Inl e) v) \<and>
     (\<forall>xs. due_list v k ub xs \<longrightarrow> Q (Inr xs) v)"
  by (auto simp: redis_list_def vwp_call then_post_def due_list_def)

lemma vwp_redis_hash [vwp_rules]:
  "vwp I (hgetall k) Q v \<longleftrightarrow> I v \<and> (\<forall>e. Q (Inl e) v) \<and> Q (Inr (s_hashes v k)) v"
  by (auto simp: redis_hash_def vwp_call then_post_def)

lemma vwp_multi_exec [vwp_rules]:
  "vwp I (multi_exec cs) Q v \<longleftrightarrow> I v \<and> (\<forall>e. Q (Inl e) v) \<and>
     I (fold redis_effect cs v) \<and> Q (Inr ()) (fold redis_effect cs v)"
  by (auto simp: multi_exec_def vwp_call)

lemma vwp_redis_eval [vwp_rules]:
  "vwp I (redis_eval k f) Q v \<longleftrightarrow> I v \<and> (\<forall>e. Q (Inl e) v) \<and>
     (\<forall>ns fs. f (s_hashes v k) = Some (ns, fs) \<longrightarrow>
        I (redis_effect (HSET k fs) v) \<and> Q (Inr ns) (redis_effect (HSET k fs) v))"
  by (auto simp: redis_eval_def vwp_call then_post_def script_allowed_def script_effect_def
      split: option.splits)

lemma vwp_pg_query [vwp_rules]:
  "vwp I (pg_query q) Q v \<longleftrightarrow> I v \<and> (\<forall>e. Q (Inl e) v) \<and>
     ((\<exists>r. pg_allowed q v r) \<longrightarrow> I (pg_effect q v) \<and> Q (Inr ()) (pg_effect q v))"
  by (auto simp: pg_query_def vwp_call)

lemma vwp_pg_row [vwp_rules]:
  "vwp I (pg_row i) Q v \<longleftrightarrow> I v \<and> (\<forall>e. Q (Inl e) v) \<and> Q (Inr (s_rows v i)) v"
  by (auto simp: pg_row_def vwp_call then_post_def)

lemma vwp_pg_count [vwp_rules]:
  "vwp I (pg_count q st) Q v \<longleftrightarrow> I v \<and> (\<forall>e. Q (Inl e) v) \<and>
     Q (Inr (int (card (rows_matching v q st)))) v"
  by (auto simp: pg_count_def vwp_call then_post_def)

lemma vwp_pg_page [vwp_rules]:
  "vwp I (pg_page q st n m) Q v \<longleftrightarrow> I v \<and> (\<forall>e. Q (Inl e) v) \<and>
     (\<forall>ws. pg_allowed (PgPage q st n m) v (RRows ws) \<longrightarrow> Q (Inr ws) v)"
  by (auto simp: pg_page_def vwp_call then_post_def)

lemma vwp_pg_group [vwp_rules]:
  "vwp I (pg_group q sts) Q v \<longleftrightarrow> I v \<and> (\<forall>e. Q (Inl e) v) \<and>
     (\<forall>cs. pg_allowed (PgGroup q sts) v (RCounts cs) \<longrightarrow> Q (Inr cs) v)"
  by (auto simp: pg_group_def vwp_call then_post_def)

lemma vwp_now [vwp_rules]:
  "vwp I now Q v \<longleftrightarrow> I v \<and>
     (\<forall>t. s_clock v \<le> t \<longrightarrow> I (v\<lparr>s_clock := t\<rparr>) \<and> Q (Inr t) (v\<lparr>s_clock := t\<rparr>))"
  by (auto simp: now_def vwp_call then_post_def)

lemma vwp_uuidv4 [vwp_rules]:
  "vwp I uuidv4 Q v \<longleftrightarrow> I v \<and>
     (\<forall>i. i \<noteq> [] \<longrightarrow> i \<notin> s_issued v \<longrightarrow>
        I (v\<lparr>s_issued := insert i (s_issued v)\<rparr>) \<and> Q (Inr i) (v\<lparr>s_issued := insert i (s_issued v)\<rparr>))"
  by (auto simp: uuidv4_def vwp_call then_post_def)

lemma vwp_sleep [vwp_rules]:
  "vwp I (sleep ms) Q v \<longleftrightarrow> I v \<and>
     (\<forall>t. s_clock v \<le> t \<longrightarrow> I (v\<lparr>s_clock := t\<rparr>) \<and> Q (Inr ()) (v\<lparr>s_clock := t\<rparr>))"
  by (auto simp: sleep_def vwp_call)

lemma vwp_run_handler [vwp_rules]:
  "vwp I (run_handler h p ctx) Q v \<longleftrightarrow> I v \<and> I (v\<lparr>s_ran := (h, p, ctx) # s_ran v\<rparr>) \<and>
     (\<forall>e. Q (Inl e) (v\<lparr>s_ran := (h, p, ctx) # s_ran v\<rparr>)) \<and>
     Q (Inr ()) (v\<lparr>s_ran := (h, p, ctx) # s_ran v\<rparr>)"
  by (auto simp: run_handler_def vwp_call)

lemma vwp_cron_next [vwp_rules]:
  "vwp I (cron_next ex) Q v \<longleftrightarrow> I v \<and> (\<forall>e. Q (Inl e) v) \<and> (\<forall>t. s_clock v < t \<longrightarrow> Q (Inr t) v)"
  by (auto simp: cron_next_def vwp_call then_post_def)

lemma vwp_inc_metric [vwp_rules]:
  "vwp I (inc_metric m ls) Q v \<longleftrightarrow> I v \<and> I (v\<lparr>s_metrics := (m, ls) # s_metrics v\<rparr>) \<and>
     Q (Inr ()) (v\<lparr>s_metrics := (m, ls) # s_metrics v\<rparr>)"
  by (auto simp: inc_metric_def vwp_call)

subsection \<open>Outcomes\<close>

text \<open>A statement about the value a program returns, and one about every outcome.\<close>

definition on_ok :: "('a \<Rightarrow> store \<Rightarrow> bool) \<Rightarrow> err + 'a \<Rightarrow> store \<Rightarrow> bool" where
  "on_ok P r w = (case r of Inl e \<Rightarrow> True | Inr a \<Rightarrow> P a w)"

lemma on_ok_simps [simp]: "on_ok P (Inl e) w" "on_ok P (Inr a) w = P a w"
  by (simp_all add: on_ok_def)

abbreviation any_state :: "store \<Rightarrow> bool" where
  "any_state \<equiv> \<lambda>_. True"

abbreviation any_outcome :: "err + 'a \<Rightarrow> store \<Rightarrow> bool" where
  "any_outcome \<equiv> \<lambda>_ _. True"

context backend
begin

lemma run_ok:
  assumes "run exec p s = (Inr a, s')" and "vwp any_state p (on_ok P) (view s)"
  shows "P a (view s')"
  using run_vwp [OF assms(2) assms(1)] by simp

lemma run_post:
  assumes "run exec p s = (r, s')" and "vwp any_state p Q (view s)"
  shows "Q r (view s')"
  using run_vwp [OF assms(2) assms(1)] .

lemma crash_ok:
  assumes "t \<in> set (states exec p s)" and "vwp I p any_outcome (view s)"
  shows "I (view t)"
  using states_vwp [OF assms(2) assms(1)] .

end

subsection \<open>Where a job id can be\<close>

text \<open>In a list, or waiting in a sorted set: the places a worker or a scheduler reads ids from.\<close>
definition in_list :: "store \<Rightarrow> string \<Rightarrow> bool" where
  "in_list v i \<longleftrightarrow> (\<exists>k. i \<in> set (s_lists v k))"

definition in_zset :: "store \<Rightarrow> string \<Rightarrow> bool" where
  "in_zset v i \<longleftrightarrow> (\<exists>k. s_zsets v k i \<noteq> None)"

definition visible :: "store \<Rightarrow> string \<Rightarrow> bool" where
  "visible v i \<longleftrightarrow> in_list v i \<or> in_zset v i"

lemma visible_cong:
  "s_lists w = s_lists v \<Longrightarrow> s_zsets w = s_zsets v \<Longrightarrow> visible w i = visible v i"
  by (simp add: visible_def in_list_def in_zset_def)

lemma visible_listI: "i \<in> set (s_lists v k) \<Longrightarrow> visible v i"
  by (auto simp: visible_def in_list_def)

lemma visible_zsetI: "s_zsets v k i = Some x \<Longrightarrow> visible v i"
  by (auto simp: visible_def in_zset_def)

text \<open>
  The part of the data jobs live in; what is left out are the clock, the issued ids, the
  string keys, the published events and the records of handler and counter calls.
\<close>
definition job_data where
  "job_data v = (s_lists v, s_hashes v, s_zsets v, s_sets v, s_rows v)"

lemma job_data_frame [simp]:
  "job_data (v\<lparr>s_clock := t\<rparr>) = job_data v" "job_data (v\<lparr>s_issued := is\<rparr>) = job_data v"
  "job_data (v\<lparr>s_strs := ss\<rparr>) = job_data v" "job_data (v\<lparr>s_published := ps\<rparr>) = job_data v"
  "job_data (v\<lparr>s_ran := rs\<rparr>) = job_data v" "job_data (v\<lparr>s_metrics := ms\<rparr>) = job_data v"
  by (simp_all add: job_data_def)

lemma job_dataD:
  assumes "job_data w = job_data v"
  shows "s_lists w = s_lists v" "s_hashes w = s_hashes v" "s_zsets w = s_zsets v"
    "s_sets w = s_sets v" "s_rows w = s_rows v"
  using assms by (simp_all add: job_data_def)

end
