(* ===== verification/Mem_Backend.thy ===== *)
theory Mem_Backend
  imports Service_Calls
begin

text \<open>
  An in-memory service, the counterpart of the \<^verbatim>\<open>ioredis-mock\<close> and the stubbed pool the
  repository's tests run against: lists and association lists instead of the maps and sets
  of \<open>store\<close>, every command executable.  \<open>faults\<close> chooses the calls that fail.

  The interpretation at the end discharges the contract of \<open>backend\<close> for it, so the
  hypothesis of the properties holds of a service that does all the program asks for.
\<close>

record mem =
  m_lists :: "string \<Rightarrow> string list"
  m_hashes :: "string \<Rightarrow> (string \<times> string) list"
  m_zsets :: "string \<Rightarrow> (string \<times> rat) list"
  m_sets :: "string \<Rightarrow> string list"
  m_strs :: "string \<Rightarrow> (string \<times> int) option"
  m_published :: "(string \<times> string) list"
  m_rows :: "(string \<times> job_row) list"
  m_clock :: int
  m_issued :: "string list"
  m_ran :: "(handler_id \<times> json \<times> handler_ctx) list"
  m_metrics :: "(string \<times> string list) list"

definition mem_empty :: "int \<Rightarrow> mem" where
  "mem_empty t = \<lparr>m_lists = (\<lambda>_. []), m_hashes = (\<lambda>_. []), m_zsets = (\<lambda>_. []), m_sets = (\<lambda>_. []),
     m_strs = (\<lambda>_. None), m_published = [], m_rows = [], m_clock = t, m_issued = [], m_ran = [],
     m_metrics = []\<rparr>"

definition mem_view :: "mem \<Rightarrow> store" where
  "mem_view m = \<lparr>s_lists = m_lists m, s_hashes = (\<lambda>k. map_of (m_hashes m k)),
     s_zsets = (\<lambda>k. map_of (m_zsets m k)), s_sets = (\<lambda>k. set (m_sets m k)), s_strs = m_strs m,
     s_published = m_published m, s_rows = map_of (m_rows m), s_clock = m_clock m,
     s_issued = set (m_issued m), s_ran = m_ran m, s_metrics = m_metrics m\<rparr>"

definition mem_live :: "mem \<Rightarrow> string \<Rightarrow> string option" where
  "mem_live m k = (case m_strs m k of None \<Rightarrow> None
     | Some (x, t) \<Rightarrow> if m_clock m < t then Some x else None)"

definition mem_exists :: "mem \<Rightarrow> string \<Rightarrow> bool" where
  "mem_exists m k \<longleftrightarrow> mem_live m k \<noteq> None \<or> m_lists m k \<noteq> [] \<or> m_hashes m k \<noteq> [] \<or>
     m_zsets m k \<noteq> [] \<or> m_sets m k \<noteq> []"

definition mem_move :: "string \<Rightarrow> string \<Rightarrow> mem \<Rightarrow> (err + reply) \<times> mem" where
  "mem_move a b m =
     (if m_lists m a = [] then (Inr RNil, m)
      else let x = last (m_lists m a); ls = (m_lists m)(a := butlast (m_lists m a))
           in (Inr (RStr x), m\<lparr>m_lists := ls(b := x # ls b)\<rparr>))"

fun mem_redis :: "rcmd \<Rightarrow> mem \<Rightarrow> (err + reply) \<times> mem" where
  "mem_redis (SADD k x) m = (Inr (RInt 1), m\<lparr>m_sets := (m_sets m)(k := List.insert x (m_sets m k))\<rparr>)"
| "mem_redis (SREM k x) m = (Inr (RInt 1), m\<lparr>m_sets := (m_sets m)(k := removeAll x (m_sets m k))\<rparr>)"
| "mem_redis (SMEMBERS k) m = (Inr (RList (remdups (m_sets m k))), m)"
| "mem_redis (GET k) m = (Inr (case mem_live m k of None \<Rightarrow> RNil | Some x \<Rightarrow> RStr x), m)"
| "mem_redis (SETEX k x ttl) m =
     (Inr (RInt 1), m\<lparr>m_strs := (m_strs m)(k \<mapsto> (x, m_clock m + 1000 * ttl))\<rparr>)"
| "mem_redis (EXISTS k) m = (Inr (RInt (if mem_exists m k then 1 else 0)), m)"
| "mem_redis (DEL k) m = (Inr (RInt 1), m\<lparr>m_lists := (m_lists m)(k := []),
     m_hashes := (m_hashes m)(k := []), m_zsets := (m_zsets m)(k := []),
     m_sets := (m_sets m)(k := []), m_strs := (m_strs m)(k := None)\<rparr>)"
| "mem_redis (HSET k fs) m = (Inr (RInt 1), m\<lparr>m_hashes := (m_hashes m)(k := fs @ m_hashes m k)\<rparr>)"
| "mem_redis (HGET k f) m =
     (Inr (case map_of (m_hashes m k) f of None \<Rightarrow> RNil | Some x \<Rightarrow> RStr x), m)"
| "mem_redis (HGETALL k) m = (Inr (RHash (map_of (m_hashes m k))), m)"
| "mem_redis (LPUSH k x) m = (Inr (RInt 1), m\<lparr>m_lists := (m_lists m)(k := x # m_lists m k)\<rparr>)"
| "mem_redis (RPOPLPUSH a b) m = mem_move a b m"
| "mem_redis (BLMOVE a b ttl) m = mem_move a b m"
| "mem_redis (LREM k n x) m =
     (Inr (RInt 1), m\<lparr>m_lists := (m_lists m)(k := lrem n x (m_lists m k))\<rparr>)"
| "mem_redis (LRANGE k i j) m = (Inr (RList (lrange i j (m_lists m k))), m)"
| "mem_redis (LLEN k) m = (Inr (RInt (int (length (m_lists m k)))), m)"
| "mem_redis (ZADD k NaN x) m = (Inl (JsError ''ERR value is not a valid float''), m)"
| "mem_redis (ZADD k (Num sc) x) m =
     (Inr (RInt 1), m\<lparr>m_zsets := (m_zsets m)(k := (x, sc) # m_zsets m k)\<rparr>)"
| "mem_redis (ZREM k x) m =
     (Inr (RInt (if map_of (m_zsets m k) x = None then 0 else 1)),
      m\<lparr>m_zsets := (m_zsets m)(k := filter (\<lambda>p. fst p \<noteq> x) (m_zsets m k))\<rparr>)"
| "mem_redis (ZRANGEBYSCORE k ub) m =
     (let score = (\<lambda>x. the (map_of (m_zsets m k) x));
          xs = filter (\<lambda>x. case ub of None \<Rightarrow> True | Some u \<Rightarrow> score x \<le> u) (remdups (map fst (m_zsets m k)))
      in (Inr (RList (sort_key score xs)), m))"
| "mem_redis (PUBLISH ch x) m = (Inr (RInt 0), m\<lparr>m_published := (ch, x) # m_published m\<rparr>)"

definition mem_ids :: "mem \<Rightarrow> string \<Rightarrow> job_status option \<Rightarrow> string list" where
  "mem_ids m q st =
     filter (\<lambda>i. case map_of (m_rows m) i of None \<Rightarrow> False
               | Some w \<Rightarrow> r_queue_name w = q \<and> (case st of None \<Rightarrow> True | Some x \<Rightarrow> r_status w = x))
       (remdups (map fst (m_rows m)))"

fun mem_pg :: "stmt \<Rightarrow> mem \<Rightarrow> (err + reply) \<times> mem" where
  "mem_pg (PgInsert i w) m =
     (if i \<in> fst ` set (m_rows m) then (Inl (JsError ''duplicate key''), m)
      else if r_payload w = None then (Inl (JsError ''null value in column payload''), m)
      else if r_idempotency_key w \<noteq> None \<and>
          (\<exists>x \<in> set (m_rows m). r_idempotency_key (snd x) = r_idempotency_key w)
        then (Inl (JsError ''duplicate key''), m)
      else (Inr RNil, m\<lparr>m_rows := (i, w\<lparr>r_created_at := m_clock m\<rparr>) # m_rows m\<rparr>))"
| "mem_pg (PgUpdate i as) m =
     (case map_of (m_rows m) i of
        None \<Rightarrow> (Inr RNil, m)
      | Some w \<Rightarrow> (Inr RNil, m\<lparr>m_rows := (i, fold (apply_assign (m_clock m)) as w) # m_rows m\<rparr>))"
| "mem_pg (PgSelect i) m = (Inr (RRow (map_of (m_rows m) i)), m)"
| "mem_pg (PgCount q st) m = (Inr (RInt (int (length (mem_ids m q st)))), m)"
| "mem_pg (PgPage q st n k) m =
     (if n < 0 \<or> k < 0 then (Inl (JsError ''LIMIT must not be negative''), m)
      else let row = (\<lambda>i. the (map_of (m_rows m) i));
               ids = sort_key (\<lambda>i. - r_created_at (row i)) (mem_ids m q st)
           in (Inr (RRows (take (nat n) (drop (nat k) (map (\<lambda>i. (i, row i)) ids)))), m))"
| "mem_pg (PgGroup q sts) m =
     (Inr (RCounts (map (\<lambda>st. (st, int (length (mem_ids m q (Some st)))))
        (filter (\<lambda>st. mem_ids m q (Some st) \<noteq> []) (remdups sts)))), m)"

text \<open>A string longer than every string issued so far.\<close>
definition fresh_id :: "string list \<Rightarrow> string" where
  "fresh_id is = replicate (Suc (foldr max (map length is) 0)) (CHR ''u'')"

fun mem_host :: "host_cmd \<Rightarrow> mem \<Rightarrow> (err + reply) \<times> mem" where
  "mem_host Now m = (Inr (RInt (m_clock m)), m)"
| "mem_host (Sleep ms) m = (Inr (RInt (m_clock m)), m)"
| "mem_host NewUuid m =
     (let i = fresh_id (m_issued m) in (Inr (RStr i), m\<lparr>m_issued := i # m_issued m\<rparr>))"
| "mem_host (RunHandler h p ctx) m = (Inr RNil, m\<lparr>m_ran := (h, p, ctx) # m_ran m\<rparr>)"
| "mem_host (CronNext ex) m = (Inr (RInt (m_clock m + 60000)), m)"
| "mem_host (Inc x ls) m = (Inr RNil, m\<lparr>m_metrics := (x, ls) # m_metrics m\<rparr>)"

definition mem_fail :: "call \<Rightarrow> mem \<Rightarrow> (err + reply) \<times> mem" where
  "mem_fail c m = (Inl (JsError ''connection lost''),
     (case c of Host (RunHandler h p ctx) \<Rightarrow> m\<lparr>m_ran := (h, p, ctx) # m_ran m\<rparr> | _ \<Rightarrow> m))"

definition mem_script :: "string \<Rightarrow> script \<Rightarrow> mem \<Rightarrow> (err + reply) \<times> mem" where
  "mem_script k f m =
     (case f (map_of (m_hashes m k)) of
        None \<Rightarrow> (Inl (JsError ''ERR script''), m)
      | Some (ns, fs) \<Rightarrow> (Inr (RInts ns), snd (mem_redis (HSET k fs) m)))"

definition mem_exec :: "(call \<Rightarrow> bool) \<Rightarrow> mem service" where
  "mem_exec faults c m =
     (if fallible c \<and> faults c then mem_fail c m
      else case c of
          Redis r \<Rightarrow> mem_redis r m
        | RedisMulti rs \<Rightarrow> (Inr RNil, fold (\<lambda>r m. snd (mem_redis r m)) rs m)
        | RedisEval k f \<Rightarrow> mem_script k f m
        | Pg q \<Rightarrow> mem_pg q m
        | Host h \<Rightarrow> mem_host h m)"

abbreviation no_faults :: "call \<Rightarrow> bool" where
  "no_faults \<equiv> \<lambda>_. False"

subsection \<open>It keeps the contract\<close>

lemma mem_view_simps [simp]:
  "s_lists (mem_view m) = m_lists m"
  "s_hashes (mem_view m) k = map_of (m_hashes m k)"
  "s_zsets (mem_view m) k = map_of (m_zsets m k)"
  "s_sets (mem_view m) k = set (m_sets m k)"
  "s_strs (mem_view m) = m_strs m"
  "s_published (mem_view m) = m_published m"
  "s_rows (mem_view m) = map_of (m_rows m)"
  "s_clock (mem_view m) = m_clock m"
  "s_issued (mem_view m) = set (m_issued m)"
  "s_ran (mem_view m) = m_ran m"
  "s_metrics (mem_view m) = m_metrics m"
  by (simp_all add: mem_view_def)

lemma mem_live_view: "live_str (mem_view m) k = mem_live m k"
  by (simp add: live_str_def mem_live_def split: option.split prod.split)

lemma map_of_filter_ne: "map_of (filter (\<lambda>p. fst p \<noteq> x) z) = (map_of z)(x := None)"
  by (induction z) (auto simp: fun_eq_iff)

lemma map_of_empty_iff: "map_of xs = Map.empty \<longleftrightarrow> xs = []"
  by (cases xs) auto

lemma mem_exists_view: "key_exists (mem_view m) k \<longleftrightarrow> mem_exists m k"
  by (simp add: key_exists_def mem_exists_def mem_live_view map_of_empty_iff)

lemma mem_move_ok:
  assumes "mem_move a b m = (Inr r, m')"
  shows "redis_allowed (RPOPLPUSH a b) (mem_view m) r \<and> mem_view m' = redis_effect (RPOPLPUSH a b) (mem_view m)"
  using assms by (auto simp: mem_move_def mem_view_def Let_def split: if_splits)

lemma zrange_ok:
  fixes z :: "(string \<times> rat) list" and ub :: "rat option"
  defines "score \<equiv> \<lambda>x. the (map_of z x)"
  defines "xs \<equiv> sort_key score (filter (\<lambda>x. case ub of None \<Rightarrow> True | Some u \<Rightarrow> score x \<le> u) (remdups (map fst z)))"
  shows "distinct xs" "sorted (map score xs)"
    "set xs = {x. \<exists>sc. map_of z x = Some sc \<and> (case ub of None \<Rightarrow> True | Some u \<Rightarrow> sc \<le> u)}"
proof -
  show "distinct xs" "sorted (map score xs)" by (simp_all add: xs_def)
  have "x \<in> fst ` set z \<longleftrightarrow> (\<exists>sc. map_of z x = Some sc)" for x
    using map_of_eq_None_iff [of z x] by (cases "map_of z x") auto
  then show "set xs = {x. \<exists>sc. map_of z x = Some sc \<and> (case ub of None \<Rightarrow> True | Some u \<Rightarrow> sc \<le> u)}"
    by (auto simp: xs_def score_def split: option.splits)
qed

lemma mem_redis_ok:
  "mem_redis c m = (Inr r, m') \<Longrightarrow>
     redis_allowed c (mem_view m) r \<and> mem_view m' = redis_effect c (mem_view m)"
proof (cases c)
  case (ZRANGEBYSCORE k ub)
  moreover assume "mem_redis c m = (Inr r, m')"
  ultimately show ?thesis using zrange_ok [of "m_zsets m k" ub] by (auto simp: Let_def)
next
  case (ZADD k sc x)
  moreover assume "mem_redis c m = (Inr r, m')"
  ultimately show ?thesis by (cases sc) (auto simp: mem_view_def fun_eq_iff)
next
  case (RPOPLPUSH a b)
  moreover assume "mem_redis c m = (Inr r, m')"
  ultimately show ?thesis using mem_move_ok by simp
next
  case (BLMOVE a b ttl)
  moreover assume "mem_redis c m = (Inr r, m')"
  ultimately show ?thesis using mem_move_ok [of a b m r m'] by simp
qed (auto simp: mem_view_def fun_eq_iff mem_live_view [unfolded mem_view_def]
      mem_exists_view [unfolded mem_view_def] map_of_filter_ne)

lemma mem_redis_fail: "mem_redis c m = (Inl e, m') \<Longrightarrow> m' = m"
  by (cases "(c, m)" rule: mem_redis.cases) (auto simp: Let_def mem_move_def split: if_splits)

lemma mem_redis_view: "mem_view (snd (mem_redis c m)) = redis_effect c (mem_view m)"
proof (cases "\<exists>k x. c = ZADD k NaN x")
  case False
  obtain r m' where rm: "mem_redis c m = (r, m')" by fastforce
  have "\<exists>y. r = Inr y"
    using False rm by (cases "(c, m)" rule: mem_redis.cases) (auto simp: Let_def mem_move_def split: if_splits)
  with rm mem_redis_ok [of c m _ m'] show ?thesis by auto
qed (auto simp: mem_view_def fun_eq_iff)

lemma mem_multi_view:
  "mem_view (fold (\<lambda>r m. snd (mem_redis r m)) rs m) = fold redis_effect rs (mem_view m)"
  by (induction rs arbitrary: m) (simp_all add: mem_redis_view)

lemma mem_ids_ok:
  "distinct (mem_ids m q st)" "set (mem_ids m q st) = rows_matching (mem_view m) q st"
proof -
  show "distinct (mem_ids m q st)" by (simp add: mem_ids_def)
  have "i \<in> fst ` set (m_rows m) \<longleftrightarrow> (\<exists>w. map_of (m_rows m) i = Some w)" for i
    using map_of_eq_None_iff [of "m_rows m" i] by (cases "map_of (m_rows m) i") auto
  then show "set (mem_ids m q st) = rows_matching (mem_view m) q st"
    by (auto simp: mem_ids_def rows_matching_def split: option.splits)
qed

lemma mem_page_ok:
  fixes m :: mem and q :: string and st :: "job_status option"
  defines "row \<equiv> \<lambda>i. the (map_of (m_rows m) i)"
  defines "all \<equiv> map (\<lambda>i. (i, row i)) (sort_key (\<lambda>i. - r_created_at (row i)) (mem_ids m q st))"
  shows "distinct (map fst all)" "set (map fst all) = rows_matching (mem_view m) q st"
    "\<forall>(i, w) \<in> set all. map_of (m_rows m) i = Some w"
    "sorted (rev (map (\<lambda>x. r_created_at (snd x)) all))"
proof -
  let ?ids = "sort_key (\<lambda>i. - r_created_at (row i)) (mem_ids m q st)"
  have fst_all: "map fst all = ?ids" by (simp add: all_def o_def)
  show "distinct (map fst all)" "set (map fst all) = rows_matching (mem_view m) q st"
    unfolding fst_all using mem_ids_ok [of m q st] by simp_all
  show "\<forall>(i, w) \<in> set all. map_of (m_rows m) i = Some w"
    using mem_ids_ok(2) [of m q st] by (auto simp: all_def row_def rows_matching_def)
  have "sorted (map (\<lambda>i. - r_created_at (row i)) ?ids)" by simp
  then show "sorted (rev (map (\<lambda>x. r_created_at (snd x)) all))"
    by (simp add: all_def o_def sorted_wrt_rev sorted_wrt_map)
qed

lemma mem_pg_ok:
  "mem_pg q m = (Inr r, m') \<Longrightarrow> pg_allowed q (mem_view m) r \<and> mem_view m' = pg_effect q (mem_view m)"
proof (cases q)
  case (PgInsert i w)
  assume "mem_pg q m = (Inr r, m')"
  with PgInsert show ?thesis
    by (auto simp: mem_view_def map_of_eq_None_iff split: if_splits dest!: map_of_SomeD)
next
  case (PgUpdate i as)
  assume "mem_pg q m = (Inr r, m')"
  with PgUpdate show ?thesis by (auto simp: mem_view_def fun_eq_iff split: option.splits)
next
  case (PgPage k st n off)
  assume "mem_pg q m = (Inr r, m')"
  with PgPage show ?thesis
    using mem_page_ok [where m = m and q = k and st = st]
    by (auto simp: Let_def image_image split: if_splits intro!: exI)
next
  case (PgCount k st)
  assume "mem_pg q m = (Inr r, m')"
  with PgCount show ?thesis
    using mem_ids_ok [of m k st] distinct_card [of "mem_ids m k st"] by auto
next
  case (PgGroup k sts)
  assume "mem_pg q m = (Inr r, m')"
  moreover have "length (mem_ids m k st) = card (rows_matching (mem_view m) k st)" for st
    using mem_ids_ok [of m k st] distinct_card [of "mem_ids m k st"] by simp
  moreover have "mem_ids m k st = [] \<longleftrightarrow> rows_matching (mem_view m) k st = {}" for st
    using mem_ids_ok(2) [of m k st] by auto
  ultimately show ?thesis using PgGroup by (auto simp: o_def)
qed auto

lemma mem_pg_fail: "mem_pg q m = (Inl e, m') \<Longrightarrow> m' = m"
  by (cases q) (auto simp: Let_def split: if_splits option.splits)

lemma fresh_id_notin: "fresh_id is \<notin> set is"
proof
  assume "fresh_id is \<in> set is"
  moreover have "x \<in> set is \<Longrightarrow> length x \<le> foldr max (map length is) 0" for x
    by (induction "is") auto
  ultimately have "length (fresh_id is) \<le> foldr max (map length is) 0" by blast
  then show False by (simp add: fresh_id_def)
qed

lemma mem_host_ok:
  "mem_host h m = (Inr r, m') \<Longrightarrow> host_allowed h (mem_view m) r \<and> mem_view m' = host_effect h r (mem_view m)"
  using fresh_id_notin [of "m_issued m"]
  by (cases h) (auto simp: Let_def mem_view_def fresh_id_def)

lemma mem_host_total: "mem_host h m \<noteq> (Inl e, m')"
  by (cases h) (auto simp: Let_def)

lemma mem_fail_ok:
  "mem_fail c m = (x, m') \<Longrightarrow> (\<exists>e. x = Inl e) \<and> mem_view m' = fail_effect c (mem_view m)"
proof (cases c)
  case (Host h)
  moreover assume "mem_fail c m = (x, m')"
  ultimately show ?thesis by (cases h) (auto simp: mem_fail_def mem_view_def)
qed (auto simp: mem_fail_def)

lemma mem_script_ok:
  "mem_script k f m = (Inr r, m') \<Longrightarrow>
     script_allowed k f (mem_view m) r \<and> mem_view m' = script_effect k f (mem_view m)"
  using mem_redis_view [of "HSET k fs" m for fs]
  by (auto simp: mem_script_def script_allowed_def script_effect_def split: option.splits)

lemma mem_script_fail: "mem_script k f m = (Inl e, m') \<Longrightarrow> m' = m"
  by (auto simp: mem_script_def split: option.splits)

interpretation mb: backend "mem_exec faults" mem_view for faults
proof unfold_locales
  fix c s r s'
  assume "mem_exec faults (Redis c) s = (Inr r, s')"
  then show "redis_allowed c (mem_view s) r \<and> mem_view s' = redis_effect c (mem_view s)"
    by (auto simp: mem_exec_def split: if_splits dest: mem_redis_ok mem_fail_ok)
next
  fix c s e s'
  assume "mem_exec faults (Redis c) s = (Inl e, s')"
  then show "mem_view s' = mem_view s"
    by (auto simp: mem_exec_def split: if_splits dest: mem_redis_fail mem_fail_ok)
next
  fix cs s r s'
  assume "mem_exec faults (RedisMulti cs) s = (Inr r, s')"
  then show "mem_view s' = fold redis_effect cs (mem_view s)"
    by (auto simp: mem_exec_def mem_multi_view split: if_splits dest: mem_fail_ok)
next
  fix cs s e s'
  assume "mem_exec faults (RedisMulti cs) s = (Inl e, s')"
  then show "mem_view s' = mem_view s"
    by (auto simp: mem_exec_def split: if_splits dest: mem_fail_ok)
next
  fix k f s r s'
  assume "mem_exec faults (RedisEval k f) s = (Inr r, s')"
  then show "script_allowed k f (mem_view s) r \<and> mem_view s' = script_effect k f (mem_view s)"
    by (auto simp: mem_exec_def split: if_splits dest: mem_script_ok mem_fail_ok)
next
  fix k f s e s'
  assume "mem_exec faults (RedisEval k f) s = (Inl e, s')"
  then show "mem_view s' = mem_view s"
    by (auto simp: mem_exec_def split: if_splits dest: mem_script_fail mem_fail_ok)
next
  fix q s r s'
  assume "mem_exec faults (Pg q) s = (Inr r, s')"
  then show "pg_allowed q (mem_view s) r \<and> mem_view s' = pg_effect q (mem_view s)"
    by (auto simp: mem_exec_def split: if_splits dest: mem_pg_ok mem_fail_ok)
next
  fix q s e s'
  assume "mem_exec faults (Pg q) s = (Inl e, s')"
  then show "mem_view s' = mem_view s"
    by (auto simp: mem_exec_def split: if_splits dest: mem_pg_fail mem_fail_ok)
next
  fix h s r s'
  assume "mem_exec faults (Host h) s = (Inr r, s')"
  then show "host_allowed h (mem_view s) r \<and> mem_view s' = host_effect h r (mem_view s)"
    by (auto simp: mem_exec_def split: if_splits dest: mem_host_ok mem_fail_ok)
next
  fix h s e s'
  assume "mem_exec faults (Host h) s = (Inl e, s')"
  then show "host_fallible h \<and> mem_view s' = host_fail_effect h (mem_view s)"
    by (auto simp: mem_exec_def mem_host_total split: if_splits dest: mem_fail_ok)
qed

lemma mem_backend: "backend (mem_exec faults) mem_view"
  by (rule mb.backend_axioms)

subsection \<open>Evaluating a program on it\<close>

text \<open>
  Runs on concrete data are evaluated by the simplifier: \<open>run_eval\<close> unfolds the calls,
  \<open>run_congs\<close> keeps it from going into the rest of a program before the answer is known.
\<close>

lemma await_weak_cong: "p = p' \<Longrightarrow> await p f = await p' f"
  by simp

lemma seqp_weak_cong: "p = p' \<Longrightarrow> seqp p f = seqp p' f"
  by simp

lemma try_catch_weak_cong: "p = p' \<Longrightarrow> try_catch p f = try_catch p' f"
  by simp

lemmas run_congs = await_weak_cong seqp_weak_cong try_catch_weak_cong let_weak_cong

lemmas run_eval =
  redis_eval_def mem_script_def run_await run_seqp run_try_catch run_call redis_unit_def redis_int_def redis_str_def
  redis_list_def redis_hash_def multi_exec_def pg_query_def pg_row_def pg_count_def pg_page_def pg_group_def
  now_def uuidv4_def sleep_def run_handler_def cron_next_def inc_metric_def
  mem_exec_def mem_empty_def mem_live_def mem_exists_def mem_move_def mem_ids_def mem_fail_def
  fresh_id_def default_row_def Let_def

end
