(* ===== verification/Job_Dao.thy ===== *)
theory Job_Dao
  imports Service_Calls Js_Date
begin

text \<open>
  \<^verbatim>\<open>shared/src/db.ts\<close>: the statements on the \<open>jobs\<close> table, one program per function.

  The lemmas give the effect of every \<open>mark\<close> function on the row it updates and show that
  none of them touches another row, or the columns an enqueue fixes.
\<close>

subsection \<open>Inserts\<close>

text \<open>
  \<open>insertPendingJob\<close>.  \<open>JSON.stringify\<close> of an absent payload is \<open>undefined\<close>, which the
  client sends as \<open>NULL\<close>; the statement lists no \<open>priority\<close> column.
\<close>
definition insertPendingJob ::
  "string \<Rightarrow> string \<Rightarrow> string \<Rightarrow> json option \<Rightarrow> int \<Rightarrow> string option \<Rightarrow> unit prog" where
  "insertPendingJob i queueName jobName payload maxAttempts idemKey =
     pg_query (PgInsert i
       ((default_row queueName jobName (map_option json_stringify payload) Pending)
          \<lparr>r_max_attempts := maxAttempts, r_idempotency_key := idemKey\<rparr>))"

text \<open>\<open>insertDelayedJob\<close>: no idempotency key column.\<close>
definition insertDelayedJob ::
  "string \<Rightarrow> string \<Rightarrow> string \<Rightarrow> json option \<Rightarrow> int \<Rightarrow> int \<Rightarrow> string option \<Rightarrow> unit prog" where
  "insertDelayedJob i queueName jobName payload maxAttempts delayedUntil priority =
     pg_query (PgInsert i
       ((default_row queueName jobName (map_option json_stringify payload) Delayed)
          \<lparr>r_max_attempts := maxAttempts, r_delayed_until := Some delayedUntil,
           r_priority := Some (nullish priority ''normal'')\<rparr>))"

subsection \<open>Updates\<close>

definition markJobActive :: "string \<Rightarrow> unit prog" where
  "markJobActive i = pg_query (PgUpdate i [SetStatus Active, StartedNow, IncAttempts])"

definition markJobCompleted :: "string \<Rightarrow> unit prog" where
  "markJobCompleted i = pg_query (PgUpdate i [SetStatus Completed, CompletedNow, ErrorNull])"

definition markJobFailed :: "string \<Rightarrow> string \<Rightarrow> unit prog" where
  "markJobFailed i msg = pg_query (PgUpdate i [SetStatus Failed, CompletedNow, SetError msg])"

definition markJobDlq :: "string \<Rightarrow> string \<Rightarrow> unit prog" where
  "markJobDlq i msg = pg_query (PgUpdate i [SetStatus Dlq, CompletedNow, SetError msg])"

definition markJobPendingForRetry :: "string \<Rightarrow> unit prog" where
  "markJobPendingForRetry i = pg_query (PgUpdate i [SetStatus Pending, StartedNull, CompletedNull])"

definition markJobDelayed :: "string \<Rightarrow> unit prog" where
  "markJobDelayed i = pg_query (PgUpdate i [SetStatus Delayed, StartedNull, CompletedNull])"

lemmas dao_defs =
  insertPendingJob_def insertDelayedJob_def markJobActive_def markJobCompleted_def
  markJobFailed_def markJobDlq_def markJobPendingForRetry_def markJobDelayed_def

subsection \<open>Reading a job\<close>

definition job_of_row :: "string \<Rightarrow> job_row \<Rightarrow> job" where
  "job_of_row i w = \<lparr>j_id = i, j_queueName = r_queue_name w, j_jobName = r_job_name w,
     j_payload = nullish (r_payload w) ''null'', j_status = r_status w, j_attempts = r_attempts w,
     j_maxAttempts = r_max_attempts w, j_errorMessage = r_error_message w,
     j_createdAt = to_iso (r_created_at w),
     j_startedAt = map_option to_iso (r_started_at w),
     j_completedAt = map_option to_iso (r_completed_at w)\<rparr>"

definition getJob :: "string \<Rightarrow> job option prog" where
  "getJob i = await (pg_row i) (\<lambda>row. Ret (map_option (job_of_row i) row))"

subsection \<open>What an update changes\<close>

text \<open>The columns an enqueue fixes for the life of the row.\<close>
definition row_identity :: "job_row \<Rightarrow> string \<times> string \<times> string option \<times> int \<times> int \<times> string option \<times> string option" where
  "row_identity w = (r_queue_name w, r_job_name w, r_payload w, r_max_attempts w, r_created_at w,
     r_idempotency_key w, r_priority w)"

lemma apply_assign_identity: "row_identity (apply_assign t a w) = row_identity w"
  by (cases a) (simp_all add: row_identity_def)

lemma fold_assign_identity: "row_identity (fold (apply_assign t) as w) = row_identity w"
  by (induction as arbitrary: w) (simp_all add: apply_assign_identity)

text \<open>The row a job has after a \<open>mark\<close> function has run at time \<open>t\<close>.\<close>
definition row_active :: "int \<Rightarrow> job_row \<Rightarrow> job_row" where
  "row_active t w = w\<lparr>r_status := Active, r_started_at := Some t, r_attempts := r_attempts w + 1\<rparr>"

definition row_completed :: "int \<Rightarrow> job_row \<Rightarrow> job_row" where
  "row_completed t w = w\<lparr>r_status := Completed, r_completed_at := Some t, r_error_message := None\<rparr>"

definition row_dlq :: "int \<Rightarrow> string \<Rightarrow> job_row \<Rightarrow> job_row" where
  "row_dlq t msg w = w\<lparr>r_status := Dlq, r_completed_at := Some t, r_error_message := Some msg\<rparr>"

definition row_failed :: "int \<Rightarrow> string \<Rightarrow> job_row \<Rightarrow> job_row" where
  "row_failed t msg w = w\<lparr>r_status := Failed, r_completed_at := Some t, r_error_message := Some msg\<rparr>"

definition row_waiting :: "job_status \<Rightarrow> job_row \<Rightarrow> job_row" where
  "row_waiting st w = w\<lparr>r_status := st, r_started_at := None, r_completed_at := None\<rparr>"

definition upd_row :: "string \<Rightarrow> (job_row \<Rightarrow> job_row) \<Rightarrow> store \<Rightarrow> store" where
  "upd_row i f v = v\<lparr>s_rows := (s_rows v)(i := map_option f (s_rows v i))\<rparr>"

lemma vwp_mark [vwp_rules]:
  "vwp I (markJobActive i) Q v \<longleftrightarrow> I v \<and> (\<forall>e. Q (Inl e) v) \<and>
     I (upd_row i (row_active (s_clock v)) v) \<and> Q (Inr ()) (upd_row i (row_active (s_clock v)) v)"
  "vwp I (markJobCompleted i) Q v \<longleftrightarrow> I v \<and> (\<forall>e. Q (Inl e) v) \<and>
     I (upd_row i (row_completed (s_clock v)) v) \<and> Q (Inr ()) (upd_row i (row_completed (s_clock v)) v)"
  "vwp I (markJobFailed i msg) Q v \<longleftrightarrow> I v \<and> (\<forall>e. Q (Inl e) v) \<and>
     I (upd_row i (row_failed (s_clock v) msg) v) \<and> Q (Inr ()) (upd_row i (row_failed (s_clock v) msg) v)"
  "vwp I (markJobDlq i msg) Q v \<longleftrightarrow> I v \<and> (\<forall>e. Q (Inl e) v) \<and>
     I (upd_row i (row_dlq (s_clock v) msg) v) \<and> Q (Inr ()) (upd_row i (row_dlq (s_clock v) msg) v)"
  "vwp I (markJobPendingForRetry i) Q v \<longleftrightarrow> I v \<and> (\<forall>e. Q (Inl e) v) \<and>
     I (upd_row i (row_waiting Pending) v) \<and> Q (Inr ()) (upd_row i (row_waiting Pending) v)"
  "vwp I (markJobDelayed i) Q v \<longleftrightarrow> I v \<and> (\<forall>e. Q (Inl e) v) \<and>
     I (upd_row i (row_waiting Delayed) v) \<and> Q (Inr ()) (upd_row i (row_waiting Delayed) v)"
  by (simp_all add: dao_defs vwp_rules upd_row_def row_active_def [abs_def] row_completed_def [abs_def]
      row_failed_def [abs_def] row_dlq_def [abs_def] row_waiting_def [abs_def] o_def id_def)

lemma vwp_getJob [vwp_rules]:
  "vwp I (getJob i) Q v \<longleftrightarrow> I v \<and> (\<forall>e. Q (Inl e) v) \<and> Q (Inr (map_option (job_of_row i) (s_rows v i))) v"
  by (auto simp: getJob_def vwp_rules)

lemma upd_row_frame [simp]:
  "s_lists (upd_row i f v) = s_lists v" "s_hashes (upd_row i f v) = s_hashes v"
  "s_zsets (upd_row i f v) = s_zsets v" "s_sets (upd_row i f v) = s_sets v"
  "s_strs (upd_row i f v) = s_strs v" "s_published (upd_row i f v) = s_published v"
  "s_clock (upd_row i f v) = s_clock v" "s_issued (upd_row i f v) = s_issued v"
  "s_ran (upd_row i f v) = s_ran v" "s_metrics (upd_row i f v) = s_metrics v"
  "s_rows (upd_row i f v) i = map_option f (s_rows v i)"
  "j \<noteq> i \<Longrightarrow> s_rows (upd_row i f v) j = s_rows v j"
  by (simp_all add: upd_row_def)

lemma row_status_simps [simp]:
  "r_status (row_active t w) = Active" "r_status (row_completed t w) = Completed"
  "r_status (row_dlq t msg w) = Dlq" "r_status (row_failed t msg w) = Failed"
  "r_status (row_waiting st w) = st"
  "r_attempts (row_active t w) = r_attempts w + 1" "r_attempts (row_completed t w) = r_attempts w"
  "r_attempts (row_dlq t msg w) = r_attempts w" "r_attempts (row_waiting st w) = r_attempts w"
  "r_error_message (row_dlq t msg w) = Some msg" "r_error_message (row_completed t w) = None"
  "r_error_message (row_waiting st w) = r_error_message w"
  by (simp_all add: row_active_def row_completed_def row_dlq_def row_failed_def row_waiting_def)

end
