(* ===== verification/Producer.thy ===== *)
theory Producer
  imports Job_Dao Mem_Backend
begin

text \<open>
  \<^verbatim>\<open>server/src/producer.ts\<close>: \<open>Producer.enqueue\<close>.

  The writes are in the order of the code: the idempotency lookup, the Postgres row, one
  Redis transaction that makes the job visible, the idempotency key, the event.
\<close>

definition DEFAULT_QUEUE :: string where
  "DEFAULT_QUEUE = ''default''"

definition DEFAULT_MAX_ATTEMPTS :: int where
  "DEFAULT_MAX_ATTEMPTS = 3"

text \<open>
  The fields of the Redis hash of a new job, in the order of the object literal.  ioredis
  sends an \<open>undefined\<close> value as the empty string.
\<close>
definition new_job_hash :: "string \<Rightarrow> string \<Rightarrow> string \<Rightarrow> string option \<Rightarrow> job_status \<Rightarrow> string \<Rightarrow>
    string \<Rightarrow> string \<Rightarrow> (string \<times> string) list" where
  "new_job_hash i queueName jobName payload st maxAttempts priority nowIso =
     [(''id'', i), (''queueName'', queueName), (''jobName'', jobName),
      (''payload'', nullish payload ''''), (''status'', status_str st), (''attempts'', ''0''),
      (''maxAttempts'', maxAttempts), (''priority'', priority), (''errorMessage'', ''''),
      (''createdAt'', nowIso), (''startedAt'', ''''), (''completedAt'', '''')]"

definition publish_event :: "job_event \<Rightarrow> unit prog" where
  "publish_event ev = publish events_channel (event_text ev)"

text \<open>The options with the defaults of the code.\<close>

definition opt_queue :: "enqueue_options \<Rightarrow> string" where
  "opt_queue opts = nullish (o_queue opts) DEFAULT_QUEUE"

definition opt_maxAttempts :: "enqueue_options \<Rightarrow> int" where
  "opt_maxAttempts opts = nullish (o_maxAttempts opts) DEFAULT_MAX_ATTEMPTS"

definition opt_priority :: "enqueue_options \<Rightarrow> string" where
  "opt_priority opts = priority_str (nullish (o_priority opts) Normal)"

text \<open>\<open>delay && delay > 0\<close>\<close>
definition opt_delay :: "enqueue_options \<Rightarrow> int option" where
  "opt_delay opts = (case o_delay opts of None \<Rightarrow> None | Some d \<Rightarrow> if 0 < d then Some d else None)"

text \<open>Lines 67--70: the stored id, where the key is given and known.\<close>
definition idempotency_hit :: "enqueue_options \<Rightarrow> string option prog" where
  "idempotency_hit opts =
     (case o_idempotencyKey opts of
        None \<Rightarrow> Ret None
      | Some k \<Rightarrow>
          if k = [] then Ret None
          else await (redis_get (idempotency_key k))
            (\<lambda>existing. Ret (if truthy existing then existing else None)))"

text \<open>Lines 80--113: the audit row, then the transaction that schedules the job.\<close>
definition enqueue_delayed :: "string \<Rightarrow> string \<Rightarrow> json option \<Rightarrow> enqueue_options \<Rightarrow> string \<Rightarrow> int \<Rightarrow> unit prog" where
  "enqueue_delayed i jobName payload opts nowIso d =
     await now (\<lambda>t.
     let dueAt = t + d in
     seqp (insertDelayedJob i (opt_queue opts) jobName payload (opt_maxAttempts opts) dueAt
             (Some (opt_priority opts)))
     (multi_exec
        [SADD queueRegistry_key (opt_queue opts),
         HSET (job_key i) (new_job_hash i (opt_queue opts) jobName (map_option json_stringify payload)
           Delayed (int_str (opt_maxAttempts opts)) (opt_priority opts) nowIso),
         ZADD (delayed_key (opt_queue opts)) (Num (of_int dueAt)) i]))"

text \<open>Lines 114--158: the audit row, then the transaction that pushes the job.\<close>
definition enqueue_immediate :: "string \<Rightarrow> string \<Rightarrow> json option \<Rightarrow> enqueue_options \<Rightarrow> string \<Rightarrow> unit prog" where
  "enqueue_immediate i jobName payload opts nowIso =
     seqp (insertPendingJob i (opt_queue opts) jobName payload (opt_maxAttempts opts)
             (if truthy (o_idempotencyKey opts) then o_idempotencyKey opts else None))
     (multi_exec
        [SADD queueRegistry_key (opt_queue opts),
         HSET (job_key i) (new_job_hash i (opt_queue opts) jobName (map_option json_stringify payload)
           Pending (int_str (opt_maxAttempts opts)) (opt_priority opts) nowIso),
         LPUSH (targetList (opt_queue opts) (opt_priority opts)) i])"

text \<open>Lines 160--176: the idempotency key for 24 hours, the event, the id.\<close>
definition enqueue_finish :: "bool \<Rightarrow> string \<Rightarrow> string \<Rightarrow> enqueue_options \<Rightarrow> string prog" where
  "enqueue_finish eventBus i jobName opts =
     seqp (if truthy (o_idempotencyKey opts)
           then setex (idempotency_key (nullish (o_idempotencyKey opts) '''')) i 86400 else Ret ())
     (seqp (if eventBus
            then await now (\<lambda>t. publish_event
              \<lparr>e_type = ''job.created'', e_jobId = i, e_jobName = jobName,
               e_queueName = opt_queue opts, e_timestamp = t, e_extra = []\<rparr>)
            else Ret ())
     (Ret i))"

definition enqueue :: "bool \<Rightarrow> string \<Rightarrow> json option \<Rightarrow> enqueue_options \<Rightarrow> string prog" where
  "enqueue eventBus jobName payload opts =
     (if jobName = [] then Throw (JsError ''enqueue: jobName must be a non-empty string'')
      else await (idempotency_hit opts) (\<lambda>existing.
        case existing of
          Some i \<Rightarrow> Ret i
        | None \<Rightarrow>
            await uuidv4 (\<lambda>i.
            await now (\<lambda>t.
            seqp (case opt_delay opts of
                    Some d \<Rightarrow> enqueue_delayed i jobName payload opts (to_iso t) d
                  | None \<Rightarrow> enqueue_immediate i jobName payload opts (to_iso t))
            (enqueue_finish eventBus i jobName opts)))))"

lemmas enqueue_defs =
  enqueue_def idempotency_hit_def enqueue_delayed_def enqueue_immediate_def enqueue_finish_def
  publish_event_def insertPendingJob_def insertDelayedJob_def

subsection \<open>What an enqueue does\<close>

definition key_known :: "store \<Rightarrow> enqueue_options \<Rightarrow> bool" where
  "key_known v opts \<longleftrightarrow>
     (\<exists>k i. o_idempotencyKey opts = Some k \<and> k \<noteq> [] \<and> live_str v (idempotency_key k) = Some i \<and> i \<noteq> [])"

lemma vwp_idempotency_hit:
  "vwp I (idempotency_hit opts) Q v \<longleftrightarrow> I v \<and>
     (truthy (o_idempotencyKey opts) \<longrightarrow> (\<forall>e. Q (Inl e) v)) \<and>
     (\<not> key_known v opts \<longrightarrow> Q (Inr None) v) \<and>
     (\<forall>k i. o_idempotencyKey opts = Some k \<longrightarrow> k \<noteq> [] \<longrightarrow>
        live_str v (idempotency_key k) = Some i \<longrightarrow> i \<noteq> [] \<longrightarrow> Q (Inr (Some i)) v)"
proof (cases "o_idempotencyKey opts")
  case None
  then show ?thesis by (simp add: idempotency_hit_def key_known_def)
next
  case (Some k)
  then show ?thesis
    by (cases "live_str v (idempotency_key k)")
      (auto simp: idempotency_hit_def key_known_def vwp_rules)
qed

text \<open>
  The contract of an enqueue: what it adds to the data, at creation time \<open>t\<close>.  The code
  reaches it in two separate writes; the contract is their sum.
\<close>

definition pending_row :: "string \<Rightarrow> json \<Rightarrow> enqueue_options \<Rightarrow> int \<Rightarrow> job_row" where
  "pending_row jobName payload opts t =
     (default_row (opt_queue opts) jobName (Some (json_stringify payload)) Pending)
       \<lparr>r_max_attempts := opt_maxAttempts opts,
        r_idempotency_key := (if truthy (o_idempotencyKey opts) then o_idempotencyKey opts else None),
        r_created_at := t\<rparr>"

definition delayed_row :: "string \<Rightarrow> json \<Rightarrow> enqueue_options \<Rightarrow> int \<Rightarrow> int \<Rightarrow> job_row" where
  "delayed_row jobName payload opts due t =
     (default_row (opt_queue opts) jobName (Some (json_stringify payload)) Delayed)
       \<lparr>r_max_attempts := opt_maxAttempts opts, r_delayed_until := Some due,
        r_priority := Some (opt_priority opts), r_created_at := t\<rparr>"

definition enqueued_hash :: "string \<Rightarrow> string \<Rightarrow> json \<Rightarrow> enqueue_options \<Rightarrow> job_status \<Rightarrow> int \<Rightarrow> (string \<times> string) list" where
  "enqueued_hash i jobName payload opts st t =
     new_job_hash i (opt_queue opts) jobName (Some (json_stringify payload)) st
       (int_str (opt_maxAttempts opts)) (opt_priority opts) (to_iso t)"

definition spec_immediate :: "string \<Rightarrow> string \<Rightarrow> json \<Rightarrow> enqueue_options \<Rightarrow> int \<Rightarrow> store \<Rightarrow> store" where
  "spec_immediate i jobName payload opts t v =
     (let q = targetList (opt_queue opts) (opt_priority opts)
      in v\<lparr>s_rows := (s_rows v)(i \<mapsto> pending_row jobName payload opts t),
           s_sets := (s_sets v)(queueRegistry_key := insert (opt_queue opts) (s_sets v queueRegistry_key)),
           s_hashes := (s_hashes v)(job_key i := s_hashes v (job_key i) ++
             map_of (enqueued_hash i jobName payload opts Pending t)),
           s_lists := (s_lists v)(q := i # s_lists v q)\<rparr>)"

definition spec_delayed :: "string \<Rightarrow> string \<Rightarrow> json \<Rightarrow> enqueue_options \<Rightarrow> int \<Rightarrow> int \<Rightarrow> int \<Rightarrow> store \<Rightarrow> store" where
  "spec_delayed i jobName payload opts due t t' v =
     (let z = delayed_key (opt_queue opts)
      in v\<lparr>s_rows := (s_rows v)(i \<mapsto> delayed_row jobName payload opts due t'),
           s_sets := (s_sets v)(queueRegistry_key := insert (opt_queue opts) (s_sets v queueRegistry_key)),
           s_hashes := (s_hashes v)(job_key i := s_hashes v (job_key i) ++
             map_of (enqueued_hash i jobName payload opts Delayed t)),
           s_zsets := (s_zsets v)(z := (s_zsets v z)(i \<mapsto> of_int due))\<rparr>)"

lemmas enqueue_vwp = enqueue_def enqueue_delayed_def enqueue_immediate_def enqueue_finish_def
  publish_event_def insertPendingJob_def insertDelayedJob_def vwp_idempotency_hit

text \<open>How far an enqueue has got: nothing, the audit row only, or all of its effect.\<close>
definition enqueue_stage :: "string \<Rightarrow> json \<Rightarrow> enqueue_options \<Rightarrow> store \<Rightarrow> store \<Rightarrow> bool" where
  "enqueue_stage jobName p opts v w \<longleftrightarrow> job_data w = job_data v \<or>
     (\<exists>i t. s_rows v i = None \<and>
        (job_data w = job_data (v\<lparr>s_rows := (s_rows v)(i \<mapsto> pending_row jobName p opts t)\<rparr>) \<or>
         job_data w = job_data (spec_immediate i jobName p opts t v)))"

lemma enqueue_stageI:
  "job_data w = job_data v \<Longrightarrow> enqueue_stage jobName p opts v w"
  "s_rows v i = None \<Longrightarrow>
     job_data w = job_data (v\<lparr>s_rows := (s_rows v)(i \<mapsto> pending_row jobName p opts t)\<rparr>) \<Longrightarrow>
     enqueue_stage jobName p opts v w"
  "s_rows v i = None \<Longrightarrow> job_data w = job_data (spec_immediate i jobName p opts t v) \<Longrightarrow>
     enqueue_stage jobName p opts v w"
  unfolding enqueue_stage_def by blast+

lemmas enqueue_spec = spec_immediate_def spec_delayed_def pending_row_def delayed_row_def
  enqueued_hash_def

lemma vwp_enqueue_pending:
  assumes "opt_delay opts = None" and "\<not> key_known v opts"
  shows "vwp any_state (enqueue bus jobName (Some p) opts)
     (on_ok (\<lambda>i u. i \<noteq> [] \<and> i \<notin> s_issued v \<and> s_rows v i = None \<and>
        (\<exists>t \<ge> s_clock v. job_data u = job_data (spec_immediate i jobName p opts t v)))) v"
  using assms
  by (simp add: enqueue_vwp vwp_rules Let_def key_known_def enqueue_spec) (auto simp: job_data_def)

subsection \<open>Properties\<close>

text \<open>An enqueue without a delay that returns an id has added exactly one job under a
  fresh id: its audit row, its hash with the defaults of the code filled in, its queue in the
  registry, and its id at the push end of the list of its priority; no other list, hash, set or
  row changed.\<close>
theorem enqueue_immediate_visible:
  assumes "backend exec view"
    and "run exec (enqueue bus jobName (Some p) opts) s = (Inr i, s')"
    and "opt_delay opts = None" and "\<not> key_known (view s) opts"
  shows "i \<noteq> [] \<and> i \<notin> s_issued (view s) \<and> s_rows (view s) i = None \<and>
     (\<exists>t \<ge> s_clock (view s). job_data (view s') = job_data (spec_immediate i jobName p opts t (view s)))"
  using backend.run_ok [OF assms(1,2) vwp_enqueue_pending [OF assms(3,4)]] .

text \<open>An enqueue with a positive delay adds the job to the delayed set of its queue
  instead, with a due time of that delay after a clock reading taken by the call, and pushes
  it to no list.\<close>
theorem enqueue_delayed_scheduled:
  assumes "backend exec view"
    and "run exec (enqueue bus jobName (Some p) opts) s = (Inr i, s')"
    and "opt_delay opts = Some d" and "\<not> key_known (view s) opts"
  shows "i \<noteq> [] \<and> i \<notin> s_issued (view s) \<and> s_rows (view s) i = None \<and>
     (\<exists>t \<ge> s_clock (view s). \<exists>t' \<ge> t.
        job_data (view s') = job_data (spec_delayed i jobName p opts (t' + d) t t' (view s)))"
  by (rule backend.run_ok [OF assms(1,2)],
      use assms(3,4) in \<open>simp add: enqueue_vwp vwp_rules Let_def key_known_def enqueue_spec\<close>)
    (auto simp: job_data_def)

text \<open>At every moment of an enqueue, a crash included, an id that has become visible to
  workers or schedulers has its audit row in Postgres.\<close>
theorem enqueue_row_first:
  assumes "backend exec view"
    and "t \<in> set (states exec (enqueue bus jobName payload opts) s)" and "visible (view t) i"
  shows "visible (view s) i \<or> s_rows (view t) i \<noteq> None"
proof -
  have "visible (view t) i \<longrightarrow> visible (view s) i \<or> s_rows (view t) i \<noteq> None"
    by (rule backend.crash_ok [OF assms(1,2)])
      (auto simp: enqueue_vwp vwp_rules Let_def visible_def in_list_def in_zset_def
        split: option.splits if_splits)
  then show ?thesis using assms(3) by simp
qed


text \<open>Within 24 hours of an enqueue under an idempotency key, an enqueue with the same key,
  whatever its name, payload and options, returns the first job's id (or the error of the
  failed lookup) and changes nothing.\<close>
theorem enqueue_idempotent:
  assumes "backend exec view"
    and "o_idempotencyKey opts = Some k" and "k \<noteq> []" and "\<not> key_known (view s) opts"
    and "run exec (enqueue bus jobName payload opts) s = (Inr i, s1)"
    and "o_idempotencyKey opts' = Some k" "jobName' \<noteq> []"
    and "s_strs (view s2) (idempotency_key k) = s_strs (view s1) (idempotency_key k)"
    and "s_clock (view s2) < s_clock (view s) + 86400000"
    and "run exec (enqueue bus' jobName' payload' opts') s2 = (r, s3)"
  shows "(r = Inr i \<or> (\<exists>e. r = Inl e)) \<and> view s3 = view s2"
proof -
  have "\<exists>t \<ge> s_clock (view s) + 86400000. s_strs (view s1) (idempotency_key k) = Some (i, t) \<and> i \<noteq> []"
    by (rule backend.run_ok [OF assms(1,5)],
        use assms(2-4) in \<open>simp add: enqueue_vwp vwp_rules Let_def key_known_def split: option.splits\<close>)
  then obtain t where t: "s_clock (view s) + 86400000 \<le> t"
    "s_strs (view s2) (idempotency_key k) = Some (i, t)" "i \<noteq> []" using assms(8) by auto
  then have "live_str (view s2) (idempotency_key k) = Some i"
    using assms(9) by (simp add: live_str_def)
  then show ?thesis
    by - (rule backend.run_post [OF assms(1,10)],
        use assms(3,6,7) t(3) in \<open>auto simp: enqueue_vwp vwp_rules key_known_def\<close>)
qed

text \<open>An enqueue without a payload (the request schema accepts one) never returns an id: the
  \<open>NOT NULL\<close> payload column refuses the row and no job is created.\<close>
theorem enqueue_without_payload:
  assumes "backend exec view"
    and "run exec (enqueue bus jobName None opts) s = (r, s')" and "\<not> key_known (view s) opts"
  shows "(\<exists>e. r = Inl e) \<and> job_data (view s') = job_data (view s)"
  by (rule backend.run_post [OF assms(1,2)],
      use assms(3) in \<open>auto simp: enqueue_vwp vwp_rules Let_def key_known_def default_row_def
        job_data_def split: option.splits\<close>)

subsection \<open>Instances\<close>

text \<open>Runs of the producer on the in-memory service, for the instances of the properties.\<close>
definition enqueue_at :: "mem \<Rightarrow> enqueue_options \<Rightarrow> json option \<Rightarrow> (err + string) \<times> mem" where
  "enqueue_at m opts p = run (mem_exec no_faults) (enqueue True ''greet'' p opts) m"

abbreviation "mem0 \<equiv> mem_empty 1700000000000"
abbreviation "opts_delayed \<equiv> no_options\<lparr>o_delay := Some 5000, o_priority := Some High\<rparr>"
abbreviation "opts_keyed \<equiv> no_options\<lparr>o_idempotencyKey := Some ''k''\<rparr>"

lemma enqueue_at_id:
  "fst (enqueue_at mem0 no_options (Some JNull)) = Inr ''u''"
  "fst (enqueue_at mem0 opts_delayed (Some JNull)) = Inr ''u''"
  "fst (enqueue_at mem0 opts_keyed (Some JNull)) = Inr ''u''"
  by (simp_all add: enqueue_at_def run_eval enqueue_defs opt_delay_def no_options_def cong: run_congs)

lemma enqueue_at_clock:
  "m_clock (snd (enqueue_at mem0 opts_keyed (Some JNull))) = 1700000000000"
  by (simp_all add: enqueue_at_def run_eval enqueue_defs opt_delay_def no_options_def cong: run_congs)

lemma not_key_known_mem0 [simp]: "\<not> key_known (mem_view (mem_empty t)) opts"
  by (simp add: key_known_def live_str_def mem_empty_def)

lemma opt_delay_examples [simp]:
  "opt_delay no_options = None" "opt_delay opts_delayed = Some 5000"
  by (simp_all add: opt_delay_def no_options_def)

theorem enqueue_immediate_visible_witness:
  "\<exists>t \<ge> s_clock (mem_view mem0). job_data (mem_view (snd (enqueue_at mem0 no_options (Some JNull)))) =
     job_data (spec_immediate ''u'' ''greet'' JNull no_options t (mem_view mem0))"
  using enqueue_immediate_visible [OF mem_backend run_fst [OF enqueue_at_id(1) [unfolded enqueue_at_def]]]
  by (simp add: enqueue_at_def)

theorem enqueue_delayed_scheduled_witness:
  "\<exists>t \<ge> s_clock (mem_view mem0). \<exists>t' \<ge> t. job_data (mem_view (snd (enqueue_at mem0 opts_delayed (Some JNull)))) =
     job_data (spec_delayed ''u'' ''greet'' JNull opts_delayed (t' + 5000) t t' (mem_view mem0))"
  using enqueue_delayed_scheduled [OF mem_backend run_fst [OF enqueue_at_id(2) [unfolded enqueue_at_def]]]
  by (simp add: enqueue_at_def)

lemma enqueue_at_listed: "''u'' \<in> set (m_lists (snd (enqueue_at mem0 no_options (Some JNull))) (queue_key ''default''))"
  by (simp add: enqueue_at_def run_eval enqueue_defs opt_delay_def opt_queue_def opt_priority_def DEFAULT_QUEUE_def targetList_def no_options_def cong: run_congs)

lemma enqueue_at_visible: "visible (mem_view (snd (enqueue_at mem0 no_options (Some JNull)))) ''u''"
  by (rule visible_listI [where k = "queue_key ''default''"]) (simp add: enqueue_at_listed)

theorem enqueue_row_first_witness:
  "s_rows (mem_view (snd (enqueue_at mem0 no_options (Some JNull)))) ''u'' \<noteq> None"
  using enqueue_row_first [OF mem_backend final_in_states, of _ _ _ _ _ mem0 "''u''"] enqueue_at_visible
  by (simp add: enqueue_at_def visible_def in_list_def in_zset_def mem_empty_def)


theorem enqueue_idempotent_witness:
  "\<exists>r m. run (mem_exec no_faults) (enqueue True ''other'' None opts_keyed) (snd (enqueue_at mem0 opts_keyed (Some JNull))) = (r, m)
     \<and> (r = Inr ''u'' \<or> (\<exists>e. r = Inl e)) \<and> mem_view m = mem_view (snd (enqueue_at mem0 opts_keyed (Some JNull)))"
proof -
  obtain r m where rm: "run (mem_exec no_faults) (enqueue True ''other'' None opts_keyed)
      (snd (enqueue_at mem0 opts_keyed (Some JNull))) = (r, m)" by fastforce
  with enqueue_idempotent [OF mem_backend _ _ _ run_fst [OF enqueue_at_id(3) [unfolded enqueue_at_def]] _ _ _ _ rm, of "''k''"]
  show ?thesis using enqueue_at_clock by (simp add: enqueue_at_def) (simp add: mem_empty_def)
qed

theorem enqueue_without_payload_witness:
  "\<exists>r m. run (mem_exec no_faults) (enqueue True ''greet'' None no_options) mem0 = (r, m) \<and>
     (\<exists>e. r = Inl e) \<and> job_data (mem_view m) = job_data (mem_view mem0)"
proof -
  obtain r m where rm: "run (mem_exec no_faults) (enqueue True ''greet'' None no_options) mem0 = (r, m)" by fastforce
  from enqueue_without_payload [OF mem_backend rm] show ?thesis using rm by simp
qed

end
