(* ===== verification/Handler_Registry.thy ===== *)
theory Handler_Registry
  imports Effects
begin

text \<open>
  \<^verbatim>\<open>worker/src/handlers.ts\<close>: \<open>HandlerRegistry\<close>, a JavaScript \<open>Map\<close> from job names to
  handlers.  A \<open>Map\<close> lists its keys in insertion order, so it is an association list with
  the newest entry last.
\<close>

type_synonym registry = "(string \<times> handler_id) list"

definition has_handler :: "registry \<Rightarrow> string \<Rightarrow> bool" where
  "has_handler reg jobName = (map_of reg jobName \<noteq> None)"

definition register :: "string \<Rightarrow> handler_id \<Rightarrow> registry \<Rightarrow> err + registry" where
  "register jobName handler reg =
     (if has_handler reg jobName
      then Inl (JsError (''handler already registered for jobName='' @ [CHR 0x22] @ jobName @ [CHR 0x22]))
      else Inr (reg @ [(jobName, handler)]))"

definition get_handler :: "registry \<Rightarrow> string \<Rightarrow> handler_id option" where
  "get_handler reg jobName = map_of reg jobName"

definition list_handlers :: "registry \<Rightarrow> string list" where
  "list_handlers reg = map fst reg"

text \<open>Registering a list of handlers, stopping at the first error.\<close>
fun register_all :: "(string \<times> handler_id) list \<Rightarrow> registry \<Rightarrow> err + registry" where
  "register_all [] reg = Inr reg"
| "register_all ((n, h) # hs) reg =
     (case register n h reg of Inl e \<Rightarrow> Inl e | Inr reg' \<Rightarrow> register_all hs reg')"

lemma register_Inr:
  "register n h reg = Inr reg' \<longleftrightarrow> map_of reg n = None \<and> reg' = reg @ [(n, h)]"
  by (auto simp: register_def has_handler_def)

lemma register_get:
  assumes "register n h reg = Inr reg'"
  shows "get_handler reg' m = (if m = n then Some h else get_handler reg m)"
  using assms by (auto simp: register_Inr get_handler_def map_add_def split: option.splits)

lemma register_all_Inr:
  "register_all hs reg = Inr reg' \<longleftrightarrow>
     reg' = reg @ hs \<and> distinct (map fst hs) \<and> fst ` set hs \<inter> fst ` set reg = {}"
proof (induction hs arbitrary: reg)
  case (Cons x hs)
  obtain n h where x: "x = (n, h)" by fastforce
  show ?case
  proof (cases "map_of reg n")
    case None
    then have "register n h reg = Inr (reg @ [(n, h)])" by (simp add: register_Inr)
    with Cons.IH [of "reg @ [(n, h)]"] None show ?thesis by (auto simp: x map_of_eq_None_iff)
  next
    case (Some k)
    then have "n \<in> fst ` set reg" by (metis map_of_eq_None_iff option.distinct(1))
    with Some show ?thesis by (simp add: x register_def has_handler_def)
  qed
qed auto

text \<open>A list of registrations is accepted exactly when its names are distinct; then every
  name has the handler it was registered with, no other name has one, and \<open>list\<close> gives the
  names in the order of registration.\<close>
theorem register_all_correct:
  "(case register_all hs [] of
      Inl e \<Rightarrow> \<not> distinct (map fst hs)
    | Inr reg \<Rightarrow> distinct (map fst hs) \<and> list_handlers reg = map fst hs \<and>
        (\<forall>n h. get_handler reg n = Some h \<longleftrightarrow> (n, h) \<in> set hs))"
proof (cases "register_all hs []")
  case (Inl e)
  then show ?thesis using register_all_Inr [of hs "[]" hs] by auto
next
  case (Inr reg)
  then have "reg = hs" "distinct (map fst hs)" by (simp_all add: register_all_Inr)
  with Inr show ?thesis by (simp add: list_handlers_def get_handler_def)
qed

end
