(* ===== verification/Rate_Limiter.thy ===== *)
theory Rate_Limiter
  imports Mem_Backend
begin

text \<open>
  \<^verbatim>\<open>worker/src/rate-limiter.ts\<close>: the token bucket, once as the Lua script Redis runs
  atomically (\<open>checkLimit\<close>) and once as a read followed by a write (\<open>checkLimitFallback\<close>,
  the one the worker calls).

  The locale \<open>token_bucket\<close> states what a bucket is and proves its rate bound; both
  implementations are interpretations of it.  Balances are exact rationals, and what is
  stored in Redis is their decimal text, so a bucket is followed exactly as long as its
  numbers have few enough decimal places (\<open>places\<close>).
\<close>

subsection \<open>The bucket\<close>

text \<open>The balance before a request at time \<open>tn\<close>: a bucket not stored yet is full.\<close>
definition level :: "rate_limit_config \<Rightarrow> int \<Rightarrow> (rat \<times> int) option \<Rightarrow> rat" where
  "level c tn b = (case b of None \<Rightarrow> maxTokens c
     | Some (t, l) \<Rightarrow> min (maxTokens c) (t + of_int (tn - l) / 1000 * refillRate c))"

locale token_bucket =
  fixes cfg :: "'st \<Rightarrow> rate_limit_config"
    and ok :: "'st \<Rightarrow> bool"
    and bucket :: "'st \<Rightarrow> (rat \<times> int) option"
    and check :: "int \<Rightarrow> 'st \<Rightarrow> bool \<times> 'st"
  assumes check_ok: "ok st \<Longrightarrow> ok (snd (check tn st))"
    and check_cfg: "cfg (snd (check tn st)) = cfg st"
    and check_allowed: "ok st \<Longrightarrow> fst (check tn st) \<longleftrightarrow> 1 \<le> level (cfg st) tn (bucket st)"
    and check_bucket: "ok st \<Longrightarrow> bucket (snd (check tn st)) =
      Some (level (cfg st) tn (bucket st) - (if fst (check tn st) then 1 else 0), tn)"
    and rates_nonneg: "ok st \<Longrightarrow> 0 \<le> refillRate (cfg st) \<and> 0 \<le> maxTokens (cfg st)"
begin

text \<open>A request at each of the times, in order: what was answered, and the state left.\<close>
fun checks :: "int list \<Rightarrow> 'st \<Rightarrow> bool list \<times> 'st" where
  "checks [] st = ([], st)"
| "checks (t # ts) st =
     (case check t st of (a, st') \<Rightarrow> case checks ts st' of (bs, st'') \<Rightarrow> (a # bs, st''))"

definition granted :: "bool list \<Rightarrow> nat" where
  "granted bs = length (filter id bs)"

definition in_range :: "int \<Rightarrow> 'st \<Rightarrow> bool" where
  "in_range tn st \<longleftrightarrow> (case bucket st of None \<Rightarrow> True | Some (t, l) \<Rightarrow> 0 \<le> t \<and> t \<le> maxTokens (cfg st) \<and> l \<le> tn)"

lemma level_range: "ok st \<Longrightarrow> in_range tn st \<Longrightarrow> 0 \<le> level (cfg st) tn (bucket st) \<and> level (cfg st) tn (bucket st) \<le> maxTokens (cfg st)"
  using rates_nonneg [of st] by (auto simp: in_range_def level_def split: option.splits)

lemma check_in_range:
  assumes "ok st" and "in_range tn st" and "tn \<le> tn'"
  shows "in_range tn' (snd (check tn st))"
  using assms level_range [OF assms(1,2)] check_allowed [OF assms(1), of tn]
  by (simp add: in_range_def check_bucket [OF assms(1)] check_cfg)

lemma checks_bound:
  assumes "ok st" and "in_range l st" and "bucket st = Some (x, l)"
    and "sorted (l # ts)" and "checks ts st = (bs, st')"
  shows "of_nat (granted bs) \<le> x + of_int (last (l # ts) - l) / 1000 * refillRate (cfg st)"
  using assms
proof (induction ts arbitrary: st l x bs st')
  case Nil
  then show ?case by (simp add: granted_def in_range_def)
next
  case (Cons t ts)
  obtain a st1 where c: "check t st = (a, st1)" by fastforce
  obtain bs1 where bs: "bs = a # bs1" and cs: "checks ts st1 = (bs1, st')"
    using Cons.prems(5) c by (auto split: prod.splits)
  let ?lv = "level (cfg st) t (bucket st)"
  let ?y = "?lv - (if a then 1 else 0)"
  have b1: "bucket st1 = Some (?y, t)" using check_bucket [OF Cons.prems(1), of t] c by simp
  have l_le: "l \<le> t" and sorted: "sorted (t # ts)" using Cons.prems(4) by auto
  have r: "in_range t st" using Cons.prems(2,3) l_le by (auto simp: in_range_def)
  have "in_range t st1" using check_in_range [OF Cons.prems(1) r order.refl] c by simp
  moreover have "ok st1" using check_ok [OF Cons.prems(1), of t] c by simp
  ultimately have "of_nat (granted bs1) \<le> ?y + of_int (last (t # ts) - t) / 1000 * refillRate (cfg st)"
    using Cons.IH b1 sorted cs check_cfg [of t st] c by fastforce
  moreover have "?lv \<le> x + of_int (t - l) / 1000 * refillRate (cfg st)"
    using Cons.prems(3) by (simp add: level_def)
  ultimately show ?case
    by (cases a; cases "ts = []")
      (simp_all add: bs granted_def algebra_simps add_divide_distrib diff_divide_distrib)
qed

text \<open>
  From any state, what is granted at the times \<open>t # ts\<close> is at most the capacity plus what
  flows in while they last.
\<close>
lemma window_bound:
  assumes "ok st" and "in_range t st" and "sorted (t # ts)"
  shows "of_nat (granted (fst (checks (t # ts) st))) \<le>
    maxTokens (cfg st) + of_int (last (t # ts) - t) / 1000 * refillRate (cfg st)"
proof -
  obtain a st1 where c: "check t st = (a, st1)" by fastforce
  obtain bs st2 where cs: "checks ts st1 = (bs, st2)" by fastforce
  let ?y = "level (cfg st) t (bucket st) - (if a then 1 else 0)"
  have "bucket st1 = Some (?y, t)" using check_bucket [OF assms(1), of t] c by simp
  moreover have "ok st1" using check_ok [OF assms(1), of t] c by simp
  moreover have "in_range t st1" using check_in_range [OF assms(1,2) order.refl] c by simp
  ultimately have "of_nat (granted bs) \<le> ?y + of_int (last (t # ts) - t) / 1000 * refillRate (cfg st)"
    using checks_bound assms(3) cs check_cfg [of t st] c by fastforce
  moreover have "level (cfg st) t (bucket st) \<le> maxTokens (cfg st)" using level_range [OF assms(1,2)] by simp
  ultimately show ?thesis using c cs by (simp add: granted_def algebra_simps split: if_splits)
qed

text \<open>A bucket that refused grants once its deficit has flowed in.\<close>
lemma retry_suffices:
  assumes "ok st" and "\<not> fst (check tn st)" and "1 \<le> maxTokens (cfg st)" and "0 < refillRate (cfg st)"
    and "of_int w \<ge> (1 - level (cfg st) tn (bucket st)) / refillRate (cfg st) * 1000"
  shows "fst (check (tn + w) (snd (check tn st)))"
proof -
  let ?lv = "level (cfg st) tn (bucket st)"
  have "1 - ?lv \<le> of_int w / 1000 * refillRate (cfg st)"
    using assms(4,5) by (simp add: field_simps)
  then have "1 \<le> level (cfg st) (tn + w) (Some (?lv, tn))"
    using assms(3) by (simp add: level_def)
  then show ?thesis
    using check_allowed [OF check_ok [OF assms(1)], of "tn + w" tn] check_bucket [OF assms(1), of tn] assms(2)
    by (simp add: check_cfg)
qed

end

subsection \<open>Answers\<close>

text \<open>
  \<open>Math.ceil(deficit / refillRate * 1000)\<close>: a positive deficit over a rate of zero is
  infinite.
\<close>
datatype retry_after = RetryAfter jsnum | RetryInfinity

definition retry_after :: "jsnum \<Rightarrow> rat \<Rightarrow> retry_after" where
  "retry_after deficit rate =
     (case deficit of
        NaN \<Rightarrow> RetryAfter NaN
      | Num d \<Rightarrow> if rate = 0 then RetryInfinity else RetryAfter (Num (of_int \<lceil>d / rate * 1000\<rceil>)))"

record limit_result =
  l_allowed :: bool
  l_retryAfterMs :: retry_after

subsection \<open>\<open>checkLimitFallback\<close>\<close>

text \<open>Lines 96--105: the balance after the refill.  Both fields or neither are used.\<close>
definition fallback_newTokens :: "rate_limit_config \<Rightarrow> int \<Rightarrow> (string \<Rightarrow> string option) \<Rightarrow> jsnum" where
  "fallback_newTokens config tn data =
     (let (tokens, lastRefill) =
            (case (data ''tokens'', data ''lastRefill'') of
               (Some a, Some b) \<Rightarrow> (js_Number a, js_Number b)
             | _ \<Rightarrow> (Num (maxTokens config), Num (of_int tn)));
          elapsed = js_div (js_sub (Num (of_int tn)) lastRefill) 1000
      in js_min (Num (maxTokens config)) (js_add tokens (js_mul elapsed (Num (refillRate config)))))"

text \<open>Lines 107--116: the answer and the fields written.\<close>
definition fallback_decide ::
  "rate_limit_config \<Rightarrow> int \<Rightarrow> jsnum \<Rightarrow> limit_result \<times> (string \<times> string) list" where
  "fallback_decide config tn newTokens =
     (if js_ge newTokens (Num 1)
      then (\<lparr>l_allowed = True, l_retryAfterMs = RetryAfter (Num 0)\<rparr>,
            [(''tokens'', js_String (js_sub newTokens (Num 1))), (''lastRefill'', int_str tn)])
      else (\<lparr>l_allowed = False, l_retryAfterMs = retry_after (js_sub (Num 1) newTokens) (refillRate config)\<rparr>,
            [(''tokens'', js_String newTokens), (''lastRefill'', int_str tn)]))"

definition checkLimitFallback :: "string \<Rightarrow> rate_limit_config \<Rightarrow> limit_result prog" where
  "checkLimitFallback queueName config =
     await now (\<lambda>tn.
     await (hgetall (rateLimit_key queueName)) (\<lambda>data.
     case fallback_decide config tn (fallback_newTokens config tn data) of
       (result, flds) \<Rightarrow> seqp (hset (rateLimit_key queueName) flds) (Ret result)))"

subsection \<open>\<open>checkLimit\<close> and its Lua script\<close>

text \<open>\<open>tonumber(s)\<close>; \<open>NaN\<close> stands for \<open>nil\<close>, with which the arithmetic below raises an error.\<close>
definition lua_tonumber :: "string \<Rightarrow> jsnum" where
  "lua_tonumber s = (if trim s = [] then NaN else js_Number s)"

text \<open>
  The reply Redis makes of a Lua number: its integer part; the infinity of a zero rate
  becomes the least 64-bit integer.
\<close>
fun lua_reply_int :: "retry_after \<Rightarrow> int" where
  "lua_reply_int (RetryAfter (Num x)) = \<lfloor>x\<rfloor>"
| "lua_reply_int _ = - (2 ^ 63)"

text \<open>Lines 20--51, from the arguments as Redis hands them over.\<close>
definition LUA_SCRIPT :: "string \<Rightarrow> string \<Rightarrow> string \<Rightarrow> script" where
  "LUA_SCRIPT argv1 argv2 argv3 data =
     (case (lua_tonumber argv1, lua_tonumber argv2, lua_tonumber argv3) of
        (Num mx, Num rate, Num tn) \<Rightarrow>
          (let tokens = (case data ''tokens'' of Some s \<Rightarrow> lua_tonumber s | None \<Rightarrow> Num mx);
               lastRefill = (case data ''lastRefill'' of Some s \<Rightarrow> lua_tonumber s | None \<Rightarrow> Num tn)
           in case (tokens, lastRefill) of
                (Num tk, Num lr) \<Rightarrow>
                  (let elapsed = (tn - lr) / 1000; newTokens = min mx (tk + elapsed * rate)
                   in if 1 \<le> newTokens
                      then Some ([1, 0], [(''tokens'', js_String (Num (newTokens - 1))), (''lastRefill'', js_String (Num tn))])
                      else Some ([0, lua_reply_int (retry_after (Num (1 - newTokens)) rate)],
                                 [(''tokens'', js_String (Num newTokens)), (''lastRefill'', js_String (Num tn))]))
              | _ \<Rightarrow> None)
      | _ \<Rightarrow> None)"

text \<open>\<open>result[0] === 1\<close> and \<open>result[1] ?? 0\<close>\<close>
definition read_limit_reply :: "int list \<Rightarrow> limit_result" where
  "read_limit_reply ns =
     \<lparr>l_allowed = (case ns of n # _ \<Rightarrow> n = 1 | [] \<Rightarrow> False),
      l_retryAfterMs = RetryAfter (Num (of_int (case ns of _ # m # _ \<Rightarrow> m | _ \<Rightarrow> 0)))\<rparr>"

definition checkLimit :: "string \<Rightarrow> rate_limit_config \<Rightarrow> limit_result prog" where
  "checkLimit queueName config =
     await now (\<lambda>tn.
     await (redis_eval (rateLimit_key queueName)
              (LUA_SCRIPT (js_String (Num (maxTokens config))) (js_String (Num (refillRate config))) (int_str tn)))
       (\<lambda>result. Ret (read_limit_reply result)))"

subsection \<open>Both are buckets\<close>

text \<open>
  The state of a bucket is its configuration and its Redis hash.  It is well formed when the
  rates are not negative and have few enough decimals, and the hash is absent or holds a
  balance and a time the limiter wrote.
\<close>

type_synonym bucket_state = "rate_limit_config \<times> (string \<Rightarrow> string option)"

definition hash_bucket :: "bucket_state \<Rightarrow> (rat \<times> int) option" where
  "hash_bucket st =
     (case (snd st ''tokens'', snd st ''lastRefill'') of
        (Some a, Some b) \<Rightarrow> (case (js_Number a, js_Number b) of (Num t, Num l) \<Rightarrow> Some (t, \<lfloor>l\<rfloor>) | _ \<Rightarrow> None)
      | _ \<Rightarrow> None)"

definition bucket_hash :: "rat \<Rightarrow> int \<Rightarrow> (string \<Rightarrow> string option) \<Rightarrow> bool" where
  "bucket_hash t l data \<longleftrightarrow> data ''tokens'' = Some (js_String (Num t)) \<and> data ''lastRefill'' = Some (int_str l)"

definition good_config :: "rate_limit_config \<Rightarrow> bool" where
  "good_config c \<longleftrightarrow> 0 \<le> maxTokens c \<and> 0 \<le> refillRate c \<and> places 20 (maxTokens c) \<and> places 17 (refillRate c)"

definition good_bucket :: "bucket_state \<Rightarrow> bool" where
  "good_bucket st \<longleftrightarrow> good_config (fst st) \<and>
     (snd st ''tokens'' = None \<and> snd st ''lastRefill'' = None \<or>
      (\<exists>t l. places 20 t \<and> bucket_hash t l (snd st)))"

definition fallback_check :: "int \<Rightarrow> bucket_state \<Rightarrow> bool \<times> bucket_state" where
  "fallback_check tn st =
     (case fallback_decide (fst st) tn (fallback_newTokens (fst st) tn (snd st)) of
        (result, flds) \<Rightarrow> (l_allowed result, (fst st, snd st ++ map_of flds)))"

definition lua_check :: "int \<Rightarrow> bucket_state \<Rightarrow> bool \<times> bucket_state" where
  "lua_check tn st =
     (case LUA_SCRIPT (js_String (Num (maxTokens (fst st)))) (js_String (Num (refillRate (fst st)))) (int_str tn) (snd st) of
        None \<Rightarrow> (False, st)
      | Some (ns, flds) \<Rightarrow> (l_allowed (read_limit_reply ns), (fst st, snd st ++ map_of flds)))"

lemma places_refill:
  assumes "places 17 r"
  shows "places 20 (of_int i / 1000 * r)"
proof -
  have "of_int i / 1000 * r * 10 ^ 20 = of_int i * (r * 10 ^ 17)" by simp
  also have "\<dots> \<in> \<int>" using assms by (auto simp: places_def)
  finally show ?thesis by (simp add: places_def)
qed

lemma places_level:
  assumes "good_config c" and "\<And>t l. b = Some (t, l) \<Longrightarrow> places 20 t"
  shows "places 20 (level c tn b)"
proof (cases b)
  case (Some x)
  obtain t l where x: "x = (t, l)" by fastforce
  have "places 20 (t + of_int (tn - l) / 1000 * refillRate c)"
    using assms Some x by (intro places_closed(1) places_refill) (simp_all add: good_config_def)
  then show ?thesis using assms(1) Some x by (simp add: level_def good_config_def places_closed(3))
qed (use assms(1) in \<open>simp add: level_def good_config_def\<close>)

lemma hash_bucket_cases:
  assumes "good_bucket (c, data)"
  shows "(data ''tokens'' = None \<and> data ''lastRefill'' = None \<and> hash_bucket (c, data) = None) \<or>
     (\<exists>t l. places 20 t \<and> bucket_hash t l data \<and> hash_bucket (c, data) = Some (t, l))"
  using assms by (auto simp: good_bucket_def hash_bucket_def bucket_hash_def places_decimal)

lemma fallback_newTokens_level:
  assumes "good_bucket (c, data)"
  shows "fallback_newTokens c tn data = Num (level c tn (hash_bucket (c, data)))"
  using hash_bucket_cases [OF assms]
  by (auto simp: fallback_newTokens_def level_def bucket_hash_def places_decimal Let_def)


lemma fallback_check_eq:
  fixes tn :: int
  assumes "good_bucket (c, data)"
  defines "lv \<equiv> level c tn (hash_bucket (c, data))"
  shows "fallback_check tn (c, data) =
     (1 \<le> lv, (c, data(''tokens'' \<mapsto> js_String (Num (if 1 \<le> lv then lv - 1 else lv)), ''lastRefill'' \<mapsto> int_str tn)))"
  by (simp add: fallback_check_def fallback_newTokens_level [OF assms(1)] fallback_decide_def lv_def fun_eq_iff)

lemma trim_js_String: "trim (js_String (Num x)) \<noteq> []"
proof (cases "x < 0")
  case True
  then show ?thesis
    using dec_str_ends [of "- x"] by (simp add: js_String.simps trim_no_space is_space_def)
next
  case False
  then show ?thesis using dec_str_ends [of x] by (simp add: js_String.simps trim_no_space)
qed

lemma lua_tonumber_String [simp]: "is_decimal x \<Longrightarrow> lua_tonumber (js_String (Num x)) = Num x"
  by (simp add: lua_tonumber_def trim_js_String)

text \<open>The script decides and writes what the fallback does.\<close>
lemma LUA_SCRIPT_fallback:
  fixes tn :: int
  assumes "good_bucket (c, data)"
  defines "lv \<equiv> level c tn (hash_bucket (c, data))"
  shows "LUA_SCRIPT (js_String (Num (maxTokens c))) (js_String (Num (refillRate c))) (int_str tn) data =
     Some (if 1 \<le> lv then [1, 0] else [0, lua_reply_int (retry_after (Num (1 - lv)) (refillRate c))],
       snd (fallback_decide c tn (fallback_newTokens c tn data)))"
proof -
  have "good_config c" using assms(1) by (simp add: good_bucket_def)
  then have c: "is_decimal (maxTokens c)" "is_decimal (refillRate c)"
    by (simp_all add: good_config_def places_decimal places_def is_decimalI [of _ 17])
  show ?thesis
    using hash_bucket_cases [OF assms(1)] c
    by (auto simp: LUA_SCRIPT_def fallback_newTokens_level [OF assms(1)] fallback_decide_def lv_def
        level_def bucket_hash_def places_decimal Let_def)
qed

lemma hash_bucketI: "places 20 t \<Longrightarrow> bucket_hash t l data \<Longrightarrow> hash_bucket (c, data) = Some (t, l)"
  by (simp add: hash_bucket_def bucket_hash_def places_decimal)

lemma good_bucketI:
  "good_config c \<Longrightarrow> places 20 t \<Longrightarrow> bucket_hash t l data \<Longrightarrow> good_bucket (c, data)"
  by (auto simp: good_bucket_def)

lemma fallback_check_bucket:
  fixes tn :: int
  assumes "good_bucket (c, data)"
  defines "lv \<equiv> level c tn (hash_bucket (c, data))"
  shows "good_bucket (snd (fallback_check tn (c, data)))"
    and "hash_bucket (snd (fallback_check tn (c, data))) = Some (if 1 \<le> lv then lv - 1 else lv, tn)"
proof -
  let ?x = "if 1 \<le> lv then lv - 1 else lv"
  have c: "good_config c" using assms(1) by (simp add: good_bucket_def)
  have "places 20 lv"
    unfolding lv_def using hash_bucket_cases [OF assms(1)] by (intro places_level [OF c]) auto
  then have x: "places 20 ?x" by (simp add: places_closed(2))
  show "good_bucket (snd (fallback_check tn (c, data)))"
    unfolding fallback_check_eq [OF assms(1)] snd_conv
    by (rule good_bucketI [OF c x, of tn]) (simp add: lv_def bucket_hash_def)
  show "hash_bucket (snd (fallback_check tn (c, data))) = Some (?x, tn)"
    unfolding fallback_check_eq [OF assms(1)] snd_conv
    by (rule hash_bucketI [OF x]) (simp add: lv_def bucket_hash_def)
qed

lemma lua_check_fallback: "good_bucket st \<Longrightarrow> lua_check tn st = fallback_check tn st"
  by (cases st) (simp add: lua_check_def LUA_SCRIPT_fallback fallback_check_def fallback_newTokens_level
      fallback_decide_def read_limit_reply_def)

interpretation fallback: token_bucket fst good_bucket hash_bucket fallback_check
proof
  fix st :: bucket_state and tn :: int
  obtain c data where st: "st = (c, data)" by fastforce
  show "fst (snd (fallback_check tn st)) = fst st" by (simp add: fallback_check_def split: prod.splits)
  assume g: "good_bucket st"
  show "good_bucket (snd (fallback_check tn st))"
    using fallback_check_bucket(1) g st by simp
  show "fst (fallback_check tn st) = (1 \<le> level (fst st) tn (hash_bucket st))"
    using g st by (simp add: fallback_check_eq)
  show "hash_bucket (snd (fallback_check tn st)) =
      Some (level (fst st) tn (hash_bucket st) - (if fst (fallback_check tn st) then 1 else 0), tn)"
    using fallback_check_bucket(2) [of c data tn] fallback_check_eq [of c data tn] g st by simp
  show "0 \<le> refillRate (fst st) \<and> 0 \<le> maxTokens (fst st)"
    using g by (simp add: good_bucket_def good_config_def)
qed

interpretation lua: token_bucket fst good_bucket hash_bucket lua_check
proof
  fix st :: bucket_state and tn :: int
  show "fst (snd (lua_check tn st)) = fst st"
    by (simp add: lua_check_def split: prod.splits option.splits)
  assume g: "good_bucket st"
  then show "good_bucket (snd (lua_check tn st))"
    "fst (lua_check tn st) = (1 \<le> level (fst st) tn (hash_bucket st))"
    "hash_bucket (snd (lua_check tn st)) =
      Some (level (fst st) tn (hash_bucket st) - (if fst (lua_check tn st) then 1 else 0), tn)"
    using fallback.check_ok fallback.check_allowed fallback.check_bucket
    by (simp_all add: lua_check_fallback)
  show "0 \<le> refillRate (fst st) \<and> 0 \<le> maxTokens (fst st)"
    using g by (rule fallback.rates_nonneg)
qed

subsection \<open>On the services\<close>

lemma vwp_checkLimitFallback [vwp_rules]:
  "vwp I (checkLimitFallback q c) Q v \<longleftrightarrow> I v \<and>
     (\<forall>t. s_clock v \<le> t \<longrightarrow> I (v\<lparr>s_clock := t\<rparr>) \<and> (\<forall>e. Q (Inl e) (v\<lparr>s_clock := t\<rparr>)) \<and>
        (let (r, flds) = fallback_decide c t (fallback_newTokens c t (s_hashes v (rateLimit_key q)))
         in I (redis_effect (HSET (rateLimit_key q) flds) (v\<lparr>s_clock := t\<rparr>)) \<and>
            Q (Inr r) (redis_effect (HSET (rateLimit_key q) flds) (v\<lparr>s_clock := t\<rparr>))))"
  by (auto simp: checkLimitFallback_def vwp_rules Let_def split: prod.splits)

text \<open>The bucket of a queue in the data.\<close>
definition queue_bucket :: "string \<Rightarrow> rate_limit_config \<Rightarrow> store \<Rightarrow> bucket_state" where
  "queue_bucket q c v = (c, s_hashes v (rateLimit_key q))"

text \<open>A client that asks, waits and asks again, once per waiting time.\<close>
fun limited_calls :: "string \<Rightarrow> rate_limit_config \<Rightarrow> jsnum list \<Rightarrow> bool list prog" where
  "limited_calls q c [] = Ret []"
| "limited_calls q c (w # ws) =
     await (checkLimitFallback q c) (\<lambda>r.
     seqp (sleep w)
     (await (limited_calls q c ws) (\<lambda>bs. Ret (l_allowed r # bs))))"

definition checks_within :: "bucket_state \<Rightarrow> int \<Rightarrow> bool list \<Rightarrow> int \<Rightarrow> bool" where
  "checks_within st a bs b \<longleftrightarrow>
     (\<exists>ts. sorted (a # ts) \<and> last (a # ts) \<le> b \<and> bs = fst (fallback.checks ts st))"

lemma checks_within_Cons:
  assumes "fallback_check t st = (x, st')" and "a \<le> t" and "t \<le> t'" and "checks_within st' t' bs b"
  shows "checks_within st a (x # bs) b"
proof -
  obtain ts where "sorted (t' # ts)" "last (t' # ts) \<le> b" "bs = fst (fallback.checks ts st')"
    using assms(4) by (auto simp: checks_within_def)
  with assms(1-3) show ?thesis
    unfolding checks_within_def by (intro exI [of _ "t # ts"]) (auto split: prod.splits if_splits)
qed

lemma vwp_limited_calls:
  "vwp any_state (limited_calls q c ws)
     (on_ok (\<lambda>bs w. checks_within (queue_bucket q c v) (s_clock v) bs (s_clock w))) v"
proof (induction ws arbitrary: v)
  case Nil
  then show ?case by (auto simp: checks_within_def intro: exI [of _ "[]"])
next
  case (Cons x ws)
  show ?case
    by (simp add: vwp_rules Let_def split: prod.splits, intro allI impI, rule vwp_mono [OF Cons.IH], simp)
      (auto simp: then_post_def queue_bucket_def fallback_check_def split: sum.splits
        intro!: checks_within_Cons [where t = t for t])
qed

text \<open>
  The contract of one check at time \<open>t\<close>: the bucket is refilled for the time passed, at most
  to the capacity; the check grants exactly when a whole token is there, and takes it then;
  the bucket is stamped with \<open>t\<close> and nothing else is written.
\<close>
definition check_contract ::
  "string \<Rightarrow> rate_limit_config \<Rightarrow> int \<Rightarrow> store \<Rightarrow> limit_result \<Rightarrow> store \<Rightarrow> bool" where
  "check_contract q c t v r w \<longleftrightarrow>
     (let lv = level c t (hash_bucket (queue_bucket q c v))
      in (l_allowed r \<longleftrightarrow> 1 \<le> lv) \<and>
         l_retryAfterMs r = (if 1 \<le> lv then RetryAfter (Num 0) else retry_after (Num (1 - lv)) (refillRate c)) \<and>
         good_bucket (queue_bucket q c w) \<and>
         hash_bucket (queue_bucket q c w) = Some (if 1 \<le> lv then lv - 1 else lv, t) \<and>
         w = v\<lparr>s_clock := t, s_hashes := (s_hashes v)(rateLimit_key q := s_hashes w (rateLimit_key q))\<rparr>)"

lemma check_contractI:
  assumes "good_bucket (queue_bucket q c v)"
    and "fallback_decide c t (fallback_newTokens c t (s_hashes v (rateLimit_key q))) = (r, flds)"
  shows "check_contract q c t v r
    (v\<lparr>s_clock := t, s_hashes := (s_hashes v)(rateLimit_key q := s_hashes v (rateLimit_key q) ++ map_of flds)\<rparr>)"
proof -
  let ?h = "s_hashes v (rateLimit_key q)"
  have g: "good_bucket (c, ?h)" using assms(1) by (simp add: queue_bucket_def)
  have "snd (fallback_check t (c, ?h)) = (c, ?h ++ map_of flds)"
    using assms(2) by (simp add: fallback_check_def)
  then have "good_bucket (c, ?h ++ map_of flds)"
    "hash_bucket (c, ?h ++ map_of flds) =
       Some (let lv = level c t (hash_bucket (c, ?h)) in if 1 \<le> lv then lv - 1 else lv, t)"
    using fallback_check_bucket [OF g, of t] by (simp_all add: Let_def)
  moreover have "l_allowed r = (1 \<le> level c t (hash_bucket (c, ?h)))"
    "l_retryAfterMs r = (let lv = level c t (hash_bucket (c, ?h))
       in if 1 \<le> lv then RetryAfter (Num 0) else retry_after (Num (1 - lv)) (refillRate c))"
    using assms(2) by (auto simp: fallback_decide_def fallback_newTokens_level [OF g] Let_def split: if_splits)
  ultimately show ?thesis by (simp add: check_contract_def queue_bucket_def Let_def)
qed

lemma vwp_check_contract:
  assumes "good_bucket (queue_bucket q c v)"
  shows "vwp any_state (checkLimitFallback q c) (on_ok (\<lambda>r w. \<exists>t \<ge> s_clock v. check_contract q c t v r w)) v"
  using check_contractI [OF assms] by (fastforce simp: vwp_checkLimitFallback)

subsection \<open>Properties\<close>

text \<open>A check on a bucket the limiter wrote (or on none) keeps the contract of a token bucket
  at a time read during the call: it refills the bucket for the time passed, at most to the
  capacity, grants exactly when a whole token is there, takes it then, and reports otherwise how
  long the deficit takes to flow in.\<close>
theorem checkLimitFallback_correct:
  assumes "backend exec view"
    and "run exec (checkLimitFallback q c) s = (Inr r, s')"
    and "good_bucket (queue_bucket q c (view s))"
  shows "\<exists>t \<ge> s_clock (view s). check_contract q c t (view s) r (view s')"
  using backend.run_ok [OF assms(1,2) vwp_check_contract [OF assms(3)]] .


text \<open>A client that asks one request after the other, waiting in between as long as it likes,
  is granted at most the capacity plus the refill rate times the time the calls took.\<close>
theorem rate_bound:
  assumes "backend exec view"
    and "run exec (limited_calls q c ws) s = (Inr bs, s')"
    and "good_bucket (queue_bucket q c (view s))"
    and "fallback.in_range (s_clock (view s)) (queue_bucket q c (view s))"
  shows "of_nat (length (filter id bs)) \<le>
    maxTokens c + of_int (s_clock (view s') - s_clock (view s)) / 1000 * refillRate c"
proof -
  let ?st = "queue_bucket q c (view s)" and ?a = "s_clock (view s)" and ?b = "s_clock (view s')"
  obtain ts where ts: "sorted (?a # ts)" "last (?a # ts) \<le> ?b" "bs = fst (fallback.checks ts ?st)"
    using backend.run_ok [OF assms(1,2) vwp_limited_calls] by (auto simp: checks_within_def)
  have c: "fst ?st = c" "0 \<le> refillRate c" "0 \<le> maxTokens c"
    using fallback.rates_nonneg [OF assms(3)] by (simp_all add: queue_bucket_def)
  show ?thesis
  proof (cases ts)
    case Nil
    with ts c show ?thesis by simp
  next
    case (Cons t us)
    have "fallback.in_range t ?st"
      using assms(4) ts(1) Cons by (auto simp: fallback.in_range_def split: option.splits)
    from fallback.window_bound [OF assms(3) this, of us] ts(1,3) Cons c(1)
    have "of_nat (length (filter id bs)) \<le> maxTokens c + of_int (last ts - t) / 1000 * refillRate c"
      by (simp add: fallback.granted_def)
    moreover have "of_int (last ts - t) / 1000 * refillRate c \<le> of_int (?b - ?a) / 1000 * refillRate c"
      using ts(1,2) Cons c(2) by (intro mult_right_mono divide_right_mono) auto
    ultimately show ?thesis by linarith
  qed
qed

text \<open>A caller that is refused and waits the reported time before it asks again, with no
  other request on the bucket in between, is granted (given room for one token and a positive
  rate).\<close>
theorem retryAfter_suffices:
  assumes "backend exec view"
    and "run exec (checkLimitFallback q c) s = (Inr r, s1)" and "\<not> l_allowed r"
    and "good_bucket (queue_bucket q c (view s))" and "1 \<le> maxTokens c" and "0 < refillRate c"
    and "l_retryAfterMs r = RetryAfter (Num ms)"
    and "queue_bucket q c (view s2) = queue_bucket q c (view s1)"
    and "of_int (s_clock (view s1)) + ms \<le> of_int (s_clock (view s2))"
    and "run exec (checkLimitFallback q c) s2 = (Inr r', s3)"
  shows "l_allowed r'"
proof -
  obtain t where t: "check_contract q c t (view s) r (view s1)"
    using backend.run_ok [OF assms(1,2) vwp_check_contract [OF assms(4)]] by blast
  let ?lv = "level c t (hash_bucket (queue_bucket q c (view s)))"
  have lv: "?lv < 1" and ms: "ms = of_int \<lceil>(1 - ?lv) / refillRate c * 1000\<rceil>"
    using t assms(3,6,7) by (auto simp: check_contract_def Let_def retry_after_def)
  have b: "good_bucket (queue_bucket q c (view s1))" "hash_bucket (queue_bucket q c (view s1)) = Some (?lv, t)"
    and clk: "s_clock (view s1) = t"
  proof -
    show "good_bucket (queue_bucket q c (view s1))" "hash_bucket (queue_bucket q c (view s1)) = Some (?lv, t)"
      using t lv by (simp_all add: check_contract_def Let_def)
    have "view s1 = (view s)\<lparr>s_clock := t, s_hashes := (s_hashes (view s))(rateLimit_key q := s_hashes (view s1) (rateLimit_key q))\<rparr>"
      using t by (simp add: check_contract_def Let_def)
    then have "s_clock (view s1) = s_clock ((view s)\<lparr>s_clock := t, s_hashes := (s_hashes (view s))(rateLimit_key q := s_hashes (view s1) (rateLimit_key q))\<rparr>)"
      by (rule arg_cong)
    then show "s_clock (view s1) = t" by simp
  qed
  obtain t' where t': "s_clock (view s2) \<le> t'" "check_contract q c t' (view s2) r' (view s3)"
    using backend.run_ok [OF assms(1,10) vwp_check_contract] b(1) assms(8) by auto
  have "(1 - ?lv) / refillRate c * 1000 \<le> of_int (t' - t)"
    using ms assms(9) t'(1) clk by linarith
  then have "1 - ?lv \<le> of_int (t' - t) / 1000 * refillRate c"
    using assms(6) by (simp add: field_simps)
  then have "1 \<le> level c t' (hash_bucket (queue_bucket q c (view s2)))"
    using assms(5,8) b(2) by (simp add: level_def)
  then show ?thesis using t'(2) by (simp add: check_contract_def Let_def)
qed

subsection \<open>Instances\<close>

definition one_per_second :: rate_limit_config where
  "one_per_second = \<lparr>maxTokens = 1, refillRate = 1\<rparr>"

lemma good_one_per_second: "good_bucket (queue_bucket q one_per_second (mem_view (mem_empty t)))"
  by (simp add: good_bucket_def queue_bucket_def good_config_def one_per_second_def mem_empty_def)

lemma is_decimal_01 [simp]: "is_decimal 0" "is_decimal 1"
  using is_decimal_of_int [of 0] is_decimal_of_int [of 1] by simp_all

lemmas limiter_eval = run_eval one_per_second_def checkLimitFallback_def fallback_newTokens_def
  fallback_decide_def retry_after_def

definition check_at :: "mem \<Rightarrow> (err + limit_result) \<times> mem" where
  "check_at m = run (mem_exec no_faults) (checkLimitFallback ''q'' one_per_second) m"

lemma check_at_1: "fst (check_at (mem_empty 5000)) = Inr \<lparr>l_allowed = True, l_retryAfterMs = RetryAfter (Num 0)\<rparr>"
  by (simp add: check_at_def limiter_eval cong: run_congs)

definition mem_spent :: mem where
  "mem_spent = snd (check_at (mem_empty 5000))"

lemma mem_spent_eq: "mem_spent = (mem_empty 5000)\<lparr>m_hashes := (m_hashes (mem_empty 5000))
   (rateLimit_key ''q'' := [(''tokens'', js_String (Num 0)), (''lastRefill'', int_str 5000)])\<rparr>"
  by (simp add: mem_spent_def check_at_def limiter_eval cong: run_congs)

lemma js_Number_5000: "js_Number (js_String (Num 5000)) = Num 5000"
  using js_Number_int_str [of 5000] by simp

lemma check_at_2: "fst (check_at mem_spent) = Inr \<lparr>l_allowed = False, l_retryAfterMs = RetryAfter (Num 1000)\<rparr>"
  by (simp add: mem_spent_eq check_at_def limiter_eval js_Number_5000 cong: run_congs)

lemma spent_again_hash: "m_hashes (snd (check_at mem_spent)) (rateLimit_key ''q'') =
    [(''tokens'', js_String (Num 0)), (''lastRefill'', int_str 5000), (''tokens'', js_String (Num 0)), (''lastRefill'', int_str 5000)]"
  "m_clock (snd (check_at mem_spent)) = 5000"
  by (simp_all add: mem_spent_eq check_at_def limiter_eval js_Number_5000 cong: run_congs)

lemma good_spent: "good_bucket (queue_bucket ''q'' one_per_second (mem_view mem_spent))"
  unfolding queue_bucket_def
  by (rule good_bucketI [where t = 0 and l = 5000])
    (simp_all add: good_config_def one_per_second_def mem_spent_eq bucket_hash_def places_def)

lemma limited_calls_example:
  "fst (run (mem_exec no_faults) (limited_calls ''q'' one_per_second [Num 0, Num 0]) (mem_empty 5000)) = Inr [True, False]"
  by (simp add: limiter_eval js_Number_5000 cong: run_congs)

definition mem_later :: mem where
  "mem_later = (snd (check_at mem_spent))\<lparr>m_clock := 6000\<rparr>"

lemma check_at_3: "fst (check_at mem_later) = Inr \<lparr>l_allowed = True, l_retryAfterMs = RetryAfter (Num 0)\<rparr>"
  by (simp add: mem_later_def mem_spent_eq check_at_def limiter_eval js_Number_5000 cong: run_congs)

theorem checkLimitFallback_correct_witness:
  "\<exists>t \<ge> 5000. check_contract ''q'' one_per_second t (mem_view mem_spent)
     \<lparr>l_allowed = False, l_retryAfterMs = RetryAfter (Num 1000)\<rparr> (mem_view (snd (check_at mem_spent)))"
  using checkLimitFallback_correct [OF mem_backend run_fst [OF check_at_2 [unfolded check_at_def]] good_spent]
  by (simp add: check_at_def) (simp add: mem_spent_eq mem_empty_def)


theorem rate_bound_witness:
  "of_nat (length (filter id [True, False])) \<le> maxTokens one_per_second +
     of_int (s_clock (mem_view (snd (run (mem_exec no_faults) (limited_calls ''q'' one_per_second [Num 0, Num 0]) (mem_empty 5000))))
       - 5000) / 1000 * refillRate one_per_second"
  using rate_bound [OF mem_backend run_fst [OF limited_calls_example] good_one_per_second]
  by (simp add: fallback.in_range_def hash_bucket_def queue_bucket_def mem_empty_def)

lemma one_per_second_sel: "maxTokens one_per_second = 1" "refillRate one_per_second = 1"
  by (simp_all add: one_per_second_def)

theorem retryAfter_suffices_witness:
  "\<exists>r m. run (mem_exec no_faults) (checkLimitFallback ''q'' one_per_second) mem_later = (Inr r, m) \<and> l_allowed r"
proof -
  from run_fst [OF check_at_3 [unfolded check_at_def]]
  obtain r m where rm: "run (mem_exec no_faults) (checkLimitFallback ''q'' one_per_second) mem_later = (Inr r, m)"
    by blast
  have "l_allowed r"
    by (rule retryAfter_suffices [OF mem_backend run_fst [OF check_at_2 [unfolded check_at_def]] _ good_spent
        _ _ _ _ _ rm, where ms = 1000])
      (simp_all add: one_per_second_sel mem_later_def queue_bucket_def check_at_def [symmetric] spent_again_hash)
  with rm show ?thesis by blast
qed

end
