(* ===== verification/Backoff.thy ===== *)
theory Backoff
  imports Nexus_Prelude
begin

text \<open>
  The retry schedule the worker uses for failed jobs and the dashboard for its WebSocket:
  a delay that doubles from a base up to a cap.
\<close>

locale capped_backoff =
  fixes delay :: "nat \<Rightarrow> rat" and base cap :: rat
  assumes delay_0: "delay 0 = base"
    and delay_Suc: "delay (Suc n) = min (2 * delay n) cap"
    and base_pos: "0 < base"
    and base_le_cap: "base \<le> cap"
begin

lemma delay_closed: "delay n = min (base * 2 ^ n) cap"
proof (induction n)
  case 0
  show ?case using base_le_cap by (simp add: delay_0)
next
  case (Suc n)
  have "0 < cap" using base_pos base_le_cap by simp
  then have "min (2 * min x cap) cap = min (2 * x) cap" for x by (auto simp: min_def)
  then show ?case by (simp add: delay_Suc Suc mult.left_commute)
qed

lemma delay_bounds: "base \<le> delay n" "delay n \<le> cap"
proof -
  have "base * 1 \<le> base * 2 ^ n" using base_pos by (intro mult_left_mono) simp_all
  then show "base \<le> delay n" using base_le_cap by (simp add: delay_closed)
  show "delay n \<le> cap" by (simp add: delay_closed)
qed

lemma delay_mono: "m \<le> n \<Longrightarrow> delay m \<le> delay n"
proof -
  assume "m \<le> n"
  then have "base * 2 ^ m \<le> base * 2 ^ n" using base_pos by (intro mult_left_mono power_increasing) simp_all
  then show ?thesis by (simp add: delay_closed min.coboundedI1)
qed

lemma delay_reaches_cap: "cap \<le> base * 2 ^ k \<Longrightarrow> k \<le> n \<Longrightarrow> delay n = cap"
proof -
  assume a: "cap \<le> base * 2 ^ k" "k \<le> n"
  have "delay k = cap" using a(1) by (simp add: delay_closed)
  then show ?thesis using delay_mono [OF a(2)] delay_bounds(2) [of n] by simp
qed

text \<open>The time \<open>n\<close> retries take in all is linear once the cap is reached.\<close>
lemma total_delay_le: "(\<Sum>i<n. delay i) \<le> of_nat n * cap"
proof (induction n)
  case (Suc n)
  then show ?case using delay_bounds(2) [of n] by (simp add: algebra_simps)
qed simp

end

end
