(* ===== verification/Worker.thy ===== *)
theory Worker
  imports Job_Dao Handler_Registry Rate_Limiter Backoff
begin

text \<open>
  \<^verbatim>\<open>worker/src/worker.ts\<close>: pulling a job, running it, and the three ways it can end.

  A worker is its dependencies and its tables (\<open>worker\<close>); \<open>pullIndex\<close> is passed and
  returned.  \<open>processOne\<close> is one job from pull to acknowledgement; the pool of concurrent
  jobs interleaves such programs, so the properties speak of every state on the way.
\<close>

record worker =
  w_queue :: string
  w_workerId :: string
  w_registry :: registry
  w_rateLimits :: "string \<Rightarrow> rate_limit_config option"

definition setRateLimit :: "string \<Rightarrow> rate_limit_config \<Rightarrow> worker \<Rightarrow> worker" where
  "setRateLimit queue config w = w\<lparr>w_rateLimits := (w_rateLimits w)(queue \<mapsto> config)\<rparr>"

subsection \<open>Pulling\<close>

definition getPriorityOrder :: "nat \<Rightarrow> priority list \<times> nat" where
  "getPriorityOrder pullIndex =
     (let idx = pullIndex mod 10
      in (if idx \<le> 5 then [High, Normal, Low]
          else if idx \<le> 8 then [Normal, High, Low]
          else [Low, High, Normal],
          pullIndex + 1))"

text \<open>The list a priority name selects, as written out in both pull functions.\<close>
definition sourceList :: "string \<Rightarrow> priority \<Rightarrow> string" where
  "sourceList queueName p = targetList queueName (priority_str p)"

text \<open>The loop over the priorities: the first list that has a job.\<close>
fun pull_first :: "string \<Rightarrow> string \<Rightarrow> priority list \<Rightarrow> string option prog" where
  "pull_first queueName processingKey [] = Ret None"
| "pull_first queueName processingKey (p # ps) =
     await (rpoplpush (sourceList queueName p) processingKey) (\<lambda>jobId.
       if truthy jobId then Ret jobId else pull_first queueName processingKey ps)"

definition pullJobNonBlocking :: "worker \<Rightarrow> nat \<Rightarrow> (string option \<times> nat) prog" where
  "pullJobNonBlocking w pullIndex =
     (case getPriorityOrder pullIndex of (priorities, pullIndex') \<Rightarrow>
        await (pull_first (w_queue w) (processing_key (w_workerId w)) priorities)
          (\<lambda>jobId. Ret (jobId, pullIndex')))"

definition pullJob :: "worker \<Rightarrow> nat \<Rightarrow> (string option \<times> nat) prog" where
  "pullJob w pullIndex =
     (case getPriorityOrder pullIndex of (priorities, pullIndex') \<Rightarrow>
        await (pull_first (w_queue w) (processing_key (w_workerId w)) priorities)
          (\<lambda>jobId.
            if truthy jobId then Ret (jobId, pullIndex')
            else await (blmove (queue_key (w_queue w)) (processing_key (w_workerId w)) 5)
              (\<lambda>jobId. Ret (jobId, pullIndex'))))"

subsection \<open>Ending a job\<close>

text \<open>\<open>redis.publish(...).catch(() => {})\<close>, with the time stamp of the event.\<close>
definition publish_quietly :: "string \<Rightarrow> string \<Rightarrow> string \<Rightarrow> string \<Rightarrow> (string \<times> json) list \<Rightarrow> unit prog" where
  "publish_quietly ty jobId jobName queueName extra =
     await now (\<lambda>t.
       try_catch (publish events_channel (event_text
         \<lparr>e_type = ty, e_jobId = jobId, e_jobName = jobName, e_queueName = queueName,
          e_timestamp = t, e_extra = extra\<rparr>))
       (\<lambda>_. Ret ()))"

definition complete :: "worker \<Rightarrow> string \<Rightarrow> unit prog" where
  "complete w jobId =
     seqp (markJobCompleted jobId)
     (await now (\<lambda>t.
     seqp (hset (job_key jobId)
       [(''status'', ''completed''), (''completedAt'', to_iso t), (''errorMessage'', '''')])
     (seqp (lrem_cmd (processing_key (w_workerId w)) 1 jobId)
     (await (hgetall (job_key jobId)) (\<lambda>hash.
       publish_quietly ''job.completed'' jobId (nullish (hash ''jobName'') '''')
         (nullish (hash ''queueName'') (w_queue w)) [])))))"

text \<open>\<open>Math.min(1000 * Math.pow(2, attempts - 1), 30000)\<close>\<close>
definition backoff_delay :: "jsnum \<Rightarrow> jsnum" where
  "backoff_delay attempts = js_min (js_mul (Num 1000) (js_pow2 (js_sub attempts (Num 1)))) (Num 30000)"

definition handleFailure :: "worker \<Rightarrow> string \<Rightarrow> string \<Rightarrow> unit prog" where
  "handleFailure w jobId errorMessage =
     await (hgetall (job_key jobId)) (\<lambda>hash.
     let attempts = js_Number (nullish (hash ''attempts'') ''0'');
         maxAttempts = js_Number (nullish (hash ''maxAttempts'') ''3'');
         queueName = nullish (hash ''queueName'') ''default''
     in if js_ge attempts maxAttempts
        then seqp (markJobDlq jobId errorMessage)
          (await now (\<lambda>t.
          seqp (hset (job_key jobId)
            [(''status'', ''dlq''), (''completedAt'', to_iso t), (''errorMessage'', errorMessage)])
          (seqp (lpush (dlq_key queueName) jobId)
          (seqp (lrem_cmd (processing_key (w_workerId w)) 1 jobId)
          (publish_quietly ''job.dlq'' jobId (nullish (hash ''jobName'') '''') queueName
            [(''errorMessage'', JStr errorMessage)])))))
        else let delay = backoff_delay attempts
          in await now (\<lambda>t.
          let dueAt = js_add (Num (of_int t)) delay
          in seqp (markJobDelayed jobId)
          (seqp (hset (job_key jobId)
            [(''status'', ''delayed''), (''startedAt'', ''''), (''completedAt'', ''''), (''errorMessage'', '''')])
          (seqp (zadd (delayed_key queueName) dueAt jobId)
          (lrem_cmd (processing_key (w_workerId w)) 1 jobId)))))"

subsection \<open>Running a job\<close>

text \<open>\<open>setTimeout\<close> fires after 1 ms for a delay that is not finite.\<close>
fun timeout_ms :: "retry_after \<Rightarrow> jsnum" where
  "timeout_ms (RetryAfter ms) = ms"
| "timeout_ms RetryInfinity = Num 1"

text \<open>Lines 286--297: back to its queue and out of the processing list, in one transaction.\<close>
definition push_back :: "worker \<Rightarrow> string \<Rightarrow> string \<Rightarrow> (string \<Rightarrow> string option) \<Rightarrow> retry_after \<Rightarrow> unit prog" where
  "push_back w jobId queueName hash wait =
     seqp (multi_exec
       [LREM (processing_key (w_workerId w)) 1 jobId,
        LPUSH (targetList queueName (nullish (hash ''priority'') ''normal'')) jobId])
     (sleep (timeout_ms wait))"

text \<open>Lines 333--344: the handler, then the acknowledgement; an error of either is a failure.\<close>
definition invoke :: "worker \<Rightarrow> handler_id \<Rightarrow> json \<Rightarrow> handler_ctx \<Rightarrow> unit prog" where
  "invoke w handler payload ctx =
     try_catch
       (seqp (run_handler handler payload ctx) (complete w (c_jobId ctx)))
       (\<lambda>err. handleFailure w (c_jobId ctx) (err_message err))"

text \<open>Lines 301--340: activate the job, find its handler and payload, run it.\<close>
definition execute :: "worker \<Rightarrow> string \<Rightarrow> string \<Rightarrow> string \<Rightarrow> (string \<Rightarrow> string option) \<Rightarrow> unit prog" where
  "execute w jobId jobName queueName hash =
     (let attempt = js_add (js_Number (nullish (hash ''attempts'') ''0'')) (Num 1)
      in seqp (markJobActive jobId)
      (await now (\<lambda>t.
      seqp (hset (job_key jobId)
        [(''status'', ''active''), (''startedAt'', to_iso t), (''attempts'', js_String attempt)])
      (seqp (publish_quietly ''job.started'' jobId jobName queueName [])
      (case get_handler (w_registry w) jobName of
         None \<Rightarrow> handleFailure w jobId
           (''no handler registered for jobName='' @ [CHR 0x22] @ jobName @ [CHR 0x22])
       | Some handler \<Rightarrow>
           (case (if truthy (hash ''payload'') then json_parse (nullish (hash ''payload'') '''')
                  else Some (JObj [])) of
              None \<Rightarrow> handleFailure w jobId ''payload JSON parse error''
            | Some payload \<Rightarrow>
                invoke w handler payload
                  \<lparr>c_jobId = jobId, c_jobName = jobName, c_attempt = attempt, c_workerId = w_workerId w\<rparr>))))))"

definition processOne :: "worker \<Rightarrow> string \<Rightarrow> unit prog" where
  "processOne w jobId =
     await (hgetall (job_key jobId)) (\<lambda>hash.
     if \<not> truthy (hash ''jobName'') then Ret ()
     else
       let jobName = nullish (hash ''jobName'') '''';
           queueName = nullish (hash ''queueName'') (w_queue w)
       in case w_rateLimits w queueName of
            None \<Rightarrow> execute w jobId jobName queueName hash
          | Some rateConfig \<Rightarrow>
              await (checkLimitFallback queueName rateConfig) (\<lambda>result.
                if \<not> l_allowed result
                then push_back w jobId queueName hash (l_retryAfterMs result)
                else execute w jobId jobName queueName hash))"

subsection \<open>Starting, beating, stopping\<close>

definition writeHeartbeat :: "worker \<Rightarrow> nat \<Rightarrow> unit prog" where
  "writeHeartbeat w activeJobs =
     await now (\<lambda>t.
     seqp (setex (heartbeat_key (w_workerId w)) (int_str t) 15)
     (hset (workerMeta_key (w_workerId w)) [(''currentJobs'', int_str (int activeJobs))]))"

text \<open>
  The flags a worker keeps: whether it runs, was asked to stop, has its timer.  \<open>start\<close> and
  \<open>stop\<close> set flags before they await, so an error leaves a changed state: they return the
  state with the error, if there was one.
\<close>
record worker_state =
  ws_running :: bool
  ws_stopRequested :: bool
  ws_heartbeatInterval :: bool

definition start_worker :: "worker \<Rightarrow> worker_state \<Rightarrow> (worker_state \<times> err option) prog" where
  "start_worker w ws =
     (if ws_running ws then Ret (ws, Some (JsError ''worker already started''))
      else let ws1 = ws\<lparr>ws_running := True, ws_stopRequested := False\<rparr>
        in try_catch
          (seqp (sadd workerRegistry_key (w_workerId w))
          (await now (\<lambda>t.
          seqp (setex (heartbeat_key (w_workerId w)) (int_str t) 15)
          (await now (\<lambda>t'.
          seqp (hset (workerMeta_key (w_workerId w))
            [(''status'', ''active''), (''queue'', w_queue w), (''startedAt'', to_iso t'), (''currentJobs'', ''0'')])
          (Ret (ws1\<lparr>ws_heartbeatInterval := True\<rparr>, None)))))))
          (\<lambda>e. Ret (ws1, Some e)))"

text \<open>
  \<open>stop\<close> in its two halves: before and after the jobs in flight and the loop have been
  waited for.
\<close>
definition stop_begin :: "worker \<Rightarrow> worker_state \<Rightarrow> (worker_state \<times> err option) prog" where
  "stop_begin w ws =
     (let ws1 = ws\<lparr>ws_stopRequested := True\<rparr>
      in try_catch
        (seqp (hset (workerMeta_key (w_workerId w)) [(''status'', ''draining'')]) (Ret (ws1, None)))
        (\<lambda>e. Ret (ws1, Some e)))"

definition stop_finish :: "worker \<Rightarrow> worker_state \<Rightarrow> (worker_state \<times> err option) prog" where
  "stop_finish w ws =
     try_catch
       (seqp (srem workerRegistry_key (w_workerId w))
       (seqp (redis_del (heartbeat_key (w_workerId w)))
       (seqp (redis_del (workerMeta_key (w_workerId w)))
       (Ret (ws\<lparr>ws_heartbeatInterval := False, ws_running := False\<rparr>, None)))))
       (\<lambda>e. Ret (ws, Some e))"

lemmas worker_defs = processOne_def execute_def invoke_def push_back_def complete_def handleFailure_def
  publish_quietly_def

subsection \<open>Symbolic execution\<close>

lemma vwp_publish_quietly [vwp_rules]:
  "vwp I (publish_quietly ty i n q x) Q v \<longleftrightarrow> I v \<and> (\<forall>t. s_clock v \<le> t \<longrightarrow>
     I (v\<lparr>s_clock := t\<rparr>) \<and> Q (Inr ()) (v\<lparr>s_clock := t\<rparr>) \<and>
     (\<forall>m. m = event_text \<lparr>e_type = ty, e_jobId = i, e_jobName = n, e_queueName = q, e_timestamp = t, e_extra = x\<rparr> \<longrightarrow>
       I (v\<lparr>s_clock := t, s_published := (events_channel, m) # s_published v\<rparr>) \<and>
       Q (Inr ()) (v\<lparr>s_clock := t, s_published := (events_channel, m) # s_published v\<rparr>)))"
  by (auto simp: publish_quietly_def vwp_rules)

lemma backoff_Suc:
  "backoff_delay (Num (of_nat (Suc n))) = Num (min (1000 * 2 ^ n) 30000)"
  using floor_of_int [of "int n", where 'a = rat] by (simp add: backoff_delay_def)

definition retry_delay :: "nat \<Rightarrow> rat" where
  "retry_delay n = (case backoff_delay (Num (of_nat (Suc n))) of Num x \<Rightarrow> x | NaN \<Rightarrow> 0)"

interpretation retry: capped_backoff retry_delay 1000 30000
  by unfold_locales (auto simp: retry_delay_def backoff_Suc simp del: of_nat_Suc)

text \<open>What a crash may leave: the job where a worker or scheduler finds it, or its handler invoked.\<close>
definition kept_or_run :: "string \<Rightarrow> store \<Rightarrow> store \<Rightarrow> bool" where
  "kept_or_run i v u \<longleftrightarrow> visible u i \<or> (\<exists>h p ctx. c_jobId ctx = i \<and> s_ran u = (h, p, ctx) # s_ran v)"

lemma kept_or_runI: "visible u i \<Longrightarrow> kept_or_run i v u"
  "s_ran u = (h, p, ctx) # s_ran v \<Longrightarrow> c_jobId ctx = i \<Longrightarrow> kept_or_run i v u"
  by (auto simp: kept_or_run_def)

lemma vwp_handleFailure_visible:
  assumes "i \<in> set (s_lists v (processing_key (w_workerId w)))"
  shows "vwp (\<lambda>u. visible u i) (handleFailure w i msg) any_outcome v"
  using assms
  by (auto simp: handleFailure_def vwp_rules Let_def visible_def in_list_def in_zset_def jsnum_not_NaN
      split: if_splits)

lemma vwp_handleFailure_ran:
  "s_ran v = r \<Longrightarrow> vwp (\<lambda>u. s_ran u = r) (handleFailure w i msg) any_outcome v"
  by (simp add: handleFailure_def vwp_rules Let_def)

lemma vwp_complete_ran:
  "s_ran v = r \<Longrightarrow> vwp (\<lambda>u. s_ran u = r) (complete w i) (\<lambda>_ u. s_ran u = r) v"
  by (simp add: complete_def vwp_rules)

lemma vwp_execute_kept:
  assumes "i \<in> set (s_lists u (processing_key (w_workerId w)))" and "s_ran u = s_ran v"
  shows "vwp (kept_or_run i v) (execute w i n q h) any_outcome u"
proof -
  let ?P = "\<lambda>u. i \<in> set (s_lists u (processing_key (w_workerId w))) \<and> s_ran u = s_ran v"
  have keep: "?P u \<Longrightarrow> kept_or_run i v u" for u by (auto intro: kept_or_runI visible_listI)
  have fail: "?P u \<Longrightarrow> vwp (kept_or_run i v) (handleFailure w i msg) any_outcome u" for u msg
    using vwp_handleFailure_visible by (rule vwp_mono) (auto intro: kept_or_runI)
  have run: "vwp (kept_or_run i v) (invoke w hd p ctx) any_outcome u"
    if "?P u" and ctx: "c_jobId ctx = i" for u and hd :: handler_id and p :: json and ctx :: handler_ctx
  proof -
    let ?r = "(hd, p, ctx) # s_ran v"
    have ran: "s_ran u = ?r \<Longrightarrow> kept_or_run i v u" for u using ctx by (auto intro: kept_or_runI)
    have f: "s_ran u = ?r \<Longrightarrow> vwp (kept_or_run i v) (handleFailure w i msg) any_outcome u" for u msg
      using vwp_handleFailure_ran by (rule vwp_mono) (auto intro: ran)
    have "s_ran u = ?r \<Longrightarrow> vwp (kept_or_run i v) (complete w i)
        (catch_post (kept_or_run i v) (\<lambda>err. handleFailure w i (err_message err)) any_outcome) u" for u
      using vwp_complete_ran by (rule vwp_mono) (auto intro: ran f simp: catch_post_def split: sum.splits)
    then show ?thesis
      using that(1) keep ran f by (simp add: invoke_def vwp_run_handler ctx)
  qed
  show ?thesis
    using assms keep
    by (auto simp: execute_def vwp_rules Let_def intro!: fail run split: option.splits)
qed

lemma vwp_processOne_kept:
  assumes "i \<in> set (s_lists v (processing_key (w_workerId w)))"
  shows "vwp (kept_or_run i v) (processOne w i) any_outcome v"
proof -
  have keep: "i \<in> set (s_lists u (processing_key (w_workerId w))) \<Longrightarrow> kept_or_run i v u" for u
    by (auto intro: kept_or_runI visible_listI)
  have "vwp (kept_or_run i v) (push_back w i q h d) any_outcome u"
    if "i \<in> set (s_lists u (processing_key (w_workerId w)))" for u q h d
    using that keep by (auto simp: push_back_def vwp_rules intro!: kept_or_runI(1) intro: visible_listI [of _ _ "targetList q p" for q p])
  with assms keep show ?thesis
    by (auto simp: processOne_def vwp_rules Let_def intro!: vwp_execute_kept split: option.splits prod.splits)
qed

text \<open>The effect of each ending on the data.\<close>

definition spec_completed :: "worker \<Rightarrow> string \<Rightarrow> int \<Rightarrow> int \<Rightarrow> store \<Rightarrow> store" where
  "spec_completed w i t t' v =
     (let p = processing_key (w_workerId w)
      in (upd_row i (row_completed t) v)
        \<lparr>s_hashes := (s_hashes v)(job_key i := s_hashes v (job_key i) ++
           map_of [(''status'', ''completed''), (''completedAt'', to_iso t'), (''errorMessage'', '''')]),
         s_lists := (s_lists v)(p := remove1 i (s_lists v p))\<rparr>)"

definition spec_dlq :: "worker \<Rightarrow> string \<Rightarrow> string \<Rightarrow> string \<Rightarrow> int \<Rightarrow> int \<Rightarrow> store \<Rightarrow> store" where
  "spec_dlq w i q msg t t' v =
     (let p = processing_key (w_workerId w); d = dlq_key q
      in (upd_row i (row_dlq t msg) v)
        \<lparr>s_hashes := (s_hashes v)(job_key i := s_hashes v (job_key i) ++
           map_of [(''status'', ''dlq''), (''completedAt'', to_iso t'), (''errorMessage'', msg)]),
         s_lists := (s_lists v)(d := i # s_lists v d, p := remove1 i (s_lists v p))\<rparr>)"

definition spec_retry :: "worker \<Rightarrow> string \<Rightarrow> string \<Rightarrow> rat \<Rightarrow> store \<Rightarrow> store" where
  "spec_retry w i q due v =
     (let p = processing_key (w_workerId w); z = delayed_key q
      in (upd_row i (row_waiting Delayed) v)
        \<lparr>s_hashes := (s_hashes v)(job_key i := s_hashes v (job_key i) ++
           map_of [(''status'', ''delayed''), (''startedAt'', ''''), (''completedAt'', ''''), (''errorMessage'', '''')]),
         s_zsets := (s_zsets v)(z := (s_zsets v z)(i \<mapsto> due)),
         s_lists := (s_lists v)(p := remove1 i (s_lists v p))\<rparr>)"

lemma js_add_Num_ne: "js_add (Num x) y \<noteq> NaN \<longleftrightarrow> (\<exists>d. y = Num d)"
  by (cases y) simp_all

text \<open>C13: a \<open>handleFailure\<close> that returns has sent the job to the dead letter list of its queue, with
  the error recorded in both stores, when its attempts are used up, and has otherwise put it in
  the delayed set of its queue, due the back-off delay after a clock reading; either way one entry
  has left the processing list and nothing else changed.\<close>
theorem handleFailure_decides:
  assumes "backend exec view"
    and "run exec (handleFailure w i msg) s = (Inr (), s')"
  defines "h \<equiv> s_hashes (view s) (job_key i)"
  defines "q \<equiv> nullish (h ''queueName'') ''default''"
  defines "attempts \<equiv> js_Number (nullish (h ''attempts'') ''0'')"
  defines "maxAttempts \<equiv> js_Number (nullish (h ''maxAttempts'') ''3'')"
  shows "\<exists>t \<ge> s_clock (view s). 
     if js_ge attempts maxAttempts
     then job_data (view s') = job_data (spec_dlq w i q msg (s_clock (view s)) t (view s))
     else \<exists>d. backoff_delay attempts = Num d \<and>
       job_data (view s') = job_data (spec_retry w i q (of_int t + d) (view s))"
  apply (rule backend.run_ok [OF assms(1,2)])
  unfolding h_def q_def attempts_def maxAttempts_def
  apply (simp add: handleFailure_def vwp_rules Let_def spec_dlq_def spec_retry_def)
  apply (auto simp: job_data_def upd_row_def js_add_Num_ne)
  done

text \<open>A \<open>complete\<close> that returns has marked the job completed in both stores, cleared its error and
  taken one entry out of the processing list, and nothing else.\<close>
theorem complete_effect:
  assumes "backend exec view"
    and "run exec (complete w i) s = (Inr (), s')"
  shows "\<exists>t \<ge> s_clock (view s). job_data (view s') = job_data (spec_completed w i (s_clock (view s)) t (view s))"
  apply (rule backend.run_ok [OF assms(1,2)])
  apply (simp add: complete_def vwp_rules Let_def spec_completed_def)
  apply (auto simp: job_data_def upd_row_def)
  done

definition move_tail :: "string \<Rightarrow> string \<Rightarrow> store \<Rightarrow> store" where
  "move_tail a b v = (let ls = (s_lists v)(a := butlast (s_lists v a))
     in v\<lparr>s_lists := ls(b := last (s_lists v a) # ls b)\<rparr>)"

fun first_nonempty :: "store \<Rightarrow> string list \<Rightarrow> string option" where
  "first_nonempty v [] = None"
| "first_nonempty v (k # ks) = (if s_lists v k \<noteq> [] then Some k else first_nonempty v ks)"

definition pulled :: "store \<Rightarrow> string list \<Rightarrow> string \<Rightarrow> string option \<Rightarrow> store \<Rightarrow> bool" where
  "pulled v ks dest r u \<longleftrightarrow>
     (case first_nonempty v ks of
        None \<Rightarrow> r = None \<and> u = v
      | Some k \<Rightarrow> r = Some (last (s_lists v k)) \<and> u = move_tail k dest v)"

lemma vwp_pull_first:
  assumes "\<And>p. p \<in> set ps \<Longrightarrow> [] \<notin> set (s_lists v (sourceList q p))"
  shows "vwp any_state (pull_first q dest ps) (on_ok (pulled v (map (sourceList q) ps) dest)) v"
  using assms
proof (induction ps)
  case (Cons p ps)
  have "s_lists v (sourceList q p) \<noteq> [] \<Longrightarrow> last (s_lists v (sourceList q p)) \<noteq> []"
    using Cons.prems [of p] last_in_set by fastforce
  with Cons show ?case
    by (auto simp: vwp_rules pulled_def move_tail_def Let_def)
qed (simp add: pulled_def)

lemma in_butlast_last: "xs \<noteq> [] \<Longrightarrow> x \<in> set xs \<longleftrightarrow> x \<in> set (butlast xs) \<or> x = last xs"
  by (induction xs rule: rev_induct) auto

lemma visible_move_tail:
  assumes "s_lists v a \<noteq> []" and "visible v i"
  shows "visible (move_tail a b v) i"
proof (cases "in_list v i")
  case True
  then obtain k where k: "i \<in> set (s_lists v k)" by (auto simp: in_list_def)
  have "i \<in> set (s_lists (move_tail a b v) b) \<or> i \<in> set (s_lists (move_tail a b v) k)"
    using k assms(1) in_butlast_last [of "s_lists v a" i] by (auto simp: move_tail_def Let_def)
  then show ?thesis by (auto intro: visible_listI)
next
  case False
  with assms(2) show ?thesis by (auto simp: visible_def in_zset_def move_tail_def Let_def)
qed

lemma first_nonempty_Some: "first_nonempty v ks = Some k \<Longrightarrow> s_lists v k \<noteq> []"
  by (induction ks) (auto split: if_splits)

text \<open>A non-blocking pull returns the oldest id of the first of the worker's three lists, in
  the order of this pull, that is not empty, having moved it to the head of the worker's
  processing list; it returns none, and changes nothing, exactly when all three are empty.\<close>
theorem pullJobNonBlocking_correct:
  assumes "backend exec view"
    and "run exec (pullJobNonBlocking w n) s = (Inr (r, n'), s')"
    and "\<And>p. [] \<notin> set (s_lists (view s) (sourceList (w_queue w) p))"
  shows "n' = n + 1 \<and>
    pulled (view s) (map (sourceList (w_queue w)) (fst (getPriorityOrder n))) (processing_key (w_workerId w)) r (view s')"
proof -
  let ?P = "pulled (view s) (map (sourceList (w_queue w)) (fst (getPriorityOrder n))) (processing_key (w_workerId w))"
  have "vwp any_state (pull_first (w_queue w) (processing_key (w_workerId w)) (fst (getPriorityOrder n))) (on_ok ?P) (view s)"
    by (rule vwp_pull_first) (rule assms(3))
  then have "vwp any_state (pullJobNonBlocking w n) (on_ok (\<lambda>x u. snd x = n + 1 \<and> ?P (fst x) u)) (view s)"
    unfolding pullJobNonBlocking_def getPriorityOrder_def Let_def prod.case fst_conv vwp_await
    by (rule vwp_mono) (auto simp: then_post_def on_ok_def split: sum.splits)
  from backend.run_ok [OF assms(1,2) this] show ?thesis by simp
qed

lemma vwp_pull_first_visible:
  "visible v i \<Longrightarrow> vwp (\<lambda>u. visible u i) (pull_first q dest ps) (\<lambda>_ u. visible u i) v"
proof (induction ps arbitrary: v)
  case (Cons p ps)
  have "s_lists v (sourceList q p) \<noteq> [] \<Longrightarrow> visible (move_tail (sourceList q p) dest v) i"
    using Cons.prems visible_move_tail by blast
  with Cons show ?case
    by (auto simp: vwp_rules move_tail_def Let_def)
qed simp

text \<open>No state on the way through a pull, blocking or not, hides a job: what was in a list or a
  delayed set before is in one at every moment.\<close>
theorem pull_keeps_jobs:
  assumes "backend exec view" and "visible (view s) i"
    and "t \<in> set (states exec (pullJob w n) s) \<or> t \<in> set (states exec (pullJobNonBlocking w n) s)"
  shows "visible (view t) i"
proof -
  have p: "vwp (\<lambda>u. visible u i) (pull_first q dest ps) (\<lambda>_ u. visible u i) (view s)" for q dest ps
    by (rule vwp_pull_first_visible [OF assms(2)])
  have b: "visible u i \<Longrightarrow> vwp (\<lambda>u. visible u i) (blmove a d 5) any_outcome u" for u a d
    using visible_move_tail [of u a i d] by (auto simp: vwp_rules move_tail_def Let_def)
  have "vwp (\<lambda>u. visible u i) (pullJobNonBlocking w n) any_outcome (view s)"
    unfolding pullJobNonBlocking_def getPriorityOrder_def Let_def prod.case vwp_await
    by (rule vwp_mono [OF p]) (auto simp: then_post_def split: sum.splits)
  moreover have "vwp (\<lambda>u. visible u i) (pullJob w n) any_outcome (view s)"
    unfolding pullJob_def getPriorityOrder_def Let_def prod.case vwp_await
    by (rule vwp_mono [OF p])
      (auto simp: then_post_def split: sum.splits intro!: vwp_mono [OF b])
  ultimately show ?thesis using assms(3) backend.crash_ok [OF assms(1)] by metis
qed

text \<open>Every pull tries each of the three priorities exactly once, and any ten consecutive pulls
  try \<open>high\<close> first six times, \<open>normal\<close> three times and \<open>low\<close> once, so no priority
  starves.\<close>
theorem getPriorityOrder_fair:
  "mset (fst (getPriorityOrder n)) = {#High, Normal, Low#} \<and>
   (let firsts = map (\<lambda>k. hd (fst (getPriorityOrder (n + k)))) [0..<10]
    in count_list firsts High = 6 \<and> count_list firsts Normal = 3 \<and> count_list firsts Low = 1)"
proof
  show "mset (fst (getPriorityOrder n)) = {#High, Normal, Low#}"
    by (simp add: getPriorityOrder_def Let_def)
  define r where "r = n mod 10"
  have hd_order: "hd (fst (getPriorityOrder (n + k))) =
      (let x = (r + k) mod 10 in if x \<le> 5 then High else if x \<le> 8 then Normal else Low)" for k
    by (simp add: getPriorityOrder_def Let_def r_def mod_add_left_eq)
  have u: "[0..<10] = [0, 1, 2, 3, 4, 5, 6, 7, 8, 9::nat]" by (simp add: upt_rec)
  have "r < 10" by (simp add: r_def)
  then have "r = 0 \<or> r = 1 \<or> r = 2 \<or> r = 3 \<or> r = 4 \<or> r = 5 \<or> r = 6 \<or> r = 7 \<or> r = 8 \<or> r = 9"
    by arith
  then show "let firsts = map (\<lambda>k. hd (fst (getPriorityOrder (n + k)))) [0..<10]
    in count_list firsts High = 6 \<and> count_list firsts Normal = 3 \<and> count_list firsts Low = 1"
    unfolding hd_order u by (elim disjE) (simp_all add: Let_def)
qed

definition settled :: "string \<Rightarrow> store \<Rightarrow> bool" where
  "settled i u \<longleftrightarrow> (\<exists>row. s_rows u i = Some row \<and>
     s_hashes u (job_key i) ''status'' = Some (status_str (r_status row)) \<and>
     (r_status row = Completed \<or>
      r_status row = Delayed \<and> (\<exists>q. s_zsets u (delayed_key q) i \<noteq> None) \<or>
      r_status row = Dlq \<and> (\<exists>q. i \<in> set (s_lists u (dlq_key q)))))"

definition job_ready :: "worker \<Rightarrow> string \<Rightarrow> store \<Rightarrow> bool" where
  "job_ready w i v \<longleftrightarrow> s_rows v i \<noteq> None \<and> distinct (s_lists v (processing_key (w_workerId w)))"

definition job_left :: "worker \<Rightarrow> string \<Rightarrow> store \<Rightarrow> bool" where
  "job_left w i v \<longleftrightarrow> settled i v \<and> i \<notin> set (s_lists v (processing_key (w_workerId w)))"

lemma vwp_handleFailure_left:
  assumes "job_ready w i v" and "s_ran v = r"
  shows "vwp any_state (handleFailure w i msg) (on_ok (\<lambda>_ u. job_left w i u \<and> s_ran u = r)) v"
  using assms
  by (auto simp: handleFailure_def vwp_rules Let_def job_ready_def job_left_def settled_def js_add_Num_ne)

lemma vwp_complete_left:
  assumes "job_ready w i v" and "s_ran v = r"
  shows "vwp any_state (complete w i)
     (\<lambda>res u. s_ran u = r \<and> job_ready w i u \<and> (res = Inr () \<longrightarrow> job_left w i u)) v"
  using assms
  by (auto simp: complete_def vwp_rules Let_def job_ready_def job_left_def settled_def distinct_remove1)

lemma vwp_invoke_left:
  assumes "job_ready w (c_jobId ctx) v"
  shows "vwp any_state (invoke w hid p ctx)
     (on_ok (\<lambda>_ u. job_left w (c_jobId ctx) u \<and> s_ran u = (hid, p, ctx) # s_ran v)) v"
proof -
  let ?r = "(hid, p, ctx) # s_ran v"
  let ?Q = "on_ok (\<lambda>_ u. job_left w (c_jobId ctx) u \<and> s_ran u = ?r)"
  have r: "job_ready w (c_jobId ctx) (v\<lparr>s_ran := ?r\<rparr>)" using assms by (simp add: job_ready_def)
  have f: "job_ready w (c_jobId ctx) u \<Longrightarrow> s_ran u = ?r \<Longrightarrow>
      vwp any_state (handleFailure w (c_jobId ctx) msg) ?Q u" for u msg
    by (rule vwp_handleFailure_left)
  have "vwp any_state (complete w (c_jobId ctx))
      (catch_post any_state (\<lambda>err. handleFailure w (c_jobId ctx) (err_message err)) ?Q) (v\<lparr>s_ran := ?r\<rparr>)"
    by (rule vwp_mono [OF vwp_complete_left [OF r]])
      (auto simp: catch_post_def intro: f split: sum.splits)
  then show ?thesis using f [OF r] by (simp add: invoke_def vwp_run_handler)
qed

lemma vwp_execute_left:
  assumes "job_ready w i v" and "get_handler (w_registry w) n = Some hid"
    and "(if truthy (h ''payload'') then json_parse (nullish (h ''payload'') '''') else Some (JObj [])) = Some p"
  defines "ctx \<equiv> \<lparr>c_jobId = i, c_jobName = n,
     c_attempt = js_add (js_Number (nullish (h ''attempts'') ''0'')) (Num 1), c_workerId = w_workerId w\<rparr>"
  shows "vwp any_state (execute w i n q h) (on_ok (\<lambda>_ u. job_left w i u \<and> s_ran u = (hid, p, ctx) # s_ran v)) v"
proof -
  have r: "job_ready w i u \<Longrightarrow> s_ran u = s_ran v \<Longrightarrow>
     vwp any_state (invoke w hid p ctx) (on_ok (\<lambda>_ u. job_left w i u \<and> s_ran u = (hid, p, ctx) # s_ran v)) u" for u
    using vwp_invoke_left [of w ctx u hid p] by (simp add: ctx_def)
  have [simp]: "job_ready w i (upd_row i f v\<lparr>s_hashes := hs, s_clock := t\<rparr>)"
      "job_ready w i (upd_row i f v\<lparr>s_hashes := hs, s_clock := t, s_published := x\<rparr>)" for f hs t x
    using assms(1) by (simp_all add: job_ready_def)
  show ?thesis
    unfolding execute_def Let_def assms(2,3)
    by (simp add: vwp_rules ctx_def [symmetric] r)
qed

lemma vwp_processOne_left:
  assumes "job_ready w i v"
    and "s_hashes v (job_key i) = h" and "h ''jobName'' = Some n" and "n \<noteq> []"
    and "get_handler (w_registry w) n = Some hid"
    and "(if truthy (h ''payload'') then json_parse (nullish (h ''payload'') '''') else Some (JObj [])) = Some p"
    and "w_rateLimits w (nullish (h ''queueName'') (w_queue w)) = None"
  shows "vwp any_state (processOne w i) (on_ok (\<lambda>_ u. job_left w i u \<and> s_ran u = (hid, p, \<lparr>c_jobId = i, c_jobName = n,
     c_attempt = js_add (js_Number (nullish (h ''attempts'') ''0'')) (Num 1), c_workerId = w_workerId w\<rparr>) # s_ran v)) v"
  using vwp_execute_left [where h = h, OF assms(1,5,6)] assms(2-4,7) by (simp add: processOne_def vwp_rules Let_def)

text \<open>C12: a call of \<open>processOne\<close> that returns, on a job that has a row, a handler, a readable payload
  and no rate limit, has invoked the handler exactly once, with the parsed payload and the next
  attempt number, and has left the job in one of three consistent ends: completed, waiting in a
  delayed set for its retry, or in a dead letter list; the processing list does not hold it any
  more.\<close>
theorem processOne_settles:
  assumes "backend exec view"
    and "run exec (processOne w i) s = (Inr (), s')"
    and "job_ready w i (view s)"
    and "s_hashes (view s) (job_key i) = h" and "h ''jobName'' = Some n" and "n \<noteq> []"
    and "get_handler (w_registry w) n = Some hid"
    and "(if truthy (h ''payload'') then json_parse (nullish (h ''payload'') '''') else Some (JObj [])) = Some p"
    and "w_rateLimits w (nullish (h ''queueName'') (w_queue w)) = None"
  shows "job_left w i (view s') \<and> s_ran (view s') = (hid, p, \<lparr>c_jobId = i, c_jobName = n,
     c_attempt = js_add (js_Number (nullish (h ''attempts'') ''0'')) (Num 1), c_workerId = w_workerId w\<rparr>) # s_ran (view s)"
  using backend.run_ok [OF assms(1,2) vwp_processOne_left [OF assms(3-9)]] .

text \<open>At every moment of \<open>processOne\<close>, a crash included, a job taken from the processing list is
  in some list or delayed set, or its handler has been invoked: no job is lost before it ran.\<close>
theorem processOne_at_least_once:
  assumes "backend exec view"
    and "i \<in> set (s_lists (view s) (processing_key (w_workerId w)))"
    and "t \<in> set (states exec (processOne w i) s)"
  shows "visible (view t) i \<or> (\<exists>h p ctx. c_jobId ctx = i \<and> s_ran (view t) = (h, p, ctx) # s_ran (view s))"
  using backend.crash_ok [OF assms(1,3) vwp_processOne_kept [OF assms(2)]] by (simp add: kept_or_run_def)

text \<open>A failed job is never lost on its way to the delayed set or the dead letter list: it is in
  some list or delayed set at every moment of \<open>handleFailure\<close>.\<close>
theorem handleFailure_never_loses:
  assumes "backend exec view"
    and "i \<in> set (s_lists (view s) (processing_key (w_workerId w)))"
    and "t \<in> set (states exec (handleFailure w i msg) s)"
  shows "visible (view t) i"
  by (rule backend.crash_ok [OF assms(1,3) vwp_handleFailure_visible [OF assms(2)]])

text \<open>The delay before retry \<open>n\<close> is the exact exponential back-off
  \<open>min (1000 * 2^(n-1)) 30000\<close>: between one and thirty seconds, never shorter than the one
  before, and thirty seconds from the sixth failure on.\<close>
theorem backoff_schedule:
  "backoff_delay (Num (of_nat (Suc n))) = Num (retry_delay n) \<and>
   retry_delay n = min (1000 * 2 ^ n) 30000 \<and> 1000 \<le> retry_delay n \<and> retry_delay n \<le> 30000 \<and>
   retry_delay n \<le> retry_delay (Suc n) \<and> retry_delay (n + 5) = 30000"
  using retry.delay_bounds [of n] retry.delay_mono [of n "Suc n"] retry.delay_closed [of n]
    retry.delay_reaches_cap [of 5 "n + 5"]
  by (simp add: backoff_Suc retry_delay_def del: of_nat_Suc)

definition spec_push_back :: "worker \<Rightarrow> string \<Rightarrow> string \<Rightarrow> store \<Rightarrow> store" where
  "spec_push_back w i k v = (let p = processing_key (w_workerId w)
     in v\<lparr>s_lists := (s_lists v)(p := remove1 i (s_lists v p), k := i # s_lists v k)\<rparr>)"

text \<open>A rate-limited job goes from the processing list to the push end of the list of its
  priority in one step: every state on the way has it in exactly the old or the new place, with
  the rest of the job data unchanged.\<close>
theorem push_back_atomic:
  assumes "backend exec view" and "t \<in> set (states exec (push_back w i q h wait) s)"
  shows "job_data (view t) = job_data (view s) \<or>
    job_data (view t) = job_data (spec_push_back w i (targetList q (nullish (h ''priority'') ''normal'')) (view s))"
  by (rule backend.crash_ok [OF assms])
    (auto simp: push_back_def vwp_rules spec_push_back_def Let_def job_data_def)

text \<open>A job whose hash is gone is skipped without any effect: its id stays in the processing
  list of a worker that is alive.\<close>
theorem processOne_missing_hash:
  assumes "backend exec view" and "\<not> truthy (s_hashes (view s) (job_key i) ''jobName'')"
    and "run exec (processOne w i) s = (r, s')"
  shows "view s' = view s"
  by (rule backend.run_post [OF assms(1,3)]) (simp add: processOne_def vwp_rules assms(2))

text \<open>\<open>start\<close> without an error leaves the worker registered with a heartbeat that expires 15
  seconds after it was written; a second \<open>start\<close> is refused and changes nothing.\<close>
theorem start_worker_correct:
  assumes "backend exec view" and "run exec (start_worker w ws) s = (Inr (ws', e), s')"
  shows "if ws_running ws then e \<noteq> None \<and> ws' = ws \<and> view s' = view s
    else ws_running ws' \<and> (e = None \<longrightarrow> ws_heartbeatInterval ws' \<and> w_workerId w \<in> s_sets (view s') workerRegistry_key \<and>
      (\<exists>t. s_clock (view s) \<le> t \<and> t \<le> s_clock (view s') \<and>
         s_strs (view s') (heartbeat_key (w_workerId w)) = Some (int_str t, t + 15000)))"
proof -
  let ?P = "\<lambda>x u. if ws_running ws then snd x \<noteq> None \<and> fst x = ws \<and> u = view s
    else ws_running (fst x) \<and> (snd x = None \<longrightarrow> ws_heartbeatInterval (fst x) \<and> w_workerId w \<in> s_sets u workerRegistry_key \<and>
      (\<exists>t. s_clock (view s) \<le> t \<and> t \<le> s_clock u \<and>
         s_strs u (heartbeat_key (w_workerId w)) = Some (int_str t, t + 15000)))"
  have "vwp any_state (start_worker w ws) (on_ok ?P) (view s)"
    by (auto simp: start_worker_def vwp_rules Let_def)
  from backend.run_ok [OF assms this] show ?thesis by (simp split: if_splits)
qed

text \<open>A worker that stops leaves the registry and loses its heartbeat and metadata, but whatever
  its processing list holds stays there: those ids are in the list of a worker no janitor
  scans.\<close>
theorem stop_leaves_processing:
  assumes "backend exec view" and "run exec (stop_finish w ws) s = (Inr (ws', None), s')"
  shows "w_workerId w \<notin> s_sets (view s') workerRegistry_key \<and> live_str (view s') (heartbeat_key (w_workerId w)) = None \<and>
    \<not> ws_running ws' \<and>
    s_lists (view s') (processing_key (w_workerId w)) = s_lists (view s) (processing_key (w_workerId w))"
proof -
  let ?P = "\<lambda>x u. snd x = None \<longrightarrow> w_workerId w \<notin> s_sets u workerRegistry_key \<and> live_str u (heartbeat_key (w_workerId w)) = None \<and>
    \<not> ws_running (fst x) \<and>
    s_lists u (processing_key (w_workerId w)) = s_lists (view s) (processing_key (w_workerId w))"
  have "vwp any_state (stop_finish w ws) (on_ok ?P) (view s)"
    by (auto simp: stop_finish_def vwp_rules Let_def live_str_def)
  from backend.run_ok [OF assms this] show ?thesis by simp
qed

subsection \<open>Instances\<close>

definition worker1 :: worker where
  "worker1 = \<lparr>w_queue = ''default'', w_workerId = ''w1'', w_registry = [(''greet'', 7)], w_rateLimits = Map.empty\<rparr>"

text \<open>One job, just pulled by the worker.\<close>
definition mem_pulled :: mem where
  "mem_pulled = (mem_empty 1700000000000)
     \<lparr>m_hashes := (\<lambda>k. if k = job_key ''j'' then [(''jobName'', ''greet''), (''queueName'', ''default''),
        (''payload'', ''null''), (''attempts'', ''0''), (''maxAttempts'', ''3'')] else []),
      m_rows := [(''j'', default_row ''default'' ''greet'' (Some ''null'') Pending)],
      m_lists := (\<lambda>k. if k = processing_key ''w1'' then [''j''] else [])\<rparr>"

lemmas worker_eval = run_eval worker_defs mem_pulled_def worker1_def get_handler_def dao_defs

lemma json_null: "json_parse ''null'' = Some JNull"
  by (simp add: json_parse_def skip_ws_def json_space_def starts_with_def numeral_eq_Suc)

lemma processOne_example:
  "fst (run (mem_exec no_faults) (processOne worker1 ''j'') mem_pulled) = Inr ()"
  by (simp add: worker_eval json_null cong: run_congs)

lemma mem_pulled_simps [simp]:
  "m_lists mem_pulled k = (if k = processing_key ''w1'' then [''j''] else [])"
  "m_rows mem_pulled = [(''j'', default_row ''default'' ''greet'' (Some ''null'') Pending)]"
  "map_of (m_hashes mem_pulled (job_key ''j'')) = [''jobName'' \<mapsto> ''greet'', ''queueName'' \<mapsto> ''default'',
     ''payload'' \<mapsto> ''null'', ''attempts'' \<mapsto> ''0'', ''maxAttempts'' \<mapsto> ''3'']"
  by (simp_all add: mem_pulled_def fun_eq_iff)

lemma worker1_simps [simp]:
  "w_queue worker1 = ''default''" "w_workerId worker1 = ''w1''" "w_registry worker1 = [(''greet'', 7)]"
  "w_rateLimits worker1 = Map.empty"
  by (simp_all add: worker1_def)

theorem processOne_settles_witness:
  "job_left worker1 ''j'' (mem_view (snd (run (mem_exec no_faults) (processOne worker1 ''j'') mem_pulled)))"
  by (rule processOne_settles [OF mem_backend run_fst [OF processOne_example], where h = "map_of (m_hashes mem_pulled (job_key ''j''))" and n = "''greet''" and hid = 7 and p = JNull, THEN conjunct1])
    (simp_all add: job_ready_def get_handler_def json_null)

theorem processOne_at_least_once_witness:
  "let t = mem_view (snd (run (mem_exec no_faults) (processOne worker1 ''j'') mem_pulled))
   in visible t ''j'' \<or> (\<exists>h p ctx. c_jobId ctx = ''j'' \<and> s_ran t = (h, p, ctx) # s_ran (mem_view mem_pulled))"
  using processOne_at_least_once [OF mem_backend _ final_in_states] by (simp add: Let_def)

theorem handleFailure_never_loses_witness:
  "visible (mem_view (snd (run (mem_exec no_faults) (handleFailure worker1 ''j'' ''boom'') mem_pulled))) ''j''"
  using handleFailure_never_loses [OF mem_backend _ final_in_states] by simp

lemma handleFailure_example:
  "fst (run (mem_exec no_faults) (handleFailure worker1 ''j'' ''boom'') mem_pulled) = Inr ()"
  using backoff_Suc [of 0]
  by (simp add: worker_eval backoff_delay_def cong: run_congs)

theorem handleFailure_decides_witness:
  "\<exists>t \<ge> 1700000000000. \<exists>d. backoff_delay (Num 0) = Num d \<and>
     job_data (mem_view (snd (run (mem_exec no_faults) (handleFailure worker1 ''j'' ''boom'') mem_pulled))) =
     job_data (spec_retry worker1 ''j'' ''default'' (of_int t + d) (mem_view mem_pulled))"
  using handleFailure_decides [OF mem_backend run_fst [OF handleFailure_example]]
  by simp (simp add: mem_pulled_def mem_empty_def)

lemma complete_example: "fst (run (mem_exec no_faults) (complete worker1 ''j'') mem_pulled) = Inr ()"
  by (simp add: worker_eval cong: run_congs)

theorem complete_effect_witness:
  "\<exists>t \<ge> s_clock (mem_view mem_pulled).
     job_data (mem_view (snd (run (mem_exec no_faults) (complete worker1 ''j'') mem_pulled))) =
     job_data (spec_completed worker1 ''j'' (s_clock (mem_view mem_pulled)) t (mem_view mem_pulled))"
  by (rule complete_effect [OF mem_backend run_fst [OF complete_example]])

text \<open>Three jobs, in two of the lists of a queue.\<close>
definition mem_queued :: mem where
  "mem_queued = (mem_empty 0)\<lparr>m_lists := (\<lambda>k. if k = queue_key ''default'' then [''b'', ''a'']
     else if k = queuePriority_key ''default'' ''low'' then [''c''] else [])\<rparr>"

lemma pull_example: "fst (run (mem_exec no_faults) (pullJobNonBlocking worker1 0) mem_queued) = Inr (Some ''a'', 1)"
  by (simp add: run_eval mem_queued_def pullJobNonBlocking_def getPriorityOrder_def sourceList_def targetList_def
      queue_key_eq_priority queuePriority_key_inj cong: run_congs)

theorem pullJobNonBlocking_correct_witness:
  "pulled (mem_view mem_queued) (map (sourceList ''default'') [High, Normal, Low]) (processing_key ''w1'') (Some ''a'')
     (mem_view (snd (run (mem_exec no_faults) (pullJobNonBlocking worker1 0) mem_queued)))"
  using pullJobNonBlocking_correct [OF mem_backend run_fst [OF pull_example]]
  by (simp add: getPriorityOrder_def mem_queued_def mem_empty_def)

theorem pull_keeps_jobs_witness:
  "visible (mem_view (snd (run (mem_exec no_faults) (pullJobNonBlocking worker1 0) mem_queued))) ''c''"
  by (rule pull_keeps_jobs [OF mem_backend _ disjI2 [OF final_in_states]])
    (rule visible_listI [of _ _ "queuePriority_key ''default'' ''low''"], simp add: mem_queued_def key_defs)

theorem push_back_atomic_witness:
  "let u = mem_view (snd (run (mem_exec no_faults) (push_back worker1 ''j'' ''default'' Map.empty RetryInfinity) mem_pulled))
   in job_data u = job_data (mem_view mem_pulled) \<or>
      job_data u = job_data (spec_push_back worker1 ''j'' (queue_key ''default'') (mem_view mem_pulled))"
  using push_back_atomic [OF mem_backend final_in_states, of no_faults worker1 "''j''" "''default''" Map.empty RetryInfinity mem_pulled]
  by (simp add: Let_def targetList_def)

theorem processOne_missing_hash_witness:
  "mem_view (snd (run (mem_exec no_faults) (processOne worker1 ''gone'') mem_pulled)) = mem_view mem_pulled"
  by (rule processOne_missing_hash [OF mem_backend _ run_fst [OF refl], where w = worker1 and i = "''gone''"])
    (simp add: mem_pulled_def mem_empty_def)

definition fresh_worker :: worker_state where
  "fresh_worker = \<lparr>ws_running = False, ws_stopRequested = False, ws_heartbeatInterval = False\<rparr>"

lemma start_example:
  "fst (run (mem_exec no_faults) (start_worker worker1 fresh_worker) (mem_empty 1700000000000)) =
     Inr (\<lparr>ws_running = True, ws_stopRequested = False, ws_heartbeatInterval = True\<rparr>, None)"
  by (simp add: run_eval start_worker_def fresh_worker_def cong: run_congs)

theorem start_worker_correct_witness:
  "''w1'' \<in> s_sets (mem_view (snd (run (mem_exec no_faults) (start_worker worker1 fresh_worker) (mem_empty 1700000000000)))) workerRegistry_key"
  using start_worker_correct [OF mem_backend run_fst [OF start_example]] by (simp add: fresh_worker_def)

lemma stop_example:
  "fst (run (mem_exec no_faults) (stop_finish worker1 fresh_worker) mem_pulled) = Inr (fresh_worker, None)"
  by (simp add: run_eval stop_finish_def fresh_worker_def cong: run_congs)

theorem stop_leaves_processing_witness:
  "s_lists (mem_view (snd (run (mem_exec no_faults) (stop_finish worker1 fresh_worker) mem_pulled))) (processing_key ''w1'') = [''j'']"
  using stop_leaves_processing [OF mem_backend run_fst [OF stop_example]] by simp

end
