(* ===== verification/Scheduler.thy ===== *)
theory Scheduler
  imports Producer
begin

text \<open>
  \<^verbatim>\<open>worker/src/scheduler.ts\<close>: one tick of the scheduler, which promotes the delayed jobs that
  are due and fires the cron entries that are due.

  Both loops remove an entry from its sorted set before they act on it, so that of several
  schedulers only one acts; the properties show what a tick does when it completes and what a
  crash between the removal and the action loses.
\<close>

subsection \<open>Delayed jobs\<close>

text \<open>Lines 60--72, the body of the inner loop.\<close>
definition promote_job :: "string \<Rightarrow> string \<Rightarrow> unit prog" where
  "promote_job queue jobId =
     await (zrem (delayed_key queue) jobId) (\<lambda>removed.
     if removed = 0 then Ret ()
     else await (hget (job_key jobId) ''priority'') (\<lambda>prio.
       seqp (lpush (targetList queue (nullish prio ''normal'')) jobId)
       (hset (job_key jobId) [(''status'', ''pending'')])))"

definition promote_queue :: "int \<Rightarrow> string \<Rightarrow> unit prog" where
  "promote_queue tn queue =
     await (zrangebyscore (delayed_key queue) (Some (of_int tn))) (\<lambda>dueJobs.
       forEach dueJobs (promote_job queue))"

definition promoteDelayedJobs :: "unit prog" where
  "promoteDelayedJobs =
     await (smembers queueRegistry_key) (\<lambda>queues.
     await now (\<lambda>tn. forEach queues (promote_queue tn)))"

subsection \<open>Cron entries\<close>

text \<open>
  Lines 119--123: the audit row.  The \<open>max_attempts\<close> column is an integer: Postgres refuses
  the statement for any other number.
\<close>
definition insert_cron_row :: "string \<Rightarrow> string \<Rightarrow> string \<Rightarrow> json \<Rightarrow> jsnum \<Rightarrow> string \<Rightarrow> unit prog" where
  "insert_cron_row i queueName jobName payload maxAttempts prio =
     (case maxAttempts of
        Num x \<Rightarrow>
          if of_int \<lfloor>x\<rfloor> = x
          then pg_query (PgInsert i
            ((default_row queueName jobName (Some (json_stringify payload)) Pending)
               \<lparr>r_max_attempts := \<lfloor>x\<rfloor>, r_priority := Some prio\<rparr>))
          else Throw (JsError ''invalid input syntax for type integer'')
      | NaN \<Rightarrow> Throw (JsError ''invalid input syntax for type integer''))"

text \<open>Lines 101--142: create the job of a cron entry.\<close>
definition enqueue_cron :: "string \<Rightarrow> (string \<Rightarrow> string option) \<Rightarrow> unit prog" where
  "enqueue_cron cronId defRaw =
     (let queueName = nullish (defRaw ''queue'') ''default'';
          jobName = nullish (defRaw ''jobName'') cronId;
          maxAttempts = nullish (defRaw ''maxAttempts'') ''3'';
          prio = nullish (defRaw ''priority'') ''normal''
      in case (if truthy (defRaw ''payload'') then json_parse (nullish (defRaw ''payload'') '''')
               else Some (JObj [])) of
           None \<Rightarrow> Throw (JsError ''Unexpected token in JSON'')
         | Some payload \<Rightarrow>
             await uuidv4 (\<lambda>i.
             await now (\<lambda>t.
             seqp (insert_cron_row i queueName jobName payload (js_Number maxAttempts) prio)
             (multi_exec
                [SADD queueRegistry_key queueName,
                 HSET (job_key i) (new_job_hash i queueName jobName (Some (json_stringify payload)) Pending
                   maxAttempts prio (to_iso t)),
                 LPUSH (targetList queueName prio) i]))))"

text \<open>Lines 84--142, the body of the loop.\<close>
definition fire_cron :: "string \<Rightarrow> unit prog" where
  "fire_cron cronId =
     await (zrem cronSchedule_key cronId) (\<lambda>removed.
     if removed = 0 then Ret ()
     else await (hgetall (cronDef_key cronId)) (\<lambda>defRaw.
       if \<not> truthy (defRaw ''cronExpression'') then Ret ()
       else await (cron_next (nullish (defRaw ''cronExpression'') '''')) (\<lambda>nextMs.
         seqp (zadd cronSchedule_key (Num (of_int nextMs)) cronId)
         (enqueue_cron cronId defRaw))))"

definition fireCronJobs :: "unit prog" where
  "fireCronJobs =
     await now (\<lambda>tn.
     await (zrangebyscore cronSchedule_key (Some (of_int tn))) (\<lambda>dueEntries.
       forEach dueEntries fire_cron))"

definition scheduler_tick :: "unit prog" where
  "scheduler_tick = seqp promoteDelayedJobs fireCronJobs"

lemmas scheduler_defs = scheduler_tick_def promoteDelayedJobs_def promote_queue_def promote_job_def
  fireCronJobs_def fire_cron_def enqueue_cron_def insert_cron_row_def

subsection \<open>What a promotion does\<close>

definition job_list :: "string \<Rightarrow> store \<Rightarrow> string \<Rightarrow> string" where
  "job_list q v i = targetList q (nullish (s_hashes v (job_key i) ''priority'') ''normal'')"

text \<open>Promoting one job whose entry is there.\<close>
definition promoted :: "string \<Rightarrow> string \<Rightarrow> store \<Rightarrow> store" where
  "promoted q i v = (let k = job_list q v i
     in v\<lparr>s_zsets := (s_zsets v)(delayed_key q := (s_zsets v (delayed_key q))(i := None)),
          s_lists := (s_lists v)(k := i # s_lists v k),
          s_hashes := (s_hashes v)(job_key i := (s_hashes v (job_key i))(''status'' \<mapsto> ''pending''))\<rparr>)"

lemma job_list_promoted [simp]: "job_list q (promoted r i v) j = job_list q v j"
  by (simp add: job_list_def promoted_def Let_def)

lemma vwp_promote_job:
  assumes "s_zsets v (delayed_key q) i \<noteq> None" and "Q (Inr ()) (promoted q i v)" and "\<And>e u. Q (Inl e) u"
  shows "vwp any_state (promote_job q i) Q v"
  using assms by (auto simp: promote_job_def vwp_rules promoted_def job_list_def Let_def)

definition promote_pair :: "string \<times> string \<Rightarrow> store \<Rightarrow> store" where
  "promote_pair x = promoted (fst x) (snd x)"

lemma promote_pair_Pair: "promote_pair (q, i) = promoted q i"
  by (simp add: promote_pair_def)

definition due :: "int \<Rightarrow> store \<Rightarrow> string \<Rightarrow> string \<Rightarrow> bool" where
  "due tn v q i \<longleftrightarrow> (\<exists>sc. s_zsets v (delayed_key q) i = Some sc \<and> sc \<le> of_int tn)"

lemma promoted_zset:
  "s_zsets (promoted q i v) (delayed_key r) j =
     (if r = q \<and> j = i then None else s_zsets v (delayed_key r) j)"
  by (simp add: promoted_def Let_def)

lemma due_promoted: "due tn (promoted q i v) r j \<longleftrightarrow> due tn v r j \<and> (r, j) \<noteq> (q, i)"
  by (auto simp: due_def promoted_zset)

lemma due_fold: "due tn (fold promote_pair plan v) r j \<longleftrightarrow> due tn v r j \<and> (r, j) \<notin> set plan"
  by (induction plan arbitrary: v) (auto simp: promote_pair_def due_promoted)

lemma zset_fold:
  "s_zsets (fold promote_pair plan v) (delayed_key r) j =
     (if (r, j) \<in> set plan then None else s_zsets v (delayed_key r) j)"
  by (induction plan arbitrary: v) (auto simp: promote_pair_def promoted_zset)

lemma vwp_promote_all:
  assumes "distinct xs" and "\<forall>i \<in> set xs. s_zsets v (delayed_key q) i \<noteq> None"
  shows "vwp any_state (forEach xs (promote_job q)) (on_ok (\<lambda>_ u. u = fold promote_pair (map (Pair q) xs) v)) v"
  using assms
proof (induction xs arbitrary: v)
  case (Cons x xs)
  have "vwp any_state (forEach xs (promote_job q))
      (on_ok (\<lambda>_ u. u = fold promote_pair (map (Pair q) xs) (promoted q x v))) (promoted q x v)"
    using Cons.prems by (intro Cons.IH) (auto simp: promoted_zset)
  then show ?case
    using Cons.prems by (auto intro!: vwp_promote_job simp: promote_pair_Pair)
qed simp

lemma vwp_promote_queue:
  "vwp any_state (promote_queue tn q) Q v \<longleftrightarrow> (\<forall>e. Q (Inl e) v) \<and>
     (\<forall>xs. due_list v (delayed_key q) (Some (of_int tn)) xs \<longrightarrow> vwp any_state (forEach xs (promote_job q)) Q v)"
  by (simp add: promote_queue_def vwp_rules)

text \<open>The promotions of a tick: the due entries of the queues, each once.\<close>
definition promotion_plan :: "int \<Rightarrow> store \<Rightarrow> string set \<Rightarrow> (string \<times> string) list \<Rightarrow> bool" where
  "promotion_plan tn v qs plan \<longleftrightarrow> distinct plan \<and> set plan = {(q, i). q \<in> qs \<and> due tn v q i}"

lemma vwp_promote_queues:
  assumes "distinct qs"
  shows "vwp any_state (forEach qs (promote_queue tn))
    (on_ok (\<lambda>_ u. \<exists>plan. promotion_plan tn v (set qs) plan \<and> u = fold promote_pair plan v)) v"
  using assms
proof (induction qs arbitrary: v)
  case (Cons q qs)
  let ?Q = "\<lambda>v qs. on_ok (\<lambda>_ u. \<exists>plan. promotion_plan tn v (set qs) plan \<and> u = fold promote_pair plan v)"
  have step: "vwp any_state (forEach xs (promote_job q)) (then_post any_state (\<lambda>_. forEach qs (promote_queue tn)) (?Q v (q # qs))) v"
    if xs: "due_list v (delayed_key q) (Some (of_int tn)) xs" for xs
  proof -
    have d: "distinct xs" "i \<in> set xs \<longleftrightarrow> due tn v q i" for i
      using due_listD [OF xs] by (simp_all add: due_def)
    let ?u = "fold promote_pair (map (Pair q) xs) v"
    have "vwp any_state (forEach qs (promote_queue tn)) (?Q v (q # qs)) ?u"
    proof (rule vwp_mono [OF Cons.IH])
      show "distinct qs" using Cons.prems by simp
      fix r :: "err + unit" and u
      assume "?Q ?u qs r u"
      then show "?Q v (q # qs) r u"
      proof (cases r)
        case (Inr a)
        with \<open>?Q ?u qs r u\<close> obtain plan where p: "promotion_plan tn ?u (set qs) plan" "u = fold promote_pair plan ?u"
          by auto
        have "promotion_plan tn v (set (q # qs)) (map (Pair q) xs @ plan)"
          using p(1) Cons.prems d
          by (auto simp: promotion_plan_def due_fold distinct_map inj_on_def)
        then show ?thesis using p(2) Inr by (auto intro!: exI [of _ "map (Pair q) xs @ plan"])
      qed simp
    qed simp
    moreover have "vwp any_state (forEach xs (promote_job q)) (on_ok (\<lambda>_ u. u = ?u)) v"
      using d by (intro vwp_promote_all) (auto simp: due_def)
    ultimately show ?thesis
      by (elim vwp_mono) (auto simp: then_post_def split: sum.splits)
  qed
  show ?case
    by (simp add: vwp_promote_queue step [simplified])
qed (simp add: promotion_plan_def)

lemma promote_exact:
  assumes "backend exec view"
    and "run exec promoteDelayedJobs s = (Inr (), s')"
  shows "\<exists>t plan. s_clock (view s) \<le> t \<and>
    promotion_plan t (view s) (s_sets (view s) queueRegistry_key) plan \<and>
    view s' = fold promote_pair plan ((view s)\<lparr>s_clock := t\<rparr>)"
proof (rule backend.run_ok [OF assms])
  let ?v = "view s"
  let ?P = "\<lambda>u. \<exists>t plan. s_clock ?v \<le> t \<and> promotion_plan t ?v (s_sets ?v queueRegistry_key) plan \<and>
    u = fold promote_pair plan (?v\<lparr>s_clock := t\<rparr>)"
  have "vwp any_state (forEach qs (promote_queue t)) (on_ok (\<lambda>_. ?P)) (?v\<lparr>s_clock := t\<rparr>)"
    if "distinct qs" "set qs = s_sets ?v queueRegistry_key" "s_clock ?v \<le> t" for qs t
    using vwp_promote_queues [OF that(1)]
    by (rule vwp_mono) (use that in \<open>auto simp: on_ok_def promotion_plan_def due_def split: sum.splits\<close>)
  then show "vwp any_state promoteDelayedJobs (on_ok (\<lambda>_. ?P)) ?v"
    by (simp add: promoteDelayedJobs_def vwp_rules)
qed

text \<open>C17: a promotion that completes has promoted, in some order and each exactly once, the entries of
  the registered queues that were due at its clock reading, and has done nothing else: each left
  the delayed set of its queue for the push end of the list of its priority, with status
  pending.\<close>
theorem promoteDelayedJobs_exact:
  assumes "backend exec view"
    and "run exec promoteDelayedJobs s = (Inr (), s')"
  shows "\<exists>t plan. s_clock (view s) \<le> t \<and>
    promotion_plan t (view s) (s_sets (view s) queueRegistry_key) plan \<and>
    view s' = fold promote_pair plan ((view s)\<lparr>s_clock := t\<rparr>)"
  by (rule promote_exact [OF assms])

lemma promoted_keeps:
  "i \<in> set (s_lists v k) \<Longrightarrow> i \<in> set (s_lists (promoted q j v) k)"
  "s_hashes v (job_key i) ''status'' = Some ''pending'' \<Longrightarrow>
     s_hashes (promoted q j v) (job_key i) ''status'' = Some ''pending''"
  by (auto simp: promoted_def Let_def)

lemma fold_promote_keeps:
  "i \<in> set (s_lists v k) \<Longrightarrow> i \<in> set (s_lists (fold promote_pair plan v) k)"
  "s_hashes v (job_key i) ''status'' = Some ''pending'' \<Longrightarrow>
     s_hashes (fold promote_pair plan v) (job_key i) ''status'' = Some ''pending''"
  by (induction plan arbitrary: v) (simp_all add: promote_pair_def promoted_keeps)

lemma fold_promote_done:
  "(q, i) \<in> set plan \<Longrightarrow> i \<in> set (s_lists (fold promote_pair plan v) (job_list q v i)) \<and>
     s_hashes (fold promote_pair plan v) (job_key i) ''status'' = Some ''pending''"
proof (induction plan arbitrary: v)
  case (Cons x plan)
  show ?case
  proof (cases "x = (q, i)")
    case True
    then show ?thesis
      by (auto simp: promote_pair_Pair promoted_def Let_def intro!: fold_promote_keeps)
  next
    case False
    with Cons.prems Cons.IH [of "promote_pair x v"] show ?thesis
      by (cases x) (auto simp: promote_pair_Pair)
  qed
qed simp

text \<open>Promotion is exact in time and never early: after it no registered queue has an entry
  that was due at its clock reading, every entry due later is untouched, and every job that was
  due is in the list of its priority with status pending.\<close>
theorem promoteDelayedJobs_on_time:
  assumes "backend exec view"
    and "run exec promoteDelayedJobs s = (Inr (), s')"
    and "q \<in> s_sets (view s) queueRegistry_key"
    and "s_zsets (view s) (delayed_key q) i = Some sc"
  shows "\<exists>t \<ge> s_clock (view s).
    if sc \<le> of_int t
    then s_zsets (view s') (delayed_key q) i = None \<and> i \<in> set (s_lists (view s') (job_list q (view s) i)) \<and>
      s_hashes (view s') (job_key i) ''status'' = Some ''pending''
    else s_zsets (view s') (delayed_key q) i = Some sc"
proof -
  obtain t plan where p: "s_clock (view s) \<le> t"
      "promotion_plan t (view s) (s_sets (view s) queueRegistry_key) plan"
      "view s' = fold promote_pair plan ((view s)\<lparr>s_clock := t\<rparr>)"
    using promote_exact [OF assms(1,2)] by blast
  have "(q, i) \<in> set plan \<longleftrightarrow> sc \<le> of_int t"
    using p(2) assms(3,4) by (auto simp: promotion_plan_def due_def)
  then show ?thesis
    using p(1,3) assms(4) fold_promote_done [of q i plan "(view s)\<lparr>s_clock := t\<rparr>"]
    by (intro exI [of _ t]) (auto simp: zset_fold job_list_def)
qed

text \<open>All jobs visible before are visible, except possibly the one in flight.\<close>
definition all_but_one :: "store \<Rightarrow> store \<Rightarrow> bool" where
  "all_but_one v u \<longleftrightarrow> (\<exists>x. \<forall>i. visible v i \<longrightarrow> i = x \<or> visible u i)"

definition differs_at :: "string \<Rightarrow> store \<Rightarrow> store \<Rightarrow> bool" where
  "differs_at x u w \<longleftrightarrow> (\<forall>k. set (s_lists u k) \<subseteq> set (s_lists w k)) \<and>
     (\<forall>k j. j \<noteq> x \<longrightarrow> s_zsets w k j = s_zsets u k j)"

lemma differs_at_visible: "differs_at x u w \<Longrightarrow> visible u i \<Longrightarrow> i \<noteq> x \<Longrightarrow> visible w i"
  unfolding differs_at_def visible_def in_list_def in_zset_def by (metis subsetD)

lemma differs_at_one: "\<forall>i. visible v i \<longrightarrow> visible u i \<Longrightarrow> differs_at x u w \<Longrightarrow> all_but_one v w"
  unfolding all_but_one_def using differs_at_visible by blast

lemma differs_at_all:
  "\<forall>i. visible v i \<longrightarrow> visible u i \<Longrightarrow> differs_at x u w \<Longrightarrow> x \<in> set (s_lists w k) \<Longrightarrow>
     visible v i \<Longrightarrow> visible w i"
  using differs_at_visible visible_listI by (metis (full_types))

lemma vwp_promote_job_keeps:
  assumes a: "\<forall>i. visible v i \<longrightarrow> visible u i"
  shows "vwp (all_but_one v) (promote_job q x) (\<lambda>r w. r = Inr () \<longrightarrow> (\<forall>i. visible v i \<longrightarrow> visible w i)) u"
proof -
  have one: "differs_at x u w \<Longrightarrow> all_but_one v w" for w
    using a by (rule differs_at_one)
  have idem: "(s_zsets u)(delayed_key q := (s_zsets u (delayed_key q))(x := None)) = s_zsets u"
    if "s_zsets u (delayed_key q) x = None"
    using that by (simp add: fun_upd_idem)
  let ?u1 = "u\<lparr>s_zsets := (s_zsets u)(delayed_key q := (s_zsets u (delayed_key q))(x := None))\<rparr>"
  have u1: "all_but_one v ?u1" "all_but_one v u"
    by (auto intro!: one simp: differs_at_def)
  have u2: "all_but_one v (?u1\<lparr>s_lists := (s_lists u)(k := x # s_lists u k)\<rparr>)"
    "all_but_one v (?u1\<lparr>s_lists := (s_lists u)(k := x # s_lists u k), s_hashes := h\<rparr>)" for k h
    by (auto intro!: one simp: differs_at_def)
  have u3: "visible v i \<Longrightarrow> visible (?u1\<lparr>s_lists := (s_lists u)(k := x # s_lists u k), s_hashes := h\<rparr>) i" for i k h
    by (rule differs_at_all [OF a, of x _ k]) (auto simp: differs_at_def)
  show ?thesis
    using a u1 u2 u3 by (simp add: promote_job_def vwp_rules idem)
qed

text \<open>Whatever happens during a promotion, a crash or an error included, at most one job that was
  in a list or a delayed set is in none.\<close>
theorem promoteDelayedJobs_all_but_one:
  assumes "backend exec view" and "t \<in> set (states exec promoteDelayedJobs s)"
  shows "all_but_one (view s) (view t)"
proof (rule backend.crash_ok [OF assms])
  let ?J = "\<lambda>u. \<forall>i. visible (view s) i \<longrightarrow> visible u i"
  have J: "?J u \<Longrightarrow> all_but_one (view s) u" for u by (auto simp: all_but_one_def)
  have inner: "vwp (all_but_one (view s)) (forEach xs (promote_job q)) (\<lambda>r w. r = Inr () \<longrightarrow> ?J w) u" if "?J u" for xs q u
    by (rule vwp_forEach [where J = "\<lambda>_. ?J"])
      (use that J in \<open>auto intro!: vwp_mono [OF vwp_promote_job_keeps [where v = "view s"]] split: sum.splits\<close>)
  have "vwp (all_but_one (view s)) (promote_queue t q) (\<lambda>r w. r = Inr () \<longrightarrow> ?J w) u" if "?J u" for t q u
    using that J by (simp add: promote_queue_def vwp_rules inner)
  then have "vwp (all_but_one (view s)) (forEach qs (promote_queue t)) any_outcome u" if "?J u" for t qs u
    by (intro vwp_forEach [where J = "\<lambda>_. ?J"]) (use that J in \<open>auto elim!: vwp_mono split: sum.splits\<close>)
  moreover have "?J ((view s)\<lparr>s_clock := c\<rparr>)" for c
    by (simp add: visible_cong [of "(view s)\<lparr>s_clock := c\<rparr>" "view s"])
  ultimately show "vwp (all_but_one (view s)) promoteDelayedJobs any_outcome (view s)"
    using J by (simp add: promoteDelayedJobs_def vwp_rules)
qed

subsection \<open>What firing a cron entry does\<close>

definition cron_payload :: "(string \<Rightarrow> string option) \<Rightarrow> json option" where
  "cron_payload d = (if truthy (d ''payload'') then json_parse (nullish (d ''payload'') '''') else Some (JObj []))"

definition cron_row :: "string \<Rightarrow> (string \<Rightarrow> string option) \<Rightarrow> json \<Rightarrow> int \<Rightarrow> int \<Rightarrow> job_row" where
  "cron_row cronId d p n t =
     (default_row (nullish (d ''queue'') ''default'') (nullish (d ''jobName'') cronId) (Some (json_stringify p)) Pending)
       \<lparr>r_max_attempts := n, r_priority := Some (nullish (d ''priority'') ''normal''), r_created_at := t\<rparr>"

definition spec_fired :: "string \<Rightarrow> (string \<Rightarrow> string option) \<Rightarrow> json \<Rightarrow> int \<Rightarrow> string \<Rightarrow> int \<Rightarrow> int \<Rightarrow> store \<Rightarrow> store" where
  "spec_fired cronId d p n i nxt t v =
     (let q = nullish (d ''queue'') ''default''; prio = nullish (d ''priority'') ''normal''; k = targetList q prio
      in v\<lparr>s_zsets := (s_zsets v)(cronSchedule_key := (s_zsets v cronSchedule_key)(cronId \<mapsto> of_int nxt)),
           s_rows := (s_rows v)(i \<mapsto> cron_row cronId d p n t),
           s_sets := (s_sets v)(queueRegistry_key := insert q (s_sets v queueRegistry_key)),
           s_hashes := (s_hashes v)(job_key i := s_hashes v (job_key i) ++
             map_of (new_job_hash i q (nullish (d ''jobName'') cronId) (Some (json_stringify p)) Pending
               (nullish (d ''maxAttempts'') ''3'') prio (to_iso t))),
           s_lists := (s_lists v)(k := i # s_lists v k)\<rparr>)"

text \<open>Firing a due cron entry that returns, with a readable definition, has moved the entry to a
  time in the future and created one job with a fresh id: audit row, hash and queue entry carry the
  definition's name, payload, attempts and priority.\<close>
theorem fire_cron_correct:
  assumes "backend exec view"
    and "run exec (fire_cron cronId) s = (Inr (), s')"
    and "s_zsets (view s) cronSchedule_key cronId \<noteq> None"
    and "s_hashes (view s) (cronDef_key cronId) = d" and "truthy (d ''cronExpression'')"
  shows "\<exists>i nxt t n p. i \<noteq> [] \<and> i \<notin> s_issued (view s) \<and> s_rows (view s) i = None \<and>
    s_clock (view s) < nxt \<and> s_clock (view s) \<le> t \<and>
    cron_payload d = Some p \<and> js_Number (nullish (d ''maxAttempts'') ''3'') = Num (of_int n) \<and>
    job_data (view s') = job_data (spec_fired cronId d p n i nxt t (view s))"
  apply (rule backend.run_ok [OF assms(1,2)])
  using assms(3-5)
  apply (simp add: fire_cron_def enqueue_cron_def insert_cron_row_def vwp_rules Let_def cron_payload_def spec_fired_def cron_row_def
     split: option.splits jsnum.splits)
  apply (auto simp: job_data_def)
  apply (intro exI conjI, assumption, assumption, assumption, assumption, assumption, (rule refl)+)+
  done

text \<open>One delayed job that is due.\<close>
definition mem_due :: mem where
  "mem_due = (mem_empty 5000)\<lparr>m_sets := (\<lambda>k. if k = queueRegistry_key then [''default''] else []),
     m_zsets := (\<lambda>k. if k = delayed_key ''default'' then [(''j'', 1000)] else [])\<rparr>"

definition hget_down :: "call \<Rightarrow> bool" where
  "hget_down c = (case c of Redis (HGET k f) \<Rightarrow> True | _ \<Rightarrow> False)"

text \<open>A promotion of a due job whose \<open>HGET\<close> fails has already removed the job from its delayed
  set and pushes it nowhere: the job is lost to every worker.\<close>
theorem promotion_error_loses_job:
  "visible (mem_view mem_due) ''j'' \<and>
   (\<exists>e m. run (mem_exec hget_down) promoteDelayedJobs mem_due = (Inl e, m) \<and> \<not> visible (mem_view m) ''j'')"
proof
  show "visible (mem_view mem_due) ''j''"
    by (rule visible_zsetI [of _ "delayed_key ''default''" _ 1000]) (simp add: mem_due_def)
  show "\<exists>e m. run (mem_exec hget_down) promoteDelayedJobs mem_due = (Inl e, m) \<and> \<not> visible (mem_view m) ''j''"
    by (simp add: run_eval scheduler_defs mem_due_def hget_down_def visible_def in_list_def in_zset_def cong: run_congs)
qed

definition mem_cron :: mem where
  "mem_cron = (mem_empty 5000)\<lparr>m_zsets := (\<lambda>k. if k = cronSchedule_key then [(''c'', 1000)] else []),
     m_hashes := (\<lambda>k. if k = cronDef_key ''c'' then [(''cronExpression'', ''bad''), (''jobName'', ''report'')] else [])\<rparr>"

definition cron_parser_throws :: "call \<Rightarrow> bool" where
  "cron_parser_throws c = (case c of Host (CronNext x) \<Rightarrow> True | _ \<Rightarrow> False)"

text \<open>A cron entry whose expression does not parse is dropped from the schedule for good, though
  its definition stays.\<close>
theorem cron_error_drops_entry:
  "s_zsets (mem_view mem_cron) cronSchedule_key ''c'' \<noteq> None \<and>
   (\<exists>e m. run (mem_exec cron_parser_throws) fireCronJobs mem_cron = (Inl e, m) \<and>
      s_zsets (mem_view m) cronSchedule_key ''c'' = None \<and> s_hashes (mem_view m) (cronDef_key ''c'') ''jobName'' = Some ''report'')"
  by (simp add: run_eval scheduler_defs mem_cron_def cron_parser_throws_def cong: run_congs)

subsection \<open>Instances\<close>

lemma promote_example: "fst (run (mem_exec no_faults) promoteDelayedJobs mem_due) = Inr ()"
  by (simp add: run_eval scheduler_defs mem_due_def cong: run_congs)

theorem promoteDelayedJobs_exact_witness:
  "\<exists>t plan. 5000 \<le> t \<and> promotion_plan t (mem_view mem_due) {''default''} plan \<and>
    mem_view (snd (run (mem_exec no_faults) promoteDelayedJobs mem_due)) =
      fold promote_pair plan ((mem_view mem_due)\<lparr>s_clock := t\<rparr>)"
  using promoteDelayedJobs_exact [OF mem_backend run_fst [OF promote_example]]
  by (simp add: mem_due_def mem_empty_def)

theorem promoteDelayedJobs_on_time_witness:
  "''j'' \<in> set (s_lists (mem_view (snd (run (mem_exec no_faults) promoteDelayedJobs mem_due))) (queue_key ''default''))"
  using promoteDelayedJobs_on_time [OF mem_backend run_fst [OF promote_example], of "''default''" "''j''" 1000]
  by (auto simp: mem_due_def mem_empty_def job_list_def targetList_def split: if_splits)

theorem promoteDelayedJobs_all_but_one_witness:
  "all_but_one (mem_view mem_due) (mem_view (snd (run (mem_exec hget_down) promoteDelayedJobs mem_due)))"
  by (rule promoteDelayedJobs_all_but_one [OF mem_backend final_in_states])

definition mem_cron_ok :: mem where
  "mem_cron_ok = (mem_empty 5000)\<lparr>m_zsets := (\<lambda>k. if k = cronSchedule_key then [(''c'', 1000)] else []),
     m_hashes := (\<lambda>k. if k = cronDef_key ''c'' then [(''cronExpression'', ''* * * * *''), (''jobName'', ''report'')] else [])\<rparr>"

lemma fire_example: "fst (run (mem_exec no_faults) (fire_cron ''c'') mem_cron_ok) = Inr ()"
  by (simp add: run_eval scheduler_defs mem_cron_ok_def cong: run_congs)

theorem fire_cron_correct_witness:
  "\<exists>i nxt t n p. i \<noteq> [] \<and> 5000 < nxt \<and>
    job_data (mem_view (snd (run (mem_exec no_faults) (fire_cron ''c'') mem_cron_ok))) =
    job_data (spec_fired ''c'' (s_hashes (mem_view mem_cron_ok) (cronDef_key ''c'')) p n i nxt t (mem_view mem_cron_ok))"
proof -
  have "s_clock (mem_view mem_cron_ok) = 5000" "s_zsets (mem_view mem_cron_ok) cronSchedule_key ''c'' \<noteq> None"
    "truthy (s_hashes (mem_view mem_cron_ok) (cronDef_key ''c'') ''cronExpression'')"
    by (simp_all add: mem_cron_ok_def mem_empty_def)
  with fire_cron_correct [OF mem_backend run_fst [OF fire_example] _ refl] show ?thesis by metis
qed

end
