(* ===== verification/Janitor.thy ===== *)
theory Janitor
  imports Job_Dao Mem_Backend
begin

text \<open>
  \<^verbatim>\<open>worker/src/janitor.ts\<close>: one tick of the janitor, which returns the jobs of workers
  without a heartbeat to their queues.
\<close>

text \<open>Lines 64--84, the body of the inner loop.\<close>
definition requeue_orphan :: "string \<Rightarrow> unit prog" where
  "requeue_orphan jobId =
     await (hgetall (job_key jobId)) (\<lambda>hash.
     let queueName = nullish (hash ''queueName'') ''default'';
         prio = nullish (hash ''priority'') ''normal''
     in seqp (lpush (targetList queueName prio) jobId)
       (seqp (hset (job_key jobId) [(''status'', ''pending''), (''startedAt'', ''''), (''completedAt'', '''')])
       (markJobPendingForRetry jobId)))"

text \<open>Lines 55--90, the body of the outer loop.\<close>
definition check_worker :: "string \<Rightarrow> unit prog" where
  "check_worker workerId =
     await (redis_exists (heartbeat_key workerId)) (\<lambda>alive.
     if alive \<noteq> 0 then Ret ()
     else await (lrange_cmd (processing_key workerId) 0 (- 1)) (\<lambda>orphanedJobs.
       seqp (forEach orphanedJobs requeue_orphan)
       (seqp (redis_del (processing_key workerId))
       (seqp (srem workerRegistry_key workerId)
       (redis_del (workerMeta_key workerId))))))"

definition janitor_tick :: "unit prog" where
  "janitor_tick = await (smembers workerRegistry_key) (\<lambda>workerIds. forEach workerIds check_worker)"

lemmas janitor_defs = janitor_tick_def check_worker_def requeue_orphan_def

subsection \<open>What a tick does\<close>

text \<open>
  The keys of a worker hold what the program puts there: nothing else lives under its
  processing, metadata and heartbeat keys.
\<close>
definition worker_keys_ok :: "store \<Rightarrow> bool" where
  "worker_keys_ok v \<longleftrightarrow> (\<forall>w. s_lists v (workerMeta_key w) = [] \<and>
     s_zsets v (workerMeta_key w) = Map.empty \<and> s_zsets v (processing_key w) = Map.empty)"

definition all_visible :: "store \<Rightarrow> store \<Rightarrow> bool" where
  "all_visible v u \<longleftrightarrow> (\<forall>i. visible v i \<longrightarrow> visible u i)"

lemma vwp_requeue_orphan:
  "vwp I (requeue_orphan i) Q v \<longleftrightarrow>
     (let h = s_hashes v (job_key i); k = targetList (nullish (h ''queueName'') ''default'') (nullish (h ''priority'') ''normal'');
          v1 = v\<lparr>s_lists := (s_lists v)(k := i # s_lists v k)\<rparr>;
          v2 = v1\<lparr>s_hashes := (s_hashes v)(job_key i := h ++ map_of [(''status'', ''pending''), (''startedAt'', ''''), (''completedAt'', '''')])\<rparr>;
          v3 = upd_row i (row_waiting Pending) v2
      in I v \<and> I v1 \<and> I v2 \<and> I v3 \<and> (\<forall>e. Q (Inl e) v) \<and> (\<forall>e. Q (Inl e) v1) \<and> (\<forall>e. Q (Inl e) v2) \<and> Q (Inr ()) v3)"
  by (auto simp: requeue_orphan_def vwp_rules Let_def)

text \<open>Where an orphan goes, and what it looks like there.\<close>

definition orphan_list :: "store \<Rightarrow> string \<Rightarrow> string" where
  "orphan_list v i = targetList (nullish (s_hashes v (job_key i) ''queueName'') ''default'')
     (nullish (s_hashes v (job_key i) ''priority'') ''normal'')"

definition requeued :: "string \<Rightarrow> store \<Rightarrow> store" where
  "requeued i v = upd_row i (row_waiting Pending)
     (v\<lparr>s_lists := (s_lists v)(orphan_list v i := i # s_lists v (orphan_list v i)),
        s_hashes := (s_hashes v)(job_key i := s_hashes v (job_key i) ++
          map_of [(''status'', ''pending''), (''startedAt'', ''''), (''completedAt'', '''')])\<rparr>)"

definition reaped :: "string \<Rightarrow> store \<Rightarrow> store" where
  "reaped w v = redis_effect (DEL (workerMeta_key w))
     (redis_effect (SREM workerRegistry_key w) (redis_effect (DEL (processing_key w))
       (fold requeued (s_lists v (processing_key w)) v)))"

lemma vwp_requeue_orphan_eq:
  "vwp any_state (requeue_orphan i) (on_ok P) v \<longleftrightarrow> P () (requeued i v)"
  by (simp add: vwp_requeue_orphan requeued_def orphan_list_def Let_def)

lemma vwp_requeue_all: "vwp any_state (forEach xs requeue_orphan) (on_ok (\<lambda>_ u. u = fold requeued xs v)) v"
proof (induction xs arbitrary: v)
  case (Cons x xs)
  have *: "then_post any_state (\<lambda>_. forEach xs requeue_orphan) (on_ok (\<lambda>_ u. u = fold requeued xs w)) =
      on_ok (\<lambda>_ u. vwp any_state (forEach xs requeue_orphan) (on_ok (\<lambda>_ u. u = fold requeued xs w)) u)" for w
    by (auto simp: fun_eq_iff then_post_def on_ok_def split: sum.splits)
  show ?case by (simp add: * vwp_requeue_orphan_eq Cons.IH)
qed simp

definition alive :: "store \<Rightarrow> string \<Rightarrow> bool" where
  "alive v w = key_exists v (heartbeat_key w)"

definition janitor_step :: "string \<Rightarrow> store \<Rightarrow> store" where
  "janitor_step w v = (if alive v w then v else reaped w v)"

lemma vwp_check_worker: "vwp any_state (check_worker w) (on_ok (\<lambda>_ u. u = janitor_step w v)) v"
proof -
  have "vwp any_state (forEach xs requeue_orphan) (then_post any_state
      (\<lambda>_. seqp (redis_del (processing_key w)) (seqp (srem workerRegistry_key w) (redis_del (workerMeta_key w))))
      (on_ok (\<lambda>_ u. u = redis_effect (DEL (workerMeta_key w))
        (redis_effect (SREM workerRegistry_key w) (redis_effect (DEL (processing_key w)) (fold requeued xs v)))))) v" for xs
    by (rule vwp_mono [OF vwp_requeue_all]) (auto simp: then_post_def vwp_rules split: sum.splits)
  from this [of "s_lists v (processing_key w)"] show ?thesis
    by (simp add: check_worker_def vwp_rules janitor_step_def alive_def reaped_def)
qed

lemma vwp_check_all: "vwp any_state (forEach ws check_worker) (on_ok (\<lambda>_ u. u = fold janitor_step ws v)) v"
proof (induction ws arbitrary: v)
  case (Cons w ws)
  have "vwp any_state (check_worker w) (then_post any_state (\<lambda>_. forEach ws check_worker)
      (on_ok (\<lambda>_ u. u = fold janitor_step ws (janitor_step w v)))) v"
    by (rule vwp_mono [OF vwp_check_worker]) (auto simp: then_post_def Cons.IH split: sum.splits)
  then show ?case by simp
qed simp

lemma janitor_exact:
  assumes "backend exec view" and "run exec janitor_tick s = (Inr (), s')"
  shows "\<exists>ws. distinct ws \<and> set ws = s_sets (view s) workerRegistry_key \<and> view s' = fold janitor_step ws (view s)"
proof (rule backend.run_ok [OF assms])
  show "vwp any_state janitor_tick (on_ok (\<lambda>_ u. \<exists>ws. distinct ws \<and> set ws = s_sets (view s) workerRegistry_key \<and>
      u = fold janitor_step ws (view s))) (view s)"
    by (auto simp: janitor_tick_def vwp_rules intro!: vwp_mono [OF vwp_check_all] split: sum.splits)
      (auto simp: on_ok_def split: sum.splits)
qed

subsection \<open>Frames\<close>

lemma registry_distinct [simp]:
  "workerRegistry_key \<noteq> heartbeat_key w" "heartbeat_key w \<noteq> workerRegistry_key"
  "workerRegistry_key \<noteq> processing_key w" "workerRegistry_key \<noteq> workerMeta_key w"
  by (simp_all add: key_defs)

lemma orphan_list_distinct [simp]:
  "orphan_list v i \<noteq> processing_key w" "orphan_list v i \<noteq> workerMeta_key w" "orphan_list v i \<noteq> heartbeat_key w"
  "processing_key w \<noteq> orphan_list v i" "workerMeta_key w \<noteq> orphan_list v i" "heartbeat_key w \<noteq> orphan_list v i"
  by (simp_all add: orphan_list_def)

lemma requeued_frame [simp]:
  "s_sets (requeued i v) = s_sets v" "s_zsets (requeued i v) = s_zsets v" "s_strs (requeued i v) = s_strs v"
  "s_clock (requeued i v) = s_clock v"
  "s_lists (requeued i v) (processing_key w) = s_lists v (processing_key w)"
  "s_lists (requeued i v) (workerMeta_key w) = s_lists v (workerMeta_key w)"
  "s_lists (requeued i v) (heartbeat_key w) = s_lists v (heartbeat_key w)"
  "s_hashes (requeued i v) (heartbeat_key w) = s_hashes v (heartbeat_key w)"
  "s_rows (requeued i v) j = (if j = i then map_option (row_waiting Pending) (s_rows v j) else s_rows v j)"
  "orphan_list (requeued i v) j = orphan_list v j"
  by (simp_all add: requeued_def orphan_list_def)

lemma fold_requeued_frame [simp]:
  "s_sets (fold requeued xs v) = s_sets v" "s_zsets (fold requeued xs v) = s_zsets v"
  "s_strs (fold requeued xs v) = s_strs v" "s_clock (fold requeued xs v) = s_clock v"
  "s_lists (fold requeued xs v) (processing_key w) = s_lists v (processing_key w)"
  "s_lists (fold requeued xs v) (workerMeta_key w) = s_lists v (workerMeta_key w)"
  "s_lists (fold requeued xs v) (heartbeat_key w) = s_lists v (heartbeat_key w)"
  "s_hashes (fold requeued xs v) (heartbeat_key w) = s_hashes v (heartbeat_key w)"
  "orphan_list (fold requeued xs v) j = orphan_list v j"
  by (induction xs arbitrary: v) simp_all

text \<open>An orphan back in its queue, pending in both stores.\<close>
definition recovered :: "string \<Rightarrow> store \<Rightarrow> bool" where
  "recovered i v \<longleftrightarrow> i \<in> set (s_lists v (orphan_list v i)) \<and>
     s_hashes v (job_key i) ''status'' = Some ''pending'' \<and>
     (\<forall>row. s_rows v i = Some row \<longrightarrow> r_status row = Pending \<and> r_started_at row = None)"

lemma recovered_requeued: "recovered i (requeued i v)"
  by (auto simp: recovered_def) (auto simp: requeued_def row_waiting_def)

lemma recovered_requeued_other: "recovered i v \<Longrightarrow> recovered i (requeued j v)"
  by (cases "j = i")
    (auto simp: recovered_requeued, auto simp: recovered_def, auto simp: requeued_def)

lemma fold_requeued_recovers:
  "recovered i v \<Longrightarrow> recovered i (fold requeued xs v)"
  "i \<in> set xs \<Longrightarrow> recovered i (fold requeued xs v)"
proof -
  show a: "recovered i v \<Longrightarrow> recovered i (fold requeued xs v)" for v xs
    by (induction xs arbitrary: v) (simp_all add: recovered_requeued_other)
  show "i \<in> set xs \<Longrightarrow> recovered i (fold requeued xs v)"
    by (induction xs arbitrary: v) (auto simp: recovered_requeued intro: a)
qed

lemma reaped_facts:
  "w \<notin> s_sets (reaped w v) workerRegistry_key" "s_lists (reaped w v) (processing_key w) = []"
  "x \<noteq> w \<Longrightarrow> x \<in> s_sets (reaped w v) workerRegistry_key \<longleftrightarrow> x \<in> s_sets v workerRegistry_key"
  "x \<noteq> w \<Longrightarrow> s_lists (reaped w v) (processing_key x) = s_lists v (processing_key x)"
  "alive (reaped w v) x = alive v x"
  by (simp_all add: reaped_def) (simp add: alive_def key_exists_def live_str_def cong: option.case_cong)

lemma reaped_recovers:
  "recovered i (fold requeued (s_lists v (processing_key w)) v) \<Longrightarrow> recovered i (reaped w v)"
  by (auto simp: recovered_def reaped_def orphan_list_def)

lemma janitor_step_recovered: "recovered i v \<Longrightarrow> recovered i (janitor_step w v)"
  by (simp add: janitor_step_def reaped_recovers fold_requeued_recovers(1))

lemma fold_step_alive: "alive (fold janitor_step ws v) x = alive v x"
  by (induction ws arbitrary: v) (simp_all add: janitor_step_def reaped_facts)

lemma fold_step_other:
  "x \<notin> set ws \<or> alive v x \<Longrightarrow>
     s_lists (fold janitor_step ws v) (processing_key x) = s_lists v (processing_key x) \<and>
     (x \<in> s_sets (fold janitor_step ws v) workerRegistry_key \<longleftrightarrow> x \<in> s_sets v workerRegistry_key)"
proof (induction ws arbitrary: v)
  case (Cons w ws)
  have "x \<notin> set ws \<or> alive (janitor_step w v) x"
    using Cons.prems by (auto simp: janitor_step_def reaped_facts)
  from Cons.IH [OF this] Cons.prems show ?case
    by (cases "x = w") (auto simp: janitor_step_def reaped_facts)
qed simp

lemma fold_step_dead:
  assumes "distinct ws" and "w \<in> set ws" and "\<not> alive v w"
  shows "w \<notin> s_sets (fold janitor_step ws v) workerRegistry_key \<and>
    s_lists (fold janitor_step ws v) (processing_key w) = [] \<and>
    (\<forall>i \<in> set (s_lists v (processing_key w)). recovered i (fold janitor_step ws v))"
  using assms
proof (induction ws arbitrary: v)
  case (Cons x ws)
  have keep: "recovered i u \<Longrightarrow> recovered i (fold janitor_step ws u)" for i u
    by (induction ws arbitrary: u) (simp_all add: janitor_step_recovered)
  show ?case
  proof (cases "x = w")
    case True
    then have "janitor_step x v = reaped w v" using Cons.prems(3) by (simp add: janitor_step_def)
    then show ?thesis
      using fold_step_other [of w ws "reaped w v"] Cons.prems(1) True
      by (auto simp: reaped_facts intro!: keep reaped_recovers fold_requeued_recovers(2))
  next
    case False
    then have "s_lists (janitor_step x v) (processing_key w) = s_lists v (processing_key w)" "\<not> alive (janitor_step x v) w"
      using Cons.prems(3) by (simp_all add: janitor_step_def reaped_facts)
    with Cons.IH [of "janitor_step x v"] Cons.prems False show ?thesis by simp
  qed
qed simp

text \<open>C18: a tick that completes has returned every job of every registered worker without a heartbeat
  to the list of its queue and priority, pending in both stores, has emptied that worker's
  processing list and deregistered it; a worker with a heartbeat keeps its registration and its
  processing list as they were.\<close>
theorem janitor_recovers:
  assumes "backend exec view" and "run exec janitor_tick s = (Inr (), s')"
    and "w \<in> s_sets (view s) workerRegistry_key"
  shows "if alive (view s) w
    then w \<in> s_sets (view s') workerRegistry_key \<and>
      s_lists (view s') (processing_key w) = s_lists (view s) (processing_key w)
    else w \<notin> s_sets (view s') workerRegistry_key \<and> s_lists (view s') (processing_key w) = [] \<and>
      (\<forall>i \<in> set (s_lists (view s) (processing_key w)). recovered i (view s'))"
proof -
  obtain ws where "distinct ws" "set ws = s_sets (view s) workerRegistry_key" "view s' = fold janitor_step ws (view s)"
    using janitor_exact [OF assms(1,2)] by blast
  then show ?thesis using fold_step_other [of w ws "view s"] fold_step_dead [of ws w "view s"] assms(3) by auto
qed

text \<open>A worker that is not registered is never recovered: whatever is in its processing list is
  still there after the tick.  So are
  the jobs a worker held when its shutdown timed out, since it deregisters itself.\<close>
theorem janitor_ignores_unregistered:
  assumes "backend exec view" and "run exec janitor_tick s = (Inr (), s')"
    and "w \<notin> s_sets (view s) workerRegistry_key"
  shows "s_lists (view s') (processing_key w) = s_lists (view s) (processing_key w)"
  using janitor_exact [OF assms(1,2)] fold_step_other [of w _ "view s"] assms(3) by auto

lemma visible_mono:
  "(\<And>k. set (s_lists u k) \<subseteq> set (s_lists w k)) \<Longrightarrow> s_zsets w = s_zsets u \<Longrightarrow> visible u i \<Longrightarrow> visible w i"
  unfolding visible_def in_list_def in_zset_def by (metis subsetD)

lemma all_visible_mono:
  "all_visible v u \<Longrightarrow> (\<And>k. set (s_lists u k) \<subseteq> set (s_lists w k)) \<Longrightarrow> s_zsets w = s_zsets u \<Longrightarrow> all_visible v w"
  unfolding all_visible_def using visible_mono by blast

definition tick_inv :: "store \<Rightarrow> store \<Rightarrow> bool" where
  "tick_inv v u \<longleftrightarrow> all_visible v u \<and> worker_keys_ok u"

definition orphan_inv :: "store \<Rightarrow> string \<Rightarrow> string list \<Rightarrow> string list \<Rightarrow> store \<Rightarrow> bool" where
  "orphan_inv v w xs ys u \<longleftrightarrow> tick_inv v u \<and> s_lists u (processing_key w) = xs \<and>
     (\<forall>i \<in> set ys. \<exists>q p. i \<in> set (s_lists u (targetList q p)))"

lemma vwp_requeue_orphan_inv:
  assumes "orphan_inv v w xs ys u"
  shows "vwp (all_visible v) (requeue_orphan i) (\<lambda>r w'. r = Inr () \<longrightarrow> orphan_inv v w xs (ys @ [i]) w') u"
proof -
  let ?k = "targetList (nullish (s_hashes u (job_key i) ''queueName'') ''default'') (nullish (s_hashes u (job_key i) ''priority'') ''normal'')"
  have vis: "all_visible v u'" if "s_lists u' = (s_lists u)(?k := i # s_lists u ?k)" "s_zsets u' = s_zsets u" for u'
    by (rule all_visible_mono [of v u]) (use assms that in \<open>auto simp: orphan_inv_def tick_inv_def\<close>)
  have inv: "orphan_inv v w xs (ys @ [i]) u'"
    if "s_lists u' = (s_lists u)(?k := i # s_lists u ?k)" "s_zsets u' = s_zsets u" for u'
  proof -
    have sub: "j \<in> set (s_lists u k) \<Longrightarrow> j \<in> set (s_lists u' k)" for j k using that(1) by auto
    have "\<forall>j \<in> set ys. \<exists>q p. j \<in> set (s_lists u' (targetList q p))"
      using assms sub unfolding orphan_inv_def by meson
    moreover have "i \<in> set (s_lists u' ?k)" using that(1) by simp
    moreover have "worker_keys_ok u'" "s_lists u' (processing_key w) = xs"
      using assms that by (simp_all add: orphan_inv_def tick_inv_def worker_keys_ok_def)
    ultimately show ?thesis using vis [OF that] by (auto simp: orphan_inv_def tick_inv_def)
  qed
  have "all_visible v u" using assms by (simp add: orphan_inv_def tick_inv_def)
  then show ?thesis
    unfolding vwp_requeue_orphan Let_def
    by (intro conjI allI impI) (assumption | (rule vis; simp) | (rule inv; simp) | simp)+
qed

lemma vwp_check_worker_inv:
  assumes "tick_inv v u"
  shows "vwp (all_visible v) (check_worker w) (\<lambda>r u'. r = Inr () \<longrightarrow> tick_inv v u') u"
proof -
  let ?xs = "s_lists u (processing_key w)"
  have vis: "tick_inv v u' \<Longrightarrow> all_visible v u'" for u' by (simp add: tick_inv_def)
  have loop: "vwp (all_visible v) (forEach ?xs requeue_orphan) (\<lambda>r u'. r = Inr () \<longrightarrow> orphan_inv v w ?xs ?xs u') u"
  proof (rule vwp_forEach [where J = "orphan_inv v w ?xs"])
    show "orphan_inv v w ?xs [] u" using assms by (simp add: orphan_inv_def)
    show "orphan_inv v w ?xs ?xs u' \<Longrightarrow> all_visible v u' \<and> (Inr () = Inr () \<longrightarrow> orphan_inv v w ?xs ?xs u')" for u'
      by (simp add: orphan_inv_def tick_inv_def)
    show "vwp (all_visible v) (requeue_orphan x)
        (\<lambda>r u'. case r of Inl e \<Rightarrow> Inl e = Inr () \<longrightarrow> orphan_inv v w ?xs ?xs u' | Inr _ \<Rightarrow> orphan_inv v w ?xs (ys @ [x]) u') u'"
      if "orphan_inv v w ?xs ys u'" for ys x u'
      by (rule vwp_mono [OF vwp_requeue_orphan_inv [OF that]]) (auto split: sum.splits)
  qed
  have del: "tick_inv v (redis_effect (DEL (processing_key w)) u')" if oi: "orphan_inv v w ?xs ?xs u'" for u'
  proof -
    have z: "s_zsets u' (processing_key w) = Map.empty" using oi by (simp add: orphan_inv_def tick_inv_def worker_keys_ok_def)
    have "visible u' i \<Longrightarrow> visible (redis_effect (DEL (processing_key w)) u') i" for i
    proof -
      assume "visible u' i"
      then consider k where "i \<in> set (s_lists u' k)" "k \<noteq> processing_key w" | "i \<in> set ?xs" | "in_zset u' i"
        using oi unfolding visible_def in_list_def orphan_inv_def by metis
      then show ?thesis
      proof cases
        case 2
        then obtain q p where "i \<in> set (s_lists u' (targetList q p))" using oi by (auto simp: orphan_inv_def)
        then show ?thesis by (intro visible_listI [of _ _ "targetList q p"]) simp
      qed (use z in \<open>auto simp: visible_def in_list_def in_zset_def fun_upd_idem\<close>)
    qed
    then show ?thesis
      using oi z by (auto simp: tick_inv_def all_visible_def orphan_inv_def worker_keys_ok_def)
  qed
  have meta: "tick_inv v (redis_effect (DEL (workerMeta_key w)) u')" if "tick_inv v u'" for u'
  proof -
    have "s_lists u' (workerMeta_key w) = []" "s_zsets u' (workerMeta_key w) = Map.empty"
      using that by (simp_all add: tick_inv_def worker_keys_ok_def)
    then have e: "s_lists (redis_effect (DEL (workerMeta_key w)) u') = s_lists u'"
        "s_zsets (redis_effect (DEL (workerMeta_key w)) u') = s_zsets u'"
      by (simp_all add: fun_upd_idem)
    show ?thesis using that unfolding tick_inv_def all_visible_def worker_keys_ok_def visible_cong [OF e] e .
  qed
  have srem: "tick_inv v u' \<Longrightarrow> tick_inv v (redis_effect (SREM k x) u')" for u' k x
    using visible_cong [of "redis_effect (SREM k x) u'" u'] by (simp add: tick_inv_def all_visible_def worker_keys_ok_def)
  have fin: "vwp (all_visible v) (seqp (redis_del (processing_key w)) (seqp (srem workerRegistry_key w) (redis_del (workerMeta_key w))))
      (\<lambda>r u'. r = Inr () \<longrightarrow> tick_inv v u') u'" if oi: "orphan_inv v w ?xs ?xs u'" for u'
    using del [OF oi] srem meta oi vis
    by (simp add: vwp_rules orphan_inv_def del: redis_effect.simps)
  show ?thesis
    using assms vis
    by (simp add: check_worker_def vwp_rules, intro impI vwp_mono [OF loop])
      (auto simp: then_post_def intro: fin [simplified] split: sum.splits)
qed

text \<open>Whatever happens during a tick, a crash or an error included, every job that was in a list or
  a delayed set before is in one.\<close>
theorem janitor_never_loses:
  assumes "backend exec view" and "t \<in> set (states exec janitor_tick s)"
    and "worker_keys_ok (view s)" and "visible (view s) i"
  shows "visible (view t) i"
proof -
  have 0: "tick_inv (view s) (view s)" using assms(3) by (simp add: tick_inv_def all_visible_def)
  have "vwp (all_visible (view s)) (forEach ws check_worker) any_outcome (view s)" for ws
    by (rule vwp_forEach [where J = "\<lambda>_. tick_inv (view s)"])
      (use 0 in \<open>auto simp: tick_inv_def intro!: vwp_mono [OF vwp_check_worker_inv [where v = "view s"]] split: sum.splits\<close>)
  then have "all_visible (view s) (view t)"
    by - (rule backend.crash_ok [OF assms(1,2)], use 0 in \<open>simp add: janitor_tick_def vwp_rules tick_inv_def\<close>)
  with assms(4) show ?thesis by (simp add: all_visible_def)
qed

subsection \<open>Instances\<close>

text \<open>A registered worker without a heartbeat that holds a job, and an unregistered one.\<close>
definition mem_orphan :: mem where
  "mem_orphan = (mem_empty 0)\<lparr>m_sets := (\<lambda>k. if k = workerRegistry_key then [''dead''] else []),
     m_lists := (\<lambda>k. if k = processing_key ''dead'' then [''j''] else if k = processing_key ''stopped'' then [''x''] else [])\<rparr>"

lemma mem_orphan_simps:
  "s_sets (mem_view mem_orphan) workerRegistry_key = {''dead''}"
  "s_lists (mem_view mem_orphan) (processing_key w) = (if w = ''dead'' then [''j''] else if w = ''stopped'' then [''x''] else [])"
  "\<not> alive (mem_view mem_orphan) w"
  by (simp_all add: mem_orphan_def mem_empty_def alive_def key_exists_def live_str_def)

lemma janitor_example: "fst (run (mem_exec no_faults) janitor_tick mem_orphan) = Inr ()"
  by (simp add: run_eval janitor_defs dao_defs mem_orphan_def cong: run_congs)

theorem janitor_recovers_witness:
  "recovered ''j'' (mem_view (snd (run (mem_exec no_faults) janitor_tick mem_orphan)))"
  using janitor_recovers [OF mem_backend run_fst [OF janitor_example], of "''dead''"]
  by (simp add: mem_orphan_simps del: mem_view_simps)

theorem janitor_ignores_unregistered_witness:
  "s_lists (mem_view (snd (run (mem_exec no_faults) janitor_tick mem_orphan))) (processing_key ''stopped'') = [''x'']"
  using janitor_ignores_unregistered [OF mem_backend run_fst [OF janitor_example], of "''stopped''"]
  by (simp add: mem_orphan_simps del: mem_view_simps)

theorem janitor_never_loses_witness:
  "visible (mem_view (snd (run (mem_exec (\<lambda>c. c = Redis (DEL (processing_key ''dead'')))) janitor_tick mem_orphan))) ''j''"
proof (rule janitor_never_loses [OF mem_backend final_in_states])
  show "worker_keys_ok (mem_view mem_orphan)"
    by (simp add: worker_keys_ok_def mem_orphan_def mem_empty_def)
  show "visible (mem_view mem_orphan) ''j''"
    by (rule visible_listI [of _ _ "processing_key ''dead''"]) (simp add: mem_orphan_def)
qed

end
