(* ===== verification/Cron.thy ===== *)
theory Cron
  imports Mem_Backend Json
begin

text \<open>
  \<^verbatim>\<open>worker/src/cron.ts\<close>: \<open>CronManager\<close>, which stores the definitions of recurring jobs in
  Redis hashes and the time of their next run in the schedule.

  The properties are the round trip of a definition through its hash and the agreement of
  the two structures: what is scheduled is what \<open>listJobs\<close> reports.
\<close>

text \<open>The arguments of \<open>addJob\<close>; absent members are \<open>None\<close>.\<close>
record cron_def =
  cd_cronId :: string
  cd_jobName :: string
  cd_payload :: "json option"
  cd_cronExpression :: string
  cd_queue :: "string option"
  cd_maxAttempts :: "int option"
  cd_priority :: "string option"

text \<open>What \<open>listJobs\<close> reports: \<open>queue\<close> and \<open>options\<close> may be missing.\<close>
record cron_info =
  ci_cronId :: string
  ci_jobName :: string
  ci_payload :: json
  ci_cronExpression :: string
  ci_queue :: "string option"
  ci_options :: "(jsnum \<times> string) option"

definition cron_hash :: "cron_def \<Rightarrow> (string \<times> string) list" where
  "cron_hash def =
     [(''cronId'', cd_cronId def), (''jobName'', cd_jobName def),
      (''payload'', json_stringify (nullish (cd_payload def) (JObj []))),
      (''cronExpression'', cd_cronExpression def), (''queue'', nullish (cd_queue def) ''default''),
      (''maxAttempts'', int_str (nullish (cd_maxAttempts def) 3)),
      (''priority'', nullish (cd_priority def) ''normal'')]"

definition addJob :: "cron_def \<Rightarrow> unit prog" where
  "addJob def =
     await (cron_next (cd_cronExpression def)) (\<lambda>nextMs.
     seqp (hset (cronDef_key (cd_cronId def)) (cron_hash def))
     (zadd cronSchedule_key (Num (of_int nextMs)) (cd_cronId def)))"

definition removeJob :: "string \<Rightarrow> unit prog" where
  "removeJob cronId =
     seqp (redis_del (cronDef_key cronId))
     (seqp (zrem cronSchedule_key cronId) (Ret ()))"

text \<open>Lines 65--82: one entry of the list, \<open>None\<close> where the definition is gone; a payload that
  does not parse throws.\<close>
definition read_def :: "(string \<Rightarrow> string option) \<Rightarrow> err + cron_info option" where
  "read_def data =
     (if \<not> truthy (data ''cronId'') then Inr None
      else case (if truthy (data ''payload'') then json_parse (nullish (data ''payload'') '''') else Some (JObj [])) of
          None \<Rightarrow> Inl (JsError ''Unexpected token in JSON'')
        | Some payload \<Rightarrow>
            Inr (Some \<lparr>ci_cronId = nullish (data ''cronId'') '''', ci_jobName = nullish (data ''jobName'') '''',
              ci_payload = payload, ci_cronExpression = nullish (data ''cronExpression'') '''',
              ci_queue = (if truthy (data ''queue'') then data ''queue'' else None),
              ci_options =
                (if truthy (data ''maxAttempts'') \<or> truthy (data ''priority'')
                 then Some (if truthy (data ''maxAttempts'') then js_Number (nullish (data ''maxAttempts'') '''') else Num 3,
                            nullish (data ''priority'') ''normal'')
                 else None)\<rparr>))"

fun list_defs :: "string list \<Rightarrow> cron_info list prog" where
  "list_defs [] = Ret []"
| "list_defs (cronId # cronIds) =
     await (hgetall (cronDef_key cronId)) (\<lambda>data.
     case read_def data of
       Inl e \<Rightarrow> Throw e
     | Inr info \<Rightarrow>
         await (list_defs cronIds) (\<lambda>rest.
           Ret (case info of None \<Rightarrow> rest | Some x \<Rightarrow> x # rest)))"

definition listJobs :: "cron_info list prog" where
  "listJobs = await (zrangebyscore cronSchedule_key None) list_defs"

end
