(* ===== verification/Config.thy ===== *)
theory Config
  imports Js_Runtime Effects
begin

text \<open>
  \<^verbatim>\<open>server/src/config.ts\<close> and \<^verbatim>\<open>worker/src/config.ts\<close>: the configuration a process reads
  from its environment once, at its start.
\<close>

record server_config =
  sc_redisUrl :: string
  sc_databaseUrl :: string
  sc_port :: jsnum
  sc_host :: string

definition loadServerConfig :: "process_env \<Rightarrow> err + server_config" where
  "loadServerConfig env =
     (if \<not> truthy (env ''REDIS_URL'') then Inl (JsError ''REDIS_URL is required'')
      else if \<not> truthy (env ''DATABASE_URL'') then Inl (JsError ''DATABASE_URL is required'')
      else Inr \<lparr>sc_redisUrl = nullish (env ''REDIS_URL'') '''',
        sc_databaseUrl = nullish (env ''DATABASE_URL'') '''',
        sc_port = (case env ''SERVER_PORT'' of None \<Rightarrow> Num 3000 | Some x \<Rightarrow> js_Number x),
        sc_host = nullish (env ''SERVER_HOST'') ''0.0.0.0''\<rparr>)"

record worker_config =
  wc_redisUrl :: string
  wc_databaseUrl :: string
  wc_queue :: string
  wc_concurrency :: jsnum
  wc_workerId :: string
  wc_janitorEnabled :: bool
  wc_janitorIntervalMs :: jsnum

text \<open>\<open>pid\<close> is \<open>process.pid\<close>.\<close>
definition loadWorkerConfig :: "int \<Rightarrow> process_env \<Rightarrow> err + worker_config" where
  "loadWorkerConfig pid env =
     (if \<not> truthy (env ''REDIS_URL'') then Inl (JsError ''REDIS_URL is required'')
      else if \<not> truthy (env ''DATABASE_URL'') then Inl (JsError ''DATABASE_URL is required'')
      else Inr \<lparr>wc_redisUrl = nullish (env ''REDIS_URL'') '''',
        wc_databaseUrl = nullish (env ''DATABASE_URL'') '''',
        wc_queue = nullish (env ''WORKER_QUEUE'') ''default'',
        wc_concurrency = (case env ''WORKER_CONCURRENCY'' of None \<Rightarrow> Num 5 | Some x \<Rightarrow> js_Number x),
        wc_workerId = nullish (env ''WORKER_ID'') (''worker-'' @ int_str pid),
        wc_janitorEnabled = (env ''JANITOR_ENABLED'' \<noteq> Some ''false''),
        wc_janitorIntervalMs = (case env ''JANITOR_INTERVAL_MS'' of None \<Rightarrow> Num 30000 | Some x \<Rightarrow> js_Number x)\<rparr>)"

end
