(* ===== verification/Http.thy ===== *)
theory Http
  imports Service_Calls
begin

text \<open>
  What the HTTP handlers of \<^verbatim>\<open>server/src\<close> see of a request and how they answer.

  Express has parsed the request: \<open>rq_body\<close> is the JSON body (an empty object where there is
  none), \<open>rq_query\<close> the query parameters given once each, and the two headers are the ones the
  code reads.  A middleware either answers or passes the request on (\<open>next()\<close>); an error
  (\<open>next(err)\<close>, or a throw in a handler) goes to the error handler of \<^verbatim>\<open>server/src/index.ts\<close>.
\<close>

record request =
  rq_authorization :: "string option"
  rq_xApiKey :: "string option"
  rq_query :: "string \<Rightarrow> string option"
  rq_body :: json

datatype response = Reply int json

datatype middleware_result = Next | Respond response

fun reply_status :: "response \<Rightarrow> int" where
  "reply_status (Reply c b) = c"

text \<open>The centralised error handler: every error is a 500.\<close>
definition error_handler :: "err \<Rightarrow> response" where
  "error_handler e = Reply 500 (JObj [(''error'', JStr ''internal_error'')])"

lemma error_handler_status [simp]: "reply_status (error_handler e) = 500"
  by (simp add: error_handler_def)

text \<open>A body \<open>{ error: ..., message: ... }\<close>.\<close>
definition error_body :: "string \<Rightarrow> string \<Rightarrow> json" where
  "error_body e msg = JObj [(''error'', JStr e), (''message'', JStr msg)]"

subsection \<open>Members and truth values of JSON values\<close>

text \<open>\<open>v.k\<close>: the last member of that name; \<open>undefined\<close> (\<open>None\<close>) where there is none.\<close>
fun member :: "string \<Rightarrow> json \<Rightarrow> json option" where
  "member k (JObj ms) = map_of (rev ms) k"
| "member k v = None"

fun json_truthy :: "json \<Rightarrow> bool" where
  "json_truthy JNull = False"
| "json_truthy (JBool b) = b"
| "json_truthy (JNum x) = (x \<noteq> 0)"
| "json_truthy (JStr s) = (s \<noteq> [])"
| "json_truthy (JArr xs) = True"
| "json_truthy (JObj ms) = True"

definition member_truthy :: "string \<Rightarrow> json \<Rightarrow> bool" where
  "member_truthy k v = (case member k v of None \<Rightarrow> False | Some x \<Rightarrow> json_truthy x)"

definition opt_json :: "('a \<Rightarrow> json) \<Rightarrow> 'a option \<Rightarrow> json" where
  "opt_json f x = (case x of None \<Rightarrow> JNull | Some y \<Rightarrow> f y)"

lemma opt_json_simps [simp]: "opt_json f None = JNull" "opt_json f (Some y) = f y"
  by (simp_all add: opt_json_def)

subsection \<open>Promise.all\<close>

text \<open>
  \<open>Promise.all(xs.map(async x => ...))\<close>, where the callbacks only read: the answers in the
  order of \<open>xs\<close>; the first error rejects the whole.
\<close>
primrec map_prog :: "('x \<Rightarrow> 'a prog) \<Rightarrow> 'x list \<Rightarrow> 'a list prog" where
  "map_prog f [] = Ret []"
| "map_prog f (x # xs) = await (f x) (\<lambda>y. await (map_prog f xs) (\<lambda>ys. Ret (y # ys)))"

text \<open>The outcome of a program that only reads: the store is as it was, an answer satisfies \<open>R\<close>.\<close>
definition answers :: "store \<Rightarrow> ('a \<Rightarrow> bool) \<Rightarrow> err + 'a \<Rightarrow> store \<Rightarrow> bool" where
  "answers v R r w \<longleftrightarrow> w = v \<and> (\<forall>y. r = Inr y \<longrightarrow> R y)"

lemma answers_simps [simp]: "answers v R (Inl e) w \<longleftrightarrow> w = v" "answers v R (Inr y) w \<longleftrightarrow> w = v \<and> R y"
  by (simp_all add: answers_def)

lemma answersE:
  "vwp I p (answers v R) w \<Longrightarrow> (\<And>e. Q (Inl e) v) \<Longrightarrow> (\<And>y. R y \<Longrightarrow> Q (Inr y) v) \<Longrightarrow> vwp I p Q w"
  by (erule vwp_mono) (auto simp: answers_def split: sum.splits dest: sum.collapse, metis sum.exhaust)

lemma vwp_map_prog:
  assumes "\<And>x. x \<in> set xs \<Longrightarrow> vwp I (f x) (answers v (R x)) v" and "I v"
  shows "vwp I (map_prog f xs) (answers v (list_all2 R xs)) v"
  using assms(1)
proof (induction xs)
  case Nil
  show ?case using assms(2) by simp
next
  case (Cons x xs)
  have "vwp I (f x) (answers v (R x)) v" using Cons.prems by simp
  then show ?case
    apply simp
    apply (erule answersE)
     apply simp
    apply simp
    apply (rule answersE [OF Cons.IH])
    using Cons.prems assms(2) apply auto
    done
qed

lemma list_all2_eq_map: "list_all2 (\<lambda>x y. y = f x) xs ys \<longleftrightarrow> ys = map f xs"
  by (induction xs arbitrary: ys) (auto simp: list_all2_Cons1)

end
