(* ===== verification/Auth.thy ===== *)
theory Auth
  imports Http
begin

text \<open>
  \<^verbatim>\<open>server/src/auth.ts\<close>: the API key and JWT middlewares and the login handler.

  \<open>jsonwebtoken\<close> is third-party code: \<open>sign\<close> and \<open>verify\<close> are arguments, and \<open>jwt_contract\<close>
  states what its documentation promises of a token signed with \<open>expiresIn: '24h'\<close>.
  \<open>Buffer.from\<close> of a string is its UTF-8 bytes, which is what a \<open>string\<close> of the model is; on
  the other JSON values a login body may hold (the code does not check the type) it is the
  argument \<open>other_bytes\<close>, an error or the bytes.
\<close>

subsection \<open>Comparing secrets\<close>

text \<open>\<open>crypto.timingSafeEqual\<close> on buffers of one length: every pair of bytes is compared.\<close>
definition crypto_timingSafeEqual :: "string \<Rightarrow> string \<Rightarrow> bool" where
  "crypto_timingSafeEqual bufA bufB = fold (\<lambda>(x, y) eq. eq \<and> x = y) (zip bufA bufB) True"

definition timingSafeEqual :: "string \<Rightarrow> string \<Rightarrow> bool" where
  "timingSafeEqual bufA bufB =
     (if length bufA \<noteq> length bufB then False else crypto_timingSafeEqual bufA bufB)"

lemma fold_equal: "fold (\<lambda>(x, y) eq. eq \<and> x = y) ps b \<longleftrightarrow> b \<and> (\<forall>(x, y) \<in> set ps. x = y)"
  by (induction ps arbitrary: b) auto

lemma timingSafeEqual_iff [simp]: "timingSafeEqual a b \<longleftrightarrow> a = b"
proof -
  have "(\<forall>(x, y) \<in> set (zip a b). x = y) \<longleftrightarrow> a = b" if "length a = length b"
    using that by (induction a b rule: list_induct2) auto
  then show ?thesis by (auto simp: timingSafeEqual_def crypto_timingSafeEqual_def fold_equal)
qed

subsection \<open>API keys\<close>

text \<open>\<open>apiKeysRaw.split(',').map(trim).filter(Boolean)\<close>\<close>
definition valid_keys :: "string \<Rightarrow> string list" where
  "valid_keys apiKeysRaw = filter (\<lambda>k. k \<noteq> []) (map trim (split_on (CHR '','') apiKeysRaw))"

text \<open>Lines 38--46: the key of the request.\<close>
definition presented_key :: "request \<Rightarrow> string option" where
  "presented_key req =
     (case rq_authorization req of
        Some h \<Rightarrow> if starts_with ''Bearer '' h then Some (drop 7 h)
                  else if truthy (rq_xApiKey req) then rq_xApiKey req else None
      | None \<Rightarrow> if truthy (rq_xApiKey req) then rq_xApiKey req else None)"

text \<open>Lines 53--58: the loop goes through every valid key.\<close>
fun any_key_matches :: "string \<Rightarrow> string list \<Rightarrow> bool \<Rightarrow> bool" where
  "any_key_matches key [] matched = matched"
| "any_key_matches key (validKey # ks) matched =
     any_key_matches key ks (if timingSafeEqual key validKey then True else matched)"

definition bad_api_key :: response where
  "bad_api_key = Reply 401 (error_body ''unauthorized'' ''Invalid or missing API key'')"

definition apiKeyMiddleware :: "process_env \<Rightarrow> request \<Rightarrow> middleware_result" where
  "apiKeyMiddleware env req =
     (if \<not> truthy (env ''API_KEYS'') then Next
      else let validKeys = valid_keys (nullish (env ''API_KEYS'') '''')
      in if length validKeys = 0 then Next
      else if \<not> truthy (presented_key req) then Respond bad_api_key
      else if \<not> any_key_matches (nullish (presented_key req) '''') validKeys False then Respond bad_api_key
      else Next)"

lemma any_key_matches_iff: "any_key_matches key ks b \<longleftrightarrow> b \<or> key \<in> set ks"
  by (induction ks arbitrary: b) auto

subsection \<open>JSON web tokens\<close>

definition jwtMiddleware :: "(string \<Rightarrow> string \<Rightarrow> int \<Rightarrow> bool) \<Rightarrow> process_env \<Rightarrow> int \<Rightarrow> request \<Rightarrow> middleware_result" where
  "jwtMiddleware verify env t req =
     (if \<not> truthy (env ''JWT_SECRET'') then Next
      else let secret = nullish (env ''JWT_SECRET'') ''''
      in case rq_authorization req of
          None \<Rightarrow> Respond (Reply 401 (error_body ''unauthorized'' ''Missing or invalid token''))
        | Some h \<Rightarrow>
            if \<not> starts_with ''Bearer '' h
            then Respond (Reply 401 (error_body ''unauthorized'' ''Missing or invalid token''))
            else let token = drop 7 h
            in if verify token secret t then Next
               else Respond (Reply 401 (error_body ''unauthorized'' ''Invalid token'')))"

definition buffer_from :: "(json \<Rightarrow> err + string) \<Rightarrow> json \<Rightarrow> err + string" where
  "buffer_from other_bytes v = (case v of JStr s \<Rightarrow> Inr s | _ \<Rightarrow> other_bytes v)"

text \<open>\<open>timingSafeEqual(v, s)\<close> for a value of a JSON body.\<close>
definition body_equal :: "(json \<Rightarrow> err + string) \<Rightarrow> json \<Rightarrow> string \<Rightarrow> err + bool" where
  "body_equal other_bytes v s =
     (case buffer_from other_bytes v of Inl e \<Rightarrow> Inl e | Inr b \<Rightarrow> Inr (timingSafeEqual b s))"

definition bad_login :: response where
  "bad_login = Reply 401 (error_body ''unauthorized'' ''Invalid credentials'')"

text \<open>The handler may throw, where a buffer cannot be made or \<open>sign\<close> refuses the subject.\<close>
definition loginHandler ::
  "(json \<Rightarrow> err + string) \<Rightarrow> (json \<Rightarrow> string \<Rightarrow> int \<Rightarrow> err + string) \<Rightarrow> process_env \<Rightarrow> int \<Rightarrow> request \<Rightarrow> err + response" where
  "loginHandler other_bytes sign env t req =
     (if \<not> truthy (env ''JWT_SECRET'') \<or> \<not> truthy (env ''DASHBOARD_USER'') \<or> \<not> truthy (env ''DASHBOARD_PASSWORD'')
      then Inr (Reply 501 (error_body ''not_configured'' ''Auth is not configured''))
      else if \<not> member_truthy ''username'' (rq_body req) \<or> \<not> member_truthy ''password'' (rq_body req)
      then Inr (Reply 400 (error_body ''invalid_request'' ''username and password required''))
      else let secret = nullish (env ''JWT_SECRET'') '''';
               username = nullish (member ''username'' (rq_body req)) JNull;
               password = nullish (member ''password'' (rq_body req)) JNull
      in case body_equal other_bytes username (nullish (env ''DASHBOARD_USER'') '''') of
          Inl e \<Rightarrow> Inl e
        | Inr False \<Rightarrow> Inr bad_login
        | Inr True \<Rightarrow>
            (case body_equal other_bytes password (nullish (env ''DASHBOARD_PASSWORD'') '''') of
               Inl e \<Rightarrow> Inl e
             | Inr False \<Rightarrow> Inr bad_login
             | Inr True \<Rightarrow>
                 (case sign username secret t of
                    Inl e \<Rightarrow> Inl e
                  | Inr token \<Rightarrow> Inr (Reply 200 (JObj [(''token'', JStr token)])))))"

text \<open>
  What the documentation of \<open>jsonwebtoken\<close> says: a token signed with \<open>expiresIn: '24h'\<close> is
  accepted under its secret until its \<open>exp\<close>, the second of its signing plus 86400, and
  refused from then on.
\<close>
definition jwt_contract :: "(json \<Rightarrow> string \<Rightarrow> int \<Rightarrow> err + string) \<Rightarrow> (string \<Rightarrow> string \<Rightarrow> int \<Rightarrow> bool) \<Rightarrow> bool" where
  "jwt_contract sign verify \<longleftrightarrow>
     (\<forall>sub secret t token t'. sign sub secret t = Inr token \<longrightarrow> t \<le> t' \<longrightarrow>
        (verify token secret t' \<longleftrightarrow> t' div 1000 < t div 1000 + 86400))"

subsection \<open>Properties\<close>

text \<open>C23: the API key middleware lets a request pass exactly when no key is configured or the
  request presents one of the configured keys, and answers 401 to every other; a list of keys
  that holds only separators and blanks configures none.\<close>
theorem apiKeyMiddleware_correct:
  "apiKeyMiddleware env req =
     (let keys = {k. k \<noteq> [] \<and> (\<exists>raw w. env ''API_KEYS'' = Some raw \<and> w \<in> set (split_on (CHR '','') raw) \<and> k = trim w)}
      in if keys = {} \<or> (\<exists>k \<in> keys. presented_key req = Some k) then Next else Respond bad_api_key)"
proof (cases "truthy (env ''API_KEYS'')")
  case True
  then obtain raw where raw: "env ''API_KEYS'' = Some raw" "raw \<noteq> []" by (auto simp: truthy_iff)
  have keys: "{k. k \<noteq> [] \<and> (\<exists>r w. env ''API_KEYS'' = Some r \<and> w \<in> set (split_on (CHR '','') r) \<and> k = trim w)}
      = set (valid_keys raw)"
    by (auto simp: valid_keys_def raw)
  have "[] \<notin> set (valid_keys raw)" by (simp add: valid_keys_def)
  with raw show ?thesis
    unfolding keys
    by (cases "presented_key req") (auto simp: apiKeyMiddleware_def any_key_matches_iff Let_def)
next
  case False
  then have "env ''API_KEYS'' = None \<or> env ''API_KEYS'' = Some []" by (cases "env ''API_KEYS''") auto
  then show ?thesis by (auto simp: apiKeyMiddleware_def trim_def Let_def)
qed

text \<open>C24: the login handler answers with a token only when auth is configured and the bytes of the
  body's user name and password are the configured ones; the JWT middleware then accepts that
  token for 24 hours and refuses it from then on.\<close>
theorem login_token_accepted:
  assumes "jwt_contract sign verify"
    and "loginHandler other_bytes sign env t req = Inr (Reply 200 body)" and "t \<le> t'"
  shows "\<exists>token u p. body = JObj [(''token'', JStr token)] \<and>
    member ''username'' (rq_body req) = Some u \<and> member ''password'' (rq_body req) = Some p \<and>
    buffer_from other_bytes u = Inr (nullish (env ''DASHBOARD_USER'') '''') \<and>
    buffer_from other_bytes p = Inr (nullish (env ''DASHBOARD_PASSWORD'') '''') \<and>
    (rq_authorization req' = Some (''Bearer '' @ token) \<longrightarrow>
       (jwtMiddleware verify env t' req' = Next \<longleftrightarrow> t' div 1000 < t div 1000 + 86400))"
proof -
  let ?secret = "nullish (env ''JWT_SECRET'') ''''"
  from assms(2) obtain u p token where up: "member ''username'' (rq_body req) = Some u"
      "member ''password'' (rq_body req) = Some p" "sign u ?secret t = Inr token"
      "truthy (env ''JWT_SECRET'')" "body = JObj [(''token'', JStr token)]"
      "buffer_from other_bytes u = Inr (nullish (env ''DASHBOARD_USER'') '''')"
      "buffer_from other_bytes p = Inr (nullish (env ''DASHBOARD_PASSWORD'') '''')"
    by (auto simp: loginHandler_def body_equal_def member_truthy_def bad_login_def Let_def
        split: if_splits option.splits sum.splits bool.splits)
  then show ?thesis
    using assms(1,3) by (auto simp: jwt_contract_def jwtMiddleware_def Let_def starts_with_def)
qed

subsection \<open>Instances\<close>

text \<open>A signer that writes the signing second into the token, and its verifier.\<close>

definition demo_sign :: "json \<Rightarrow> string \<Rightarrow> int \<Rightarrow> err + string" where
  "demo_sign sub secret t = Inr (secret @ CHR ''.'' # int_str (t div 1000))"

definition demo_verify :: "string \<Rightarrow> string \<Rightarrow> int \<Rightarrow> bool" where
  "demo_verify token secret t \<longleftrightarrow> starts_with (secret @ ''.'') token \<and>
     (case js_Number (drop (length secret + 1) token) of
        NaN \<Rightarrow> False | Num x \<Rightarrow> of_int (t div 1000) < x + 86400)"

lemma demo_jwt: "jwt_contract demo_sign demo_verify"
proof -
  have "(of_int x < of_int y + (86400 :: rat)) = (x < y + 86400)" for x y :: int
  proof -
    have "of_int y + (86400 :: rat) = of_int (y + 86400)" by simp
    then show ?thesis by (simp only: of_int_less_iff)
  qed
  then show ?thesis by (auto simp: jwt_contract_def demo_sign_def demo_verify_def starts_with_def)
qed

definition admin_env :: process_env where
  "admin_env = [''JWT_SECRET'' \<mapsto> ''s'', ''DASHBOARD_USER'' \<mapsto> ''admin'', ''DASHBOARD_PASSWORD'' \<mapsto> ''pw'']"

definition login_request :: request where
  "login_request = \<lparr>rq_authorization = None, rq_xApiKey = None, rq_query = Map.empty,
     rq_body = JObj [(''username'', JStr ''admin''), (''password'', JStr ''pw'')]\<rparr>"

definition no_bytes :: "json \<Rightarrow> err + string" where
  "no_bytes v = Inl (JsError ''ERR_INVALID_ARG_TYPE'')"

lemma login_request_ok:
  "loginHandler no_bytes demo_sign admin_env 0 login_request = Inr (Reply 200 (JObj [(''token'', JStr ''s.0'')]))"
  by (simp add: loginHandler_def admin_env_def login_request_def member_truthy_def body_equal_def
      buffer_from_def demo_sign_def js_eval)

theorem login_token_accepted_witness:
  "jwtMiddleware demo_verify admin_env 86399999 (login_request\<lparr>rq_authorization := Some ''Bearer s.0''\<rparr>) = Next \<and>
   jwtMiddleware demo_verify admin_env 86400000 (login_request\<lparr>rq_authorization := Some ''Bearer s.0''\<rparr>) \<noteq> Next"
  using login_token_accepted [OF demo_jwt login_request_ok, of 86399999 "login_request\<lparr>rq_authorization := Some ''Bearer s.0''\<rparr>"]
    login_token_accepted [OF demo_jwt login_request_ok, of 86400000 "login_request\<lparr>rq_authorization := Some ''Bearer s.0''\<rparr>"]
  by auto

end
