(* ===== verification/Routes.thy ===== *)
theory Routes
  imports Auth Producer
begin

text \<open>
  \<^verbatim>\<open>server/src/routes.ts\<close>: the REST surface, one program per handler, and the table of
  routes with the middleware in front of each.

  \<open>zod\<close> is third-party code: \<open>zp\<close> is its \<open>parse\<close>, and \<open>zod_contract\<close> states its documented
  behaviour on the combinators the request schema uses.  The callbacks under \<open>Promise.all\<close>
  only read and are run one after the other (\<open>map_prog\<close>).
\<close>

subsection \<open>The request schema\<close>

datatype zfield = ZString nat | ZUnknown | ZInt int | ZEnum "string list"

text \<open>Name, type and whether the member is optional.\<close>
type_synonym zobject = "(string \<times> zfield \<times> bool) list"

definition enqueueBodySchema :: zobject where
  "enqueueBodySchema =
     [(''jobName'', ZString 1, False), (''payload'', ZUnknown, False), (''queue'', ZString 1, True),
      (''maxAttempts'', ZInt 1, True), (''idempotencyKey'', ZString 1, True), (''delay'', ZInt 0, True),
      (''priority'', ZEnum [''high'', ''normal'', ''low''], True)]"

text \<open>\<open>z.string().min(n)\<close>, \<open>z.unknown()\<close>, \<open>z.number().int()\<close> with a lower bound, \<open>z.enum\<close>.\<close>
fun field_ok :: "zfield \<Rightarrow> json option \<Rightarrow> bool" where
  "field_ok (ZString n) (Some (JStr s)) = (n \<le> length s)"
| "field_ok ZUnknown v = True"
| "field_ok (ZInt lo) (Some (JNum x)) = (of_int \<lfloor>x\<rfloor> = x \<and> of_int lo \<le> x)"
| "field_ok (ZEnum ws) (Some (JStr s)) = (s \<in> set ws)"
| "field_ok _ _ = False"

definition schema_accepts :: "zobject \<Rightarrow> json \<Rightarrow> bool" where
  "schema_accepts sch body =
     (case body of
        JObj ms \<Rightarrow> list_all (\<lambda>(k, f, optional). (optional \<and> member k body = None) \<or> field_ok f (member k body)) sch
      | _ \<Rightarrow> False)"

text \<open>\<open>parse\<close> throws a \<open>ZodError\<close> with its issues exactly on the bodies the schema refuses; else
  it returns an object with the members of the schema as they were.\<close>
definition zod_contract :: "(zobject \<Rightarrow> json \<Rightarrow> json + json) \<Rightarrow> bool" where
  "zod_contract zp \<longleftrightarrow>
     (\<forall>sch body. case zp sch body of
        Inl issues \<Rightarrow> \<not> schema_accepts sch body
      | Inr v \<Rightarrow> schema_accepts sch body \<and> (\<forall>(k, f, optional) \<in> set sch. member k v = member k body))"

subsection \<open>Reading bodies and queries\<close>

fun json_string :: "json option \<Rightarrow> string option" where
  "json_string (Some (JStr s)) = Some s"
| "json_string _ = None"

fun json_int :: "json option \<Rightarrow> int option" where
  "json_int (Some (JNum x)) = Some \<lfloor>x\<rfloor>"
| "json_int _ = None"

fun priority_of_str :: "string \<Rightarrow> priority option" where
  "priority_of_str s = (if s = ''high'' then Some High else if s = ''normal'' then Some Normal
     else if s = ''low'' then Some Low else None)"

text \<open>Lines 59--64: only the members that are present become options.\<close>
definition body_options :: "json \<Rightarrow> enqueue_options" where
  "body_options body = \<lparr>o_queue = json_string (member ''queue'' body),
     o_maxAttempts = json_int (member ''maxAttempts'' body),
     o_idempotencyKey = json_string (member ''idempotencyKey'' body),
     o_delay = json_int (member ''delay'' body),
     o_priority = Option.bind (json_string (member ''priority'' body)) priority_of_str\<rparr>"

text \<open>\<open>Number(s) || d\<close>: the default for a missing, unreadable or zero number.\<close>
definition number_or :: "string option \<Rightarrow> rat \<Rightarrow> jsnum" where
  "number_or s d = (case s of None \<Rightarrow> Num d
     | Some t \<Rightarrow> (case js_Number t of NaN \<Rightarrow> Num d | Num x \<Rightarrow> if x = 0 then Num d else Num x))"

text \<open>
  A number sent to Postgres as \<open>LIMIT\<close> or \<open>OFFSET\<close>, or to Redis as a list index: both refuse a
  fraction with an error.
\<close>
definition as_integer :: "jsnum \<Rightarrow> int prog" where
  "as_integer x = (case x of
     NaN \<Rightarrow> Throw (JsError ''value is not an integer'')
   | Num q \<Rightarrow> if of_int \<lfloor>q\<rfloor> = q then Ret \<lfloor>q\<rfloor> else Throw (JsError ''value is not an integer''))"

text \<open>A number in a JSON response; \<open>NaN\<close> has no JSON text and becomes \<open>null\<close>.\<close>
definition json_num :: "jsnum \<Rightarrow> json" where
  "json_num x = (case x of NaN \<Rightarrow> JNull | Num q \<Rightarrow> JNum q)"

text \<open>\<open>s || null\<close>\<close>
definition str_or_null :: "string option \<Rightarrow> json" where
  "str_or_null s = (if truthy s then JStr (nullish s '''') else JNull)"

text \<open>The value of a JSONB column.\<close>
definition jsonb :: "string \<Rightarrow> json" where
  "jsonb s = nullish (json_parse s) JNull"

definition job_json :: "job \<Rightarrow> json" where
  "job_json j = JObj
     [(''id'', JStr (j_id j)), (''queueName'', JStr (j_queueName j)), (''jobName'', JStr (j_jobName j)),
      (''payload'', jsonb (j_payload j)), (''status'', JStr (status_str (j_status j))),
      (''attempts'', JNum (of_int (j_attempts j))), (''maxAttempts'', JNum (of_int (j_maxAttempts j))),
      (''errorMessage'', opt_json JStr (j_errorMessage j)), (''createdAt'', JStr (j_createdAt j)),
      (''startedAt'', opt_json JStr (j_startedAt j)), (''completedAt'', opt_json JStr (j_completedAt j))]"

subsection \<open>Submitting and reading a job\<close>

definition incrementEnqueued :: "string \<Rightarrow> string \<Rightarrow> unit prog" where
  "incrementEnqueued q p = inc_metric ''nexusqueue_jobs_enqueued_total'' [q, p]"

definition incrementRetried :: "string \<Rightarrow> unit prog" where
  "incrementRetried q = inc_metric ''nexusqueue_jobs_retried_total'' [q]"

text \<open>\<open>catch (err) { next(err) }\<close>\<close>
definition or_next :: "response prog \<Rightarrow> response prog" where
  "or_next p = try_catch p (\<lambda>e. Ret (error_handler e))"

definition post_jobs :: "(zobject \<Rightarrow> json \<Rightarrow> json + json) \<Rightarrow> bool \<Rightarrow> request \<Rightarrow> response prog" where
  "post_jobs zp eventBus req =
     (case zp enqueueBodySchema (rq_body req) of
        Inl issues \<Rightarrow> Ret (Reply 400 (JObj [(''error'', JStr ''invalid_request''), (''issues'', issues)]))
      | Inr body \<Rightarrow> or_next
          (await (enqueue eventBus (nullish (json_string (member ''jobName'' body)) '''') (member ''payload'' body)
                   (body_options body)) (\<lambda>jobId.
           seqp (incrementEnqueued (nullish (json_string (member ''queue'' body)) ''default'')
                  (nullish (json_string (member ''priority'' body)) ''normal''))
           (Ret (Reply 201 (JObj [(''jobId'', JStr jobId)]))))))"

definition get_job_route :: "string \<Rightarrow> response prog" where
  "get_job_route i = or_next
     (if i = [] then Ret (Reply 400 (JObj [(''error'', JStr ''missing_id'')]))
      else await (getJob i) (\<lambda>job. Ret (case job of
          None \<Rightarrow> Reply 404 (JObj [(''error'', JStr ''not_found'')])
        | Some j \<Rightarrow> Reply 200 (job_json j))))"

subsection \<open>Queues and their jobs\<close>

record queue_stats =
  qs_name :: string
  qs_pending :: int
  qs_active :: int
  qs_completed :: int
  qs_failed :: int
  qs_dlq :: int

text \<open>Lines 122--126: one row of the statistics.\<close>
fun stats_row :: "job_status \<times> int \<Rightarrow> int \<times> int \<times> int \<Rightarrow> int \<times> int \<times> int" where
  "stats_row (st, n) (c, f, d) =
     (if st = Completed then (n, f, d) else if st = Failed then (c, n, d)
      else if st = Dlq then (c, f, n) else (c, f, d))"

definition read_queue_stats :: "string \<Rightarrow> queue_stats prog" where
  "read_queue_stats name =
     await (llen (queue_key name)) (\<lambda>normalLen.
     await (llen (queuePriority_key name ''high'')) (\<lambda>highLen.
     await (llen (queuePriority_key name ''low'')) (\<lambda>lowLen.
     await (pg_count name (Some Active)) (\<lambda>active.
     await (pg_group name [Completed, Failed, Dlq]) (\<lambda>rows.
     case fold stats_row rows (0, 0, 0) of (completed, failed, dlq) \<Rightarrow>
     Ret \<lparr>qs_name = name, qs_pending = normalLen + highLen + lowLen, qs_active = active,
          qs_completed = completed, qs_failed = failed, qs_dlq = dlq\<rparr>)))))"

definition queue_stats_json :: "queue_stats \<Rightarrow> json" where
  "queue_stats_json q = JObj
     [(''name'', JStr (qs_name q)), (''pending'', JNum (of_int (qs_pending q))),
      (''active'', JNum (of_int (qs_active q))), (''completed'', JNum (of_int (qs_completed q))),
      (''failed'', JNum (of_int (qs_failed q))), (''dlq'', JNum (of_int (qs_dlq q)))]"

definition get_queues :: "response prog" where
  "get_queues = or_next
     (await (smembers queueRegistry_key) (\<lambda>queueNames.
      await (map_prog read_queue_stats queueNames) (\<lambda>queues.
      Ret (Reply 200 (JObj [(''queues'', JArr (map queue_stats_json queues))])))))"

definition validStatuses :: "string list" where
  "validStatuses = [''pending'', ''active'', ''completed'', ''failed'', ''dlq'', ''delayed'']"

text \<open>Lines 143 and 254: \<open>Math.min(Number(limit) || 50, 200)\<close>; lines 144 and 255.\<close>

definition page_limit :: "request \<Rightarrow> jsnum" where
  "page_limit req = js_min (number_or (rq_query req ''limit'') 50) (Num 200)"

definition page_offset :: "request \<Rightarrow> jsnum" where
  "page_offset req = number_or (rq_query req ''offset'') 0"

text \<open>Lines 164--176: a row as the dashboard sees it.\<close>
definition row_json :: "string \<times> job_row \<Rightarrow> json" where
  "row_json x = (case x of (i, w) \<Rightarrow> JObj
     [(''id'', JStr i), (''queueName'', JStr (r_queue_name w)), (''jobName'', JStr (r_job_name w)),
      (''payload'', jsonb (nullish (r_payload w) ''null'')), (''status'', JStr (status_str (r_status w))),
      (''attempts'', JNum (of_int (r_attempts w))), (''maxAttempts'', JNum (of_int (r_max_attempts w))),
      (''errorMessage'', opt_json JStr (r_error_message w)), (''createdAt'', JStr (to_iso (r_created_at w))),
      (''startedAt'', opt_json (\<lambda>t. JStr (to_iso t)) (r_started_at w)),
      (''completedAt'', opt_json (\<lambda>t. JStr (to_iso t)) (r_completed_at w))])"

definition get_queue_jobs :: "string \<Rightarrow> request \<Rightarrow> response prog" where
  "get_queue_jobs name req = or_next
     (let status = rq_query req ''status''
      in if truthy status \<and> nullish status '''' \<notin> set validStatuses
      then Ret (Reply 400 (error_body ''invalid_status''
             ''status must be one of: pending, active, completed, failed, dlq, delayed''))
      else let st = (if truthy status then status_of_str (nullish status '''') else None)
      in await (pg_count name st) (\<lambda>total.
         await (as_integer (page_limit req)) (\<lambda>n.
         await (as_integer (page_offset req)) (\<lambda>k.
         await (pg_page name st n k) (\<lambda>rows.
         Ret (Reply 200 (JObj [(''jobs'', JArr (map row_json rows)), (''total'', JNum (of_int total))])))))))"

subsection \<open>Retrying a job\<close>

text \<open>The fields both retry handlers reset.\<close>
definition retry_fields :: "(string \<times> string) list" where
  "retry_fields = [(''status'', ''pending''), (''attempts'', ''0''), (''startedAt'', ''''),
     (''completedAt'', ''''), (''errorMessage'', '''')]"

definition publish_retried :: "bool \<Rightarrow> string \<Rightarrow> string \<Rightarrow> string \<Rightarrow> unit prog" where
  "publish_retried eventBus i jobName queueName =
     (if eventBus
      then await now (\<lambda>t. publish_event \<lparr>e_type = ''job.retried'', e_jobId = i, e_jobName = jobName,
             e_queueName = queueName, e_timestamp = t, e_extra = []\<rparr>)
      else Ret ())"

definition retry_job :: "bool \<Rightarrow> string \<Rightarrow> response prog" where
  "retry_job eventBus i = or_next
     (await (getJob i) (\<lambda>job. case job of
        None \<Rightarrow> Ret (Reply 404 (JObj [(''error'', JStr ''not_found'')]))
      | Some j \<Rightarrow>
          if j_status j \<noteq> Failed \<and> j_status j \<noteq> Dlq
          then Ret (Reply 400 (error_body ''job_not_retriable'' ''Only failed or dlq jobs can be retried''))
          else seqp (markJobPendingForRetry i)
              (seqp (hset (job_key i) retry_fields)
              (seqp (lrem_cmd (dlq_key (j_queueName j)) 0 i)
              (await (hgetall (job_key i)) (\<lambda>hash.
               seqp (lpush (targetList (j_queueName j) (nullish (hash ''priority'') ''normal'')) i)
              (seqp (incrementRetried (j_queueName j))
              (seqp (publish_retried eventBus i (j_jobName j) (j_queueName j))
              (Ret (Reply 200 (JObj [(''success'', JBool True)])))))))))))"

subsection \<open>Workers\<close>

record worker_info =
  wi_id :: string
  wi_status :: string
  wi_queue :: string
  wi_startedAt :: "string option"
  wi_currentJobs :: jsnum
  wi_lastHeartbeat :: "jsnum option"

definition read_worker :: "string \<Rightarrow> worker_info prog" where
  "read_worker i =
     await (hgetall (workerMeta_key i)) (\<lambda>meta.
     await (redis_get (heartbeat_key i)) (\<lambda>heartbeat.
     Ret \<lparr>wi_id = i, wi_status = nullish (meta ''status'') ''unknown'', wi_queue = nullish (meta ''queue'') '''',
          wi_startedAt = meta ''startedAt'',
          wi_currentJobs = (case meta ''currentJobs'' of None \<Rightarrow> Num 0 | Some x \<Rightarrow> js_Number x),
          wi_lastHeartbeat = (if truthy heartbeat then Some (js_Number (nullish heartbeat '''')) else None)\<rparr>))"

definition worker_info_json :: "worker_info \<Rightarrow> json" where
  "worker_info_json w = JObj
     [(''id'', JStr (wi_id w)), (''status'', JStr (wi_status w)), (''queue'', JStr (wi_queue w)),
      (''startedAt'', opt_json JStr (wi_startedAt w)), (''currentJobs'', json_num (wi_currentJobs w)),
      (''lastHeartbeat'', opt_json json_num (wi_lastHeartbeat w))]"

definition get_workers :: "response prog" where
  "get_workers = or_next
     (await (smembers workerRegistry_key) (\<lambda>workerIds.
      await (map_prog read_worker workerIds) (\<lambda>workers.
      Ret (Reply 200 (JObj [(''workers'', JArr (map worker_info_json workers))])))))"

subsection \<open>The dead letter list\<close>

text \<open>Lines 260--272: an entry as its hash describes it.\<close>
definition dlq_entry_json :: "string \<Rightarrow> string \<Rightarrow> (string \<Rightarrow> string option) \<Rightarrow> json \<Rightarrow> json" where
  "dlq_entry_json name i hash payload = JObj
     [(''id'', JStr (nullish (hash ''id'') i)), (''queueName'', JStr (nullish (hash ''queueName'') name)),
      (''jobName'', JStr (nullish (hash ''jobName'') '''')), (''payload'', payload),
      (''status'', JStr (nullish (hash ''status'') ''dlq'')),
      (''attempts'', json_num (case hash ''attempts'' of None \<Rightarrow> Num 0 | Some x \<Rightarrow> js_Number x)),
      (''maxAttempts'', json_num (case hash ''maxAttempts'' of None \<Rightarrow> Num 0 | Some x \<Rightarrow> js_Number x)),
      (''errorMessage'', str_or_null (hash ''errorMessage'')),
      (''createdAt'', opt_json JStr (hash ''createdAt'')),
      (''startedAt'', str_or_null (hash ''startedAt'')),
      (''completedAt'', str_or_null (hash ''completedAt''))]"

text \<open>A payload that does not parse throws.\<close>
definition dlq_payload :: "(string \<Rightarrow> string option) \<Rightarrow> json option" where
  "dlq_payload hash =
     (if truthy (hash ''payload'') then json_parse (nullish (hash ''payload'') '''') else Some JNull)"

definition dlq_entry :: "string \<Rightarrow> string \<Rightarrow> json prog" where
  "dlq_entry name i =
     await (hgetall (job_key i)) (\<lambda>hash.
     case dlq_payload hash of
       None \<Rightarrow> Throw (JsError ''Unexpected token in JSON'')
     | Some payload \<Rightarrow> Ret (dlq_entry_json name i hash payload))"

definition get_dlq :: "string \<Rightarrow> request \<Rightarrow> response prog" where
  "get_dlq name req = or_next
     (await (llen (dlq_key name)) (\<lambda>total.
      await (as_integer (page_offset req)) (\<lambda>k.
      await (as_integer (js_sub (js_add (page_offset req) (page_limit req)) (Num 1))) (\<lambda>j.
      await (lrange_cmd (dlq_key name) k j) (\<lambda>jobIds.
      await (map_prog (dlq_entry name) jobIds) (\<lambda>jobs.
      Ret (Reply 200 (JObj [(''jobs'', JArr jobs), (''total'', JNum (of_int total))]))))))))"

text \<open>
  The body as line 281 declares it, \<open>{ jobIds?: string[]; all?: boolean }\<close>.  An element that is
  not a string is outside that type; a number or a truth value is written as the key builders
  would write it.
\<close>
record requeue_body =
  rb_jobIds :: "string list option"
  rb_all :: bool

definition read_requeue_body :: "json \<Rightarrow> requeue_body" where
  "read_requeue_body body = \<lparr>
     rb_jobIds = (case member ''jobIds'' body of
        Some (JArr xs) \<Rightarrow> Some (map (\<lambda>x. case x of JStr s \<Rightarrow> s | _ \<Rightarrow> json_stringify x) xs)
      | _ \<Rightarrow> None),
     rb_all = member_truthy ''all'' body\<rparr>"

text \<open>Lines 296--331: one job.\<close>
definition requeue_one :: "bool \<Rightarrow> string \<Rightarrow> string \<Rightarrow> unit prog" where
  "requeue_one eventBus name i =
     seqp (markJobPendingForRetry i)
     (seqp (hset (job_key i) retry_fields)
     (seqp (lrem_cmd (dlq_key name) 1 i)
     (await (hgetall (job_key i)) (\<lambda>hash.
      seqp (lpush (targetList name (nullish (hash ''priority'') ''normal'')) i)
      (publish_retried eventBus i (nullish (hash ''jobName'') '''') name)))))"

text \<open>Lines 293--335: the counts of what went through and what threw.\<close>
primrec requeue_all :: "bool \<Rightarrow> string \<Rightarrow> string list \<Rightarrow> int \<Rightarrow> int \<Rightarrow> (int \<times> int) prog" where
  "requeue_all eventBus name [] requeued failed = Ret (requeued, failed)"
| "requeue_all eventBus name (i # is) requeued failed =
     await (try_catch (await (requeue_one eventBus name i) (\<lambda>_. Ret True)) (\<lambda>_. Ret False)) (\<lambda>ok.
     if ok then requeue_all eventBus name is (requeued + 1) failed
     else requeue_all eventBus name is requeued (failed + 1))"

definition requeue_dlq :: "bool \<Rightarrow> string \<Rightarrow> requeue_body \<Rightarrow> response prog" where
  "requeue_dlq eventBus name body = or_next
     (await (if rb_all body then await (lrange_cmd (dlq_key name) 0 (- 1)) (\<lambda>xs. Ret (Some xs))
             else Ret (rb_jobIds body)) (\<lambda>jobIds. case jobIds of
        None \<Rightarrow> Ret (Reply 400 (error_body ''invalid_request'' ''Provide jobIds array or { all: true }''))
      | Some is \<Rightarrow> await (requeue_all eventBus name is 0 0) (\<lambda>(requeued, failed).
          Ret (Reply 200 (JObj [(''requeued'', JNum (of_int requeued)), (''failed'', JNum (of_int failed))])))))"

subsection \<open>The table of routes\<close>

datatype guard = Open | ApiKey | Jwt

datatype endpoint = HealthE | MetricsE | LoginE | EnqueueE | GetJobE | QueuesE | QueueJobsE | RetryE
  | WorkersE | DlqE | RequeueE

text \<open>A segment of a path: a literal or a parameter.\<close>
datatype segment = Lit string | Param string

type_synonym route = "string \<times> segment list \<times> guard \<times> endpoint"

text \<open>The registrations of \<open>buildRouter\<close>, in order; those below line 97 need Redis.\<close>
definition buildRouter :: "bool \<Rightarrow> route list" where
  "buildRouter redis =
     [(''get'', [Lit ''health''], Open, HealthE),
      (''get'', [Lit ''metrics''], Open, MetricsE),
      (''post'', [Lit ''auth'', Lit ''login''], Open, LoginE),
      (''post'', [Lit ''jobs''], ApiKey, EnqueueE),
      (''get'', [Lit ''jobs'', Param ''id''], Open, GetJobE)] @
     (if redis then
       [(''get'', [Lit ''queues''], Jwt, QueuesE),
        (''get'', [Lit ''queues'', Param ''name'', Lit ''jobs''], Jwt, QueueJobsE),
        (''post'', [Lit ''jobs'', Param ''id'', Lit ''retry''], Jwt, RetryE),
        (''get'', [Lit ''workers''], Jwt, WorkersE),
        (''get'', [Lit ''queues'', Param ''name'', Lit ''dlq''], Jwt, DlqE),
        (''post'', [Lit ''queues'', Param ''name'', Lit ''dlq'', Lit ''requeue''], Jwt, RequeueE)]
      else [])"

text \<open>How Express matches a path, given as its decoded segments: the parameters, or no match.\<close>
fun match_path :: "segment list \<Rightarrow> string list \<Rightarrow> (string \<times> string) list option" where
  "match_path [] [] = Some []"
| "match_path (Lit x # ps) (y # ys) = (if x = y then match_path ps ys else None)"
| "match_path (Param k # ps) (y # ys) = (if y = [] then None else map_option ((#) (k, y)) (match_path ps ys))"
| "match_path _ _ = None"

text \<open>The collaborators of the router: third-party functions, and whether there are an event bus
  and a Redis client.\<close>
record router_deps =
  rd_zod :: "zobject \<Rightarrow> json \<Rightarrow> json + json"
  rd_bytes :: "json \<Rightarrow> err + string"
  rd_sign :: "json \<Rightarrow> string \<Rightarrow> int \<Rightarrow> err + string"
  rd_verify :: "string \<Rightarrow> string \<Rightarrow> int \<Rightarrow> bool"
  rd_metrics :: json
  rd_eventBus :: bool
  rd_redis :: bool

text \<open>\<open>rd_metrics\<close> is the text of the registry of \<^verbatim>\<open>metrics.ts\<close>.\<close>
definition getMetricsHandler :: "router_deps \<Rightarrow> response" where
  "getMetricsHandler deps = Reply 200 (rd_metrics deps)"

declare getMetricsHandler_def [simp]

definition handler :: "router_deps \<Rightarrow> process_env \<Rightarrow> request \<Rightarrow> endpoint \<Rightarrow> (string \<times> string) list \<Rightarrow> response prog" where
  "handler deps env req e params =
     (let i = nullish (map_of params ''id'') ''''; name = nullish (map_of params ''name'') ''''
      in case e of
          HealthE \<Rightarrow> Ret (Reply 200 (JObj [(''status'', JStr ''ok'')]))
        | MetricsE \<Rightarrow> Ret (getMetricsHandler deps)
        | LoginE \<Rightarrow> await now (\<lambda>t. case loginHandler (rd_bytes deps) (rd_sign deps) env t req of
            Inl err \<Rightarrow> Ret (error_handler err) | Inr r \<Rightarrow> Ret r)
        | EnqueueE \<Rightarrow> post_jobs (rd_zod deps) (rd_eventBus deps) req
        | GetJobE \<Rightarrow> get_job_route i
        | QueuesE \<Rightarrow> get_queues
        | QueueJobsE \<Rightarrow> get_queue_jobs name req
        | RetryE \<Rightarrow> retry_job (rd_eventBus deps) i
        | WorkersE \<Rightarrow> get_workers
        | DlqE \<Rightarrow> get_dlq name req
        | RequeueE \<Rightarrow> requeue_dlq (rd_eventBus deps) name (read_requeue_body (rq_body req)))"

definition run_guard :: "router_deps \<Rightarrow> process_env \<Rightarrow> request \<Rightarrow> guard \<Rightarrow> middleware_result prog" where
  "run_guard deps env req g =
     (case g of
        Open \<Rightarrow> Ret Next
      | ApiKey \<Rightarrow> Ret (apiKeyMiddleware env req)
      | Jwt \<Rightarrow> await now (\<lambda>t. Ret (jwtMiddleware (rd_verify deps) env t req)))"

text \<open>The first route that matches.\<close>
fun find_route :: "string \<Rightarrow> string list \<Rightarrow> route list \<Rightarrow> (guard \<times> endpoint \<times> (string \<times> string) list) option" where
  "find_route meth path [] = None"
| "find_route meth path ((m, pat, g, e) # rs) =
     (case (if m = meth then match_path pat path else None) of
        None \<Rightarrow> find_route meth path rs
      | Some params \<Rightarrow> Some (g, e, params))"

text \<open>A request goes through the guard of its route to its handler; Express answers 404 where no
  route matches.\<close>
definition serve :: "router_deps \<Rightarrow> process_env \<Rightarrow> request \<Rightarrow> string \<Rightarrow> string list \<Rightarrow> response prog" where
  "serve deps env req meth path =
     (case find_route meth path (buildRouter (rd_redis deps)) of
        None \<Rightarrow> Ret (Reply 404 JNull)
      | Some (g, e, params) \<Rightarrow> await (run_guard deps env req g) (\<lambda>a. case a of
            Respond r \<Rightarrow> Ret r
          | Next \<Rightarrow> handler deps env req e params))"

end
