(* ===== verification/Routes_Correct.thy ===== *)
theory Routes_Correct
  imports Routes
begin

text \<open>
  What the handlers of \<^verbatim>\<open>server/src/routes.ts\<close> do to the stores and what they answer: the
  properties of theory \<open>Routes\<close>.
\<close>

lemmas route_defs = or_next_def incrementEnqueued_def incrementRetried_def publish_retried_def
  publish_event_def

subsection \<open>Retrying a job\<close>

definition reset_hash :: "string \<Rightarrow> store \<Rightarrow> store" where
  "reset_hash i v = v\<lparr>s_hashes := (s_hashes v)(job_key i := s_hashes v (job_key i) ++ map_of retry_fields)\<rparr>"

text \<open>A job goes from a dead letter list, \<open>n\<close> occurrences of it, to the list of its priority.\<close>
definition move_from_dlq :: "string \<Rightarrow> int \<Rightarrow> string \<Rightarrow> store \<Rightarrow> store" where
  "move_from_dlq q n i v =
     (let ls = (s_lists v)(dlq_key q := lrem n i (s_lists v (dlq_key q)));
          k = targetList q (nullish (s_hashes v (job_key i) ''priority'') ''normal'')
      in v\<lparr>s_lists := ls(k := i # ls k)\<rparr>)"

definition spec_requeued :: "string \<Rightarrow> int \<Rightarrow> string \<Rightarrow> store \<Rightarrow> store" where
  "spec_requeued q n i v = move_from_dlq q n i (reset_hash i (upd_row i (row_waiting Pending) v))"

lemma retry_fields_priority [simp]: "map_of retry_fields ''priority'' = None" "map_of retry_fields ''jobName'' = None"
  by (simp_all add: retry_fields_def)

text \<open>What a retry answers and leaves.\<close>
definition retry_answer :: "store \<Rightarrow> string \<Rightarrow> err + response \<Rightarrow> store \<Rightarrow> bool" where
  "retry_answer v i r u \<longleftrightarrow> (\<exists>resp. r = Inr resp \<and>
    (case s_rows v i of
       None \<Rightarrow> reply_status resp \<in> {404, 500} \<and> u = v
     | Some w \<Rightarrow>
         if r_status w \<notin> {Failed, Dlq} then reply_status resp \<in> {400, 500} \<and> u = v
         else reply_status resp \<in> {200, 500} \<and>
           (reply_status resp = 200 \<longrightarrow> job_data u = job_data (spec_requeued (r_queue_name w) 0 i v))))"

lemma vwp_retry_job: "vwp any_state (retry_job bus i) (retry_answer v i) v"
  unfolding retry_answer_def
  apply (simp add: retry_job_def route_defs vwp_rules job_of_row_def split: option.splits)
  apply (auto simp: job_data_def spec_requeued_def reset_hash_def move_from_dlq_def Let_def map_add_def)
  done

text \<open>C21: a retry answers 404 for an unknown job and 400 for one that neither failed nor is in the
  dead letter queue, changing nothing; for the others an answer 200 means that the job is pending
  again in both stores with its attempts reset in Redis, that no entry of it is left in the dead
  letter list of its queue, and that it was pushed once to the list of its priority.\<close>
theorem retry_job_correct:
  assumes "backend exec view" and "run exec (retry_job bus i) s = (r, s')"
  shows "\<exists>resp. r = Inr resp \<and>
    (case s_rows (view s) i of
       None \<Rightarrow> reply_status resp \<in> {404, 500} \<and> view s' = view s
     | Some w \<Rightarrow>
         if r_status w \<notin> {Failed, Dlq} then reply_status resp \<in> {400, 500} \<and> view s' = view s
         else reply_status resp \<in> {200, 500} \<and>
           (reply_status resp = 200 \<longrightarrow>
              job_data (view s') = job_data (spec_requeued (r_queue_name w) 0 i (view s))))"
  using backend.run_post [OF assms vwp_retry_job] by (simp add: retry_answer_def)

subsection \<open>Requeueing dead letters\<close>

lemma job_data_requeued:
  "job_data (spec_requeued q n i v) =
     (let h = s_hashes v (job_key i) ++ map_of retry_fields;
          ls = (s_lists v)(dlq_key q := lrem n i (s_lists v (dlq_key q)));
          k = targetList q (nullish (h ''priority'') ''normal'')
      in (ls(k := i # ls k), (s_hashes v)(job_key i := h), s_zsets v, s_sets v,
          (s_rows v)(i := map_option (row_waiting Pending) (s_rows v i))))"
  by (simp add: job_data_def spec_requeued_def move_from_dlq_def reset_hash_def upd_row_def Let_def)

lemma spec_requeued_cong:
  assumes "job_data v = job_data w"
  shows "job_data (spec_requeued q n i v) = job_data (spec_requeued q n i w)"
  unfolding job_data_requeued job_dataD [OF assms] ..

lemma fold_requeued_cong:
  "job_data v = job_data w \<Longrightarrow>
     job_data (fold (spec_requeued q n) is v) = job_data (fold (spec_requeued q n) is w)"
proof (induction "is" arbitrary: v w)
  case (Cons i "is")
  from Cons.IH [OF spec_requeued_cong [OF Cons.prems]] show ?case by simp
qed simp

lemma vwp_requeue_one:
  "vwp any_state (requeue_one bus name i) (\<lambda>r w. \<forall>x. r = Inr x \<longrightarrow> job_data w = job_data (spec_requeued name 1 i v)) v"
  apply (simp add: requeue_one_def route_defs vwp_rules)
  apply (auto simp: job_data_def spec_requeued_def reset_hash_def move_from_dlq_def Let_def map_add_def)
  done

text \<open>The counts add up; where nothing failed every job was moved, in the order of the list.\<close>
definition requeued_all :: "string \<Rightarrow> string list \<Rightarrow> store \<Rightarrow> int \<Rightarrow> int \<Rightarrow> int \<times> int \<Rightarrow> store \<Rightarrow> bool" where
  "requeued_all name is v n m ab w \<longleftrightarrow> (case ab of (a, b) \<Rightarrow>
     a + b = n + m + int (length is) \<and> n \<le> a \<and> m \<le> b \<and>
     (b = m \<longrightarrow> job_data w = job_data (fold (spec_requeued name 1) is v)))"

lemma vwp_requeue_dead:
  "vwp any_state (requeue_all bus name is n m) (\<lambda>r w. \<exists>ab. r = Inr ab \<and> requeued_all name is v n m ab w) v"
proof (induction "is" arbitrary: n m v)
  case Nil
  show ?case by (simp add: requeued_all_def)
next
  case (Cons i "is")
  show ?case
    apply simp
    apply (rule vwp_mono [OF vwp_requeue_one [where v = v]])
     apply simp
    subgoal for r w
      apply (cases r)
       apply simp
       apply (rule vwp_mono [OF Cons.IH])
        apply (auto simp: requeued_all_def) [2]
      apply simp
      apply (rule vwp_mono [OF Cons.IH])
       apply (auto simp: requeued_all_def dest: fold_requeued_cong [of _ _ name 1 "is"])
      done
    done
qed

text \<open>The ids a requeue request is about.\<close>
definition requested_ids :: "string \<Rightarrow> requeue_body \<Rightarrow> store \<Rightarrow> string list option" where
  "requested_ids name body v = (if rb_all body then Some (s_lists v (dlq_key name)) else rb_jobIds body)"

text \<open>C22: a requeue request answers 400, changing nothing, exactly when it names no jobs; else its two
  counts add up to the number of jobs, and where none failed every job has been reset and moved
  from the dead letter list to the list of its priority, one after the other.\<close>
theorem requeue_dlq_correct:
  assumes "backend exec view" and "run exec (requeue_dlq bus name body) s = (r, s')"
  shows "\<exists>resp. r = Inr resp \<and> reply_status resp \<in> {200, 400, 500} \<and>
    (reply_status resp = 400 \<longleftrightarrow> requested_ids name body (view s) = None) \<and>
    (reply_status resp \<in> {400, 500} \<longrightarrow> view s' = view s) \<and>
    (reply_status resp = 200 \<longrightarrow> (\<exists>is n m. requested_ids name body (view s) = Some is \<and>
       resp = Reply 200 (JObj [(''requeued'', JNum (of_int n)), (''failed'', JNum (of_int m))]) \<and>
       0 \<le> n \<and> 0 \<le> m \<and> n + m = int (length is) \<and>
       (m = 0 \<longrightarrow> job_data (view s') = job_data (fold (spec_requeued name 1) is (view s)))))"
  apply (rule backend.run_post [OF assms])
  apply (simp add: requeue_dlq_def or_next_def vwp_rules requested_ids_def split: option.splits)
  apply (intro conjI impI allI)
     apply (rule vwp_mono [OF vwp_requeue_dead]; fastforce simp: requeued_all_def)+
  done

subsection \<open>Statistics of the queues\<close>

lemma fold_stats_row:
  "distinct (map fst cs) \<Longrightarrow> fold stats_row cs (c, f, d) =
     (nullish (map_of cs Completed) c, nullish (map_of cs Failed) f, nullish (map_of cs Dlq) d)"
proof (induction cs arbitrary: c f d)
  case (Cons x cs)
  obtain st n where x: "x = (st, n)" by fastforce
  from Cons.prems have none: "map_of cs st = None" by (auto simp: x map_of_None_iff)
  have "nullish (map_of cs st) y = y" for y by (simp only: none nullish_simps)
  with Cons show ?case by (cases st) (simp_all add: x)
qed simp

definition count_rows :: "store \<Rightarrow> string \<Rightarrow> job_status \<Rightarrow> int" where
  "count_rows v q st = int (card (rows_matching v q (Some st)))"

lemma group_count:
  assumes "pg_allowed (PgGroup q sts) v (RCounts cs)" and "st \<in> set sts"
  shows "nullish (map_of cs st) 0 = count_rows v q st"
proof (cases "rows_matching v q (Some st) = {}")
  case True
  with assms(1) have "map_of cs st = None" by (auto simp: map_of_None_iff image_image)
  with True show ?thesis by (simp add: count_rows_def)
next
  case False
  with assms have "(st, count_rows v q st) \<in> set cs" by (auto simp: count_rows_def)
  with assms(1) show ?thesis by simp
qed

text \<open>What \<open>GET /queues\<close> should say of a queue.\<close>
definition stats_of :: "store \<Rightarrow> string \<Rightarrow> queue_stats" where
  "stats_of v q = \<lparr>qs_name = q,
     qs_pending = int (length (s_lists v (queue_key q)) + length (s_lists v (queuePriority_key q ''high''))
       + length (s_lists v (queuePriority_key q ''low''))),
     qs_active = count_rows v q Active, qs_completed = count_rows v q Completed,
     qs_failed = count_rows v q Failed, qs_dlq = count_rows v q Dlq\<rparr>"

lemma vwp_read_queue_stats: "vwp any_state (read_queue_stats q) (answers v (\<lambda>st. st = stats_of v q)) v"
  apply (simp add: read_queue_stats_def vwp_rules del: pg_allowed.simps)
  apply (intro allI impI)
  subgoal for cs
    using group_count [of q "[Completed, Failed, Dlq]" v cs] fold_stats_row [of cs 0 0 0]
    by (simp add: stats_of_def count_rows_def) 
  done

text \<open>One entry per registered queue, in an order Redis may give.\<close>
definition queues_answer :: "store \<Rightarrow> response \<Rightarrow> bool" where
  "queues_answer v resp \<longleftrightarrow> reply_status resp = 500 \<or>
     (\<exists>names. distinct names \<and> set names = s_sets v queueRegistry_key \<and>
        resp = Reply 200 (JObj [(''queues'', JArr (map (\<lambda>q. queue_stats_json (stats_of v q)) names))]))"

lemma vwp_get_queues: "vwp any_state get_queues (\<lambda>r u. u = v \<and> (\<exists>resp. r = Inr resp \<and> queues_answer v resp)) v"
  apply (simp add: get_queues_def or_next_def vwp_rules queues_answer_def)
  apply (intro allI impI)
  apply (rule answersE [OF vwp_map_prog [OF vwp_read_queue_stats]])
    apply (auto simp: list_all2_eq_map)
  done

text \<open>The answer of \<open>GET /queues\<close> has one entry per registered queue, whose numbers are the lengths
  of its three lists and the counts of its rows by status; it changes nothing.\<close>
theorem get_queues_correct:
  assumes "backend exec view" and "run exec get_queues s = (r, s')"
  shows "view s' = view s \<and> (\<exists>resp. r = Inr resp \<and> (reply_status resp = 500 \<or>
    (\<exists>names. distinct names \<and> set names = s_sets (view s) queueRegistry_key \<and>
       resp = Reply 200 (JObj [(''queues'', JArr (map (\<lambda>q. queue_stats_json (stats_of (view s) q)) names))]))))"
  using backend.run_post [OF assms vwp_get_queues] unfolding queues_answer_def .

subsection \<open>The registered workers\<close>

text \<open>What \<open>GET /workers\<close> should say of a worker.\<close>
definition info_of :: "store \<Rightarrow> string \<Rightarrow> worker_info" where
  "info_of v i =
     (let meta = s_hashes v (workerMeta_key i); beat = live_str v (heartbeat_key i)
      in \<lparr>wi_id = i, wi_status = nullish (meta ''status'') ''unknown'', wi_queue = nullish (meta ''queue'') [],
          wi_startedAt = meta ''startedAt'',
          wi_currentJobs = (case meta ''currentJobs'' of None \<Rightarrow> Num 0 | Some x \<Rightarrow> js_Number x),
          wi_lastHeartbeat = (if truthy beat then Some (js_Number (nullish beat [])) else None)\<rparr>)"

lemma vwp_read_worker: "vwp any_state (read_worker i) (answers v (\<lambda>w. w = info_of v i)) v"
  by (simp add: read_worker_def vwp_rules info_of_def Let_def split: option.splits)

definition workers_answer :: "store \<Rightarrow> response \<Rightarrow> bool" where
  "workers_answer v resp \<longleftrightarrow> reply_status resp = 500 \<or>
     (\<exists>names. distinct names \<and> set names = s_sets v workerRegistry_key \<and>
        resp = Reply 200 (JObj [(''workers'', JArr (map (\<lambda>i. worker_info_json (info_of v i)) names))]))"

lemma vwp_get_workers: "vwp any_state get_workers (\<lambda>r u. u = v \<and> (\<exists>resp. r = Inr resp \<and> workers_answer v resp)) v"
  apply (simp add: get_workers_def or_next_def vwp_rules workers_answer_def)
  apply (intro allI impI)
  apply (rule answersE [OF vwp_map_prog [OF vwp_read_worker]])
    apply (auto simp: list_all2_eq_map)
  done

subsection \<open>Pages\<close>

text \<open>The rows of a queue, newest first, in an order the database may give.\<close>
definition newest_first :: "store \<Rightarrow> string \<Rightarrow> job_status option \<Rightarrow> (string \<times> job_row) list \<Rightarrow> bool" where
  "newest_first v q st all \<longleftrightarrow> distinct (map fst all) \<and>
     set all = {(i, w). s_rows v i = Some w \<and> r_queue_name w = q \<and> (st = None \<or> st = Some (r_status w))} \<and>
     sorted (rev (map (\<lambda>x. r_created_at (snd x)) all))"

lemma page_rows:
  assumes "pg_allowed (PgPage q st n k) v (RRows rows)"
  shows "0 \<le> n \<and> 0 \<le> k \<and> (\<exists>all. newest_first v q st all \<and> rows = take (nat n) (drop (nat k) all))"
proof -
  from assms obtain all where all: "distinct (map fst all)" "set (map fst all) = rows_matching v q st"
      "\<forall>(i, w) \<in> set all. s_rows v i = Some w" "sorted (rev (map (\<lambda>x. r_created_at (snd x)) all))"
      "rows = take (nat n) (drop (nat k) all)" and nk: "0 \<le> n" "0 \<le> k"
    by auto
  have "set all = {(i, w). s_rows v i = Some w \<and> r_queue_name w = q \<and> (st = None \<or> st = Some (r_status w))}"
  proof (intro set_eqI iffI)
    fix x assume x: "x \<in> set all"
    then have "fst x \<in> rows_matching v q st" using all(2) by auto
    with x all(3) show "x \<in> {(i, w). s_rows v i = Some w \<and> r_queue_name w = q \<and> (st = None \<or> st = Some (r_status w))}"
      by (cases x; cases st) (auto simp: rows_matching_def)
  next
    fix x assume x: "x \<in> {(i, w). s_rows v i = Some w \<and> r_queue_name w = q \<and> (st = None \<or> st = Some (r_status w))}"
    then have "fst x \<in> rows_matching v q st" by (cases st) (auto simp: rows_matching_def)
    then obtain w where "(fst x, w) \<in> set all" using all(2) by force
    with x all(3) show "x \<in> set all" by force
  qed
  with all nk show ?thesis by (auto simp: newest_first_def)
qed

lemma newest_first_count:
  assumes "newest_first v q st all"
  shows "card (rows_matching v q st) = length all"
proof -
  have "rows_matching v q st = set (map fst all)"
    using assms by (cases st) (force simp: newest_first_def rows_matching_def)+
  with assms show ?thesis using distinct_card [of "map fst all"] by (simp add: newest_first_def)
qed

lemma status_of_str_None: "status_of_str x = None \<longleftrightarrow> x \<notin> set validStatuses"
  by (simp add: validStatuses_def)

lemma vwp_as_integer:
  "vwp I (as_integer x) Q v \<longleftrightarrow> I v \<and>
     (\<forall>n. x = Num (of_int n) \<longrightarrow> Q (Inr n) v) \<and>
     ((\<forall>n. x \<noteq> Num (of_int n)) \<longrightarrow> Q (Inl (JsError ''value is not an integer'')) v)"
proof (cases x)
  case (Num q)
  show ?thesis
  proof (cases "of_int \<lfloor>q\<rfloor> = q")
    case True
    then obtain n where "q = of_int n" by metis
    then show ?thesis by (auto simp: as_integer_def Num)
  qed (auto simp: as_integer_def Num)
qed (auto simp: as_integer_def)

lemma page_limit_le: "page_limit req = Num (of_int n) \<Longrightarrow> n \<le> 200"
proof -
  assume "page_limit req = Num (of_int n)"
  then have "(of_int n :: rat) \<le> of_int 200"
    by (cases "number_or (rq_query req ''limit'') 50") (auto simp: page_limit_def)
  then show "n \<le> 200" by (simp only: of_int_le_iff)
qed

text \<open>The filter a \<open>status\<close> parameter asks for.\<close>
definition status_filter :: "request \<Rightarrow> job_status option" where
  "status_filter req = (if truthy (rq_query req ''status'') then status_of_str (nullish (rq_query req ''status'') '''') else None)"

text \<open>What the page of jobs answers.\<close>
definition jobs_answer :: "store \<Rightarrow> string \<Rightarrow> request \<Rightarrow> err + response \<Rightarrow> store \<Rightarrow> bool" where
  "jobs_answer v q req r u \<longleftrightarrow> u = v \<and> (\<exists>resp. r = Inr resp \<and> reply_status resp \<in> {200, 400, 500} \<and>
    (reply_status resp = 400 \<longleftrightarrow> truthy (rq_query req ''status'') \<and> status_filter req = None) \<and>
    (reply_status resp = 200 \<longrightarrow> (\<exists>n k all.
       page_limit req = Num (of_int n) \<and> page_offset req = Num (of_int k) \<and> 0 \<le> n \<and> n \<le> 200 \<and> 0 \<le> k \<and>
       newest_first v q (status_filter req) all \<and>
       resp = Reply 200 (JObj [(''jobs'', JArr (map row_json (take (nat n) (drop (nat k) all)))),
         (''total'', JNum (of_nat (length all)))]))))"

lemma vwp_get_queue_jobs: "vwp any_state (get_queue_jobs q req) (jobs_answer v q req) v"
  unfolding jobs_answer_def
  apply (simp add: get_queue_jobs_def or_next_def vwp_rules vwp_as_integer Let_def error_body_def status_filter_def
      status_of_str_None [symmetric] del: status_of_str.simps pg_allowed.simps)
  apply (auto dest!: page_rows simp: page_limit_le simp del: status_of_str.simps pg_allowed.simps)
   apply (rule exI, intro conjI, assumption, rule refl, erule newest_first_count)+
  done

text \<open>A page of jobs that is answered holds the rows of the queue and status asked for, newest
  first, from the offset, at most the limit and never more than 200, with the number of all such
  rows; a status that is none of the six is a 400, a negative or fractional limit or offset an
  error.\<close>
theorem get_queue_jobs_correct:
  assumes "backend exec view" and "run exec (get_queue_jobs q req) s = (r, s')"
  shows "view s' = view s \<and> (\<exists>resp. r = Inr resp \<and> reply_status resp \<in> {200, 400, 500} \<and>
    (reply_status resp = 400 \<longleftrightarrow> truthy (rq_query req ''status'') \<and> status_filter req = None) \<and>
    (reply_status resp = 200 \<longrightarrow> (\<exists>n k all.
       page_limit req = Num (of_int n) \<and> page_offset req = Num (of_int k) \<and> 0 \<le> n \<and> n \<le> 200 \<and> 0 \<le> k \<and>
       newest_first (view s) q (status_filter req) all \<and>
       resp = Reply 200 (JObj [(''jobs'', JArr (map row_json (take (nat n) (drop (nat k) all)))),
         (''total'', JNum (of_nat (length all)))]))))"
  using backend.run_post [OF assms vwp_get_queue_jobs] by (simp add: jobs_answer_def)

lemma lrange_page:
  assumes "0 < n" and "0 \<le> k"
  shows "lrange k (k + n - 1) xs = take (nat n) (drop (nat k) xs)"
proof -
  have "nat (min (k + n - 1) (int (length xs) - 1) - k + 1) = min (nat n) (length xs - nat k)"
    if "k < int (length xs)" using assms that by linarith
  with assms show ?thesis by (auto simp: lrange_def Let_def min_def)
qed

lemma lrange_but_one: "lrange 0 (- 2) xs = butlast xs"
  by (cases xs rule: rev_cases) (auto simp: lrange_def Let_def)

lemma page_end:
  assumes "js_sub (js_add (Num (of_int k)) x) (Num 1) = Num (of_int j)"
  shows "\<exists>n. x = Num (of_int n) \<and> j = k + n - 1"
proof (cases x)
  case (Num y)
  with assms have "y = of_int (j - k + 1)" by simp
  with Num show ?thesis by (intro exI [of _ "j - k + 1"]) simp
qed (use assms in \<open>simp add: js_sub_def\<close>)

lemma vwp_dlq_entry:
  "vwp any_state (dlq_entry q i) (answers v (\<lambda>j. \<exists>p. dlq_payload (s_hashes v (job_key i)) = Some p \<and>
     j = dlq_entry_json q i (s_hashes v (job_key i)) p)) v"
  by (simp add: dlq_entry_def vwp_rules split: option.splits)

text \<open>What the dead letter page answers.\<close>
definition dlq_answer :: "store \<Rightarrow> string \<Rightarrow> request \<Rightarrow> err + response \<Rightarrow> store \<Rightarrow> bool" where
  "dlq_answer v q req r u \<longleftrightarrow> u = v \<and> (\<exists>resp. r = Inr resp \<and> (reply_status resp = 500 \<or>
    (\<exists>n k is js. page_limit req = Num (of_int n) \<and> page_offset req = Num (of_int k) \<and>
       resp = Reply 200 (JObj [(''jobs'', JArr js), (''total'', JNum (of_nat (length (s_lists v (dlq_key q)))))]) \<and>
       list_all2 (\<lambda>i j. \<exists>p. dlq_payload (s_hashes v (job_key i)) = Some p \<and>
         j = dlq_entry_json q i (s_hashes v (job_key i)) p) is js \<and>
       (0 < n \<longrightarrow> 0 \<le> k \<longrightarrow> is = take (nat n) (drop (nat k) (s_lists v (dlq_key q))) \<and> length is \<le> 200) \<and>
       (n = - 1 \<longrightarrow> k = 0 \<longrightarrow> is = butlast (s_lists v (dlq_key q))))))"

lemma vwp_get_dlq: "vwp any_state (get_dlq q req) (dlq_answer v q req) v"
  unfolding dlq_answer_def
  apply (simp add: get_dlq_def or_next_def vwp_rules vwp_as_integer)
  apply (intro conjI allI impI)
  subgoal for k j
    apply (drule page_end)
    apply (elim exE conjE)
    subgoal for n
      apply (rule answersE [OF vwp_map_prog [OF vwp_dlq_entry]])
        apply simp_all
      apply (rule exI, rule conjI, assumption)
      using page_limit_le [of req n] by (auto simp: lrange_page lrange_but_one)
    done
  done

text \<open>The dead letter page answers with the length of the list and, for a positive limit and an
  offset that is not negative, with the entries from the offset, at most 200; a limit of \<open>-1\<close>
  goes past that cap, to every entry but the last.\<close>
theorem get_dlq_correct:
  assumes "backend exec view" and "run exec (get_dlq q req) s = (r, s')"
  defines "dlq \<equiv> s_lists (view s) (dlq_key q)"
  shows "view s' = view s \<and> (\<exists>resp. r = Inr resp \<and> (reply_status resp = 500 \<or>
    (\<exists>n k is js. page_limit req = Num (of_int n) \<and> page_offset req = Num (of_int k) \<and>
       resp = Reply 200 (JObj [(''jobs'', JArr js), (''total'', JNum (of_nat (length dlq)))]) \<and>
       list_all2 (\<lambda>i j. \<exists>p. dlq_payload (s_hashes (view s) (job_key i)) = Some p \<and>
         j = dlq_entry_json q i (s_hashes (view s) (job_key i)) p) is js \<and>
       (0 < n \<longrightarrow> 0 \<le> k \<longrightarrow> is = take (nat n) (drop (nat k) dlq) \<and> length is \<le> 200) \<and>
       (n = - 1 \<longrightarrow> k = 0 \<longrightarrow> is = butlast dlq))))"
  using backend.run_post [OF assms(1,2) vwp_get_dlq] by (simp add: dlq_answer_def dlq_def)

subsection \<open>Submitting a job\<close>

lemma zod_members:
  assumes "zod_contract zp" and "zp enqueueBodySchema body = Inr v"
  shows "schema_accepts enqueueBodySchema body"
    "\<And>k. k \<in> fst ` set enqueueBodySchema \<Longrightarrow> member k v = member k body"
  using assms unfolding zod_contract_def by (force split: sum.splits)+

lemma zod_body:
  assumes "zod_contract zp" and "zp enqueueBodySchema body = Inr v"
  shows "body_options v = body_options body" "member ''jobName'' v = member ''jobName'' body"
    "member ''payload'' v = member ''payload'' body" "member ''queue'' v = member ''queue'' body"
    "member ''priority'' v = member ''priority'' body"
  using zod_members(2) [OF assms] by (simp_all add: enqueueBodySchema_def body_options_def)

lemma zod_refuses:
  assumes "zod_contract zp" and "zp enqueueBodySchema body = Inl issues"
  shows "\<not> schema_accepts enqueueBodySchema body"
  using assms unfolding zod_contract_def by (force split: sum.splits)

lemma key_known_Some:
  "o_idempotencyKey opts = Some k \<Longrightarrow>
     key_known v opts \<longleftrightarrow> k \<noteq> [] \<and> (\<exists>i. live_str v (idempotency_key k) = Some i \<and> i \<noteq> [])"
  by (simp add: key_known_def)

text \<open>C20: \<open>POST /jobs\<close> answers 400, changing nothing, exactly on the bodies its schema refuses; an
  accepted body that is answered 201 has created one job under a fresh id, as the body says, or,
  where its idempotency key was known, has changed no job.\<close>
theorem post_jobs_correct:
  assumes "backend exec view" and "zod_contract zp"
    and "run exec (post_jobs zp bus req) s = (r, s')"
  defines "body \<equiv> rq_body req"
  defines "opts \<equiv> body_options body" and "name \<equiv> nullish (json_string (member ''jobName'' body)) ''''"
  shows "\<exists>resp. r = Inr resp \<and>
    (if \<not> schema_accepts enqueueBodySchema body then reply_status resp = 400 \<and> view s' = view s
     else reply_status resp = 500 \<or> (\<exists>i. resp = Reply 201 (JObj [(''jobId'', JStr i)]) \<and>
       (if key_known (view s) opts then job_data (view s') = job_data (view s)
        else s_rows (view s) i = None \<and> (\<exists>p t. member ''payload'' body = Some p \<and> s_clock (view s) \<le> t \<and>
          (case opt_delay opts of
             None \<Rightarrow> job_data (view s') = job_data (spec_immediate i name p opts t (view s))
           | Some d \<Rightarrow> \<exists>t' \<ge> t. job_data (view s') = job_data (spec_delayed i name p opts (t' + d) t t' (view s)))))))"
proof (cases "zp enqueueBodySchema body")
  case (Inl issues)
  with assms(3) have "r = Inr (Reply 400 (JObj [(''error'', JStr ''invalid_request''), (''issues'', issues)]))" "s' = s"
    by (simp_all add: post_jobs_def body_def)
  with zod_refuses [OF assms(2) Inl] show ?thesis by simp
next
  case (Inr v)
  note z = zod_body [OF assms(2) Inr] zod_members(1) [OF assms(2) Inr]
  show ?thesis
    unfolding opts_def name_def body_def
    apply (rule backend.run_post [OF assms(1,3)])
    apply (simp add: post_jobs_def Inr [unfolded body_def] z [unfolded body_def] or_next_def enqueue_vwp vwp_rules
        incrementEnqueued_def Let_def split: option.splits)
    apply (auto simp: enqueue_spec default_row_def job_data_def Let_def key_known_Some)
         apply ((intro exI conjI, assumption+, (rule refl)+)+)
    done
qed

subsection \<open>Requests without credentials\<close>

lemma find_route_in: "find_route m path rs = Some (g, e, ps) \<Longrightarrow> \<exists>pat. (m, pat, g, e) \<in> set rs"
  by (induction m path rs rule: find_route.induct) (auto split: option.splits if_splits)

lemma open_endpoints:
  "find_route m path (buildRouter redis) = Some (Open, e, ps) \<Longrightarrow> e \<in> {HealthE, MetricsE, LoginE, GetJobE}"
  by (drule find_route_in) (auto simp: buildRouter_def split: if_splits)

lemma apiKey_refusal: "apiKeyMiddleware env req \<noteq> Next \<Longrightarrow> apiKeyMiddleware env req = Respond bad_api_key"
  by (auto simp: apiKeyMiddleware_def Let_def split: if_splits)

lemma jwt_refusal:
  "jwtMiddleware verify env t req \<noteq> Next \<Longrightarrow> \<exists>b. jwtMiddleware verify env t req = Respond (Reply 401 b)"
  by (auto simp: jwtMiddleware_def Let_def split: if_splits option.splits)


subsection \<open>A failure half-way\<close>

text \<open>A dead job of queue \<open>q\<close>.\<close>
definition mem_dead :: mem where
  "mem_dead = (mem_empty 5000)\<lparr>m_lists := (\<lambda>k. if k = dlq_key ''q'' then [''j''] else []),
     m_rows := [(''j'', (default_row ''q'' ''greet'' (Some ''1'') Dlq)\<lparr>r_attempts := 3\<rparr>)]\<rparr>"

definition hgetall_down :: "call \<Rightarrow> bool" where
  "hgetall_down c = (case c of Redis (HGETALL k) \<Rightarrow> True | _ \<Rightarrow> False)"

lemmas requeue_eval = run_eval requeue_dlq_def or_next_def requeue_one_def route_defs markJobPendingForRetry_def

text \<open>A requeue of a dead job whose \<open>HGETALL\<close> fails has already removed the job from the dead
  letter list and pushes it nowhere: the answer counts it as failed, and no list, delayed set or
  later requeue of all has it any more.\<close>
theorem requeue_error_loses_job:
  "visible (mem_view mem_dead) ''j'' \<and>
   (\<exists>m. run (mem_exec hgetall_down) (requeue_dlq True ''q'' \<lparr>rb_jobIds = None, rb_all = True\<rparr>) mem_dead =
      (Inr (Reply 200 (JObj [(''requeued'', JNum 0), (''failed'', JNum 1)])), m) \<and> \<not> visible (mem_view m) ''j'')"
proof
  show "visible (mem_view mem_dead) ''j''"
    by (rule visible_listI [of _ _ "dlq_key ''q''"]) (simp add: mem_dead_def)
  show "\<exists>m. run (mem_exec hgetall_down) (requeue_dlq True ''q'' \<lparr>rb_jobIds = None, rb_all = True\<rparr>) mem_dead =
      (Inr (Reply 200 (JObj [(''requeued'', JNum 0), (''failed'', JNum 1)])), m) \<and> \<not> visible (mem_view m) ''j''"
    by (simp add: requeue_eval mem_dead_def hgetall_down_def visible_def in_list_def in_zset_def cong: run_congs)
qed

subsection \<open>Instances\<close>

lemma retry_example: "fst (run (mem_exec no_faults) (retry_job True ''j'') mem_dead) = Inr (Reply 200 (JObj [(''success'', JBool True)]))"
  by (simp add: requeue_eval retry_job_def getJob_def job_of_row_def mem_dead_def cong: run_congs)

theorem retry_job_correct_witness:
  "job_data (mem_view (snd (run (mem_exec no_faults) (retry_job True ''j'') mem_dead))) =
     job_data (spec_requeued ''q'' 0 ''j'' (mem_view mem_dead))"
  using retry_job_correct [OF mem_backend run_fst [OF retry_example]]
  by (simp add: mem_dead_def default_row_def)

lemma requeue_example:
  "fst (run (mem_exec no_faults) (requeue_dlq True ''q'' \<lparr>rb_jobIds = None, rb_all = True\<rparr>) mem_dead) =
     Inr (Reply 200 (JObj [(''requeued'', JNum 1), (''failed'', JNum 0)]))"
  by (simp add: requeue_eval mem_dead_def cong: run_congs)

theorem requeue_dlq_correct_witness:
  "job_data (mem_view (snd (run (mem_exec no_faults) (requeue_dlq True ''q'' \<lparr>rb_jobIds = None, rb_all = True\<rparr>) mem_dead))) =
     job_data (spec_requeued ''q'' 1 ''j'' (mem_view mem_dead))"
  using requeue_dlq_correct [OF mem_backend run_fst [OF requeue_example]]
  by (auto simp: requested_ids_def mem_dead_def)

theorem get_queues_correct_witness:
  "\<exists>r m. run (mem_exec no_faults) get_queues mem_dead = (r, m) \<and> mem_view m = mem_view mem_dead"
proof -
  obtain r m where rm: "run (mem_exec no_faults) get_queues mem_dead = (r, m)" by fastforce
  with get_queues_correct [OF mem_backend rm] show ?thesis by blast
qed

text \<open>A request without headers, with one query parameter and a JSON body.\<close>
definition plain_request :: "string \<Rightarrow> string \<Rightarrow> json \<Rightarrow> request" where
  "plain_request k x body = \<lparr>rq_authorization = None, rq_xApiKey = None, rq_query = [k \<mapsto> x], rq_body = body\<rparr>"

theorem get_queue_jobs_correct_witness:
  "\<exists>r m resp. run (mem_exec no_faults) (get_queue_jobs ''q'' (plain_request ''status'' ''lost'' JNull)) mem_dead = (r, m) \<and>
     r = Inr resp \<and> reply_status resp = 400"
proof -
  obtain r m where rm: "run (mem_exec no_faults) (get_queue_jobs ''q'' (plain_request ''status'' ''lost'' JNull)) mem_dead = (r, m)"
    by fastforce
  with get_queue_jobs_correct [OF mem_backend rm] show ?thesis
    by (auto simp: plain_request_def status_filter_def)
qed

theorem get_dlq_correct_witness:
  "\<exists>r m. run (mem_exec no_faults) (get_dlq ''q'' (plain_request ''limit'' ''-1'' JNull)) mem_dead = (r, m) \<and>
     mem_view m = mem_view mem_dead"
proof -
  obtain r m where rm: "run (mem_exec no_faults) (get_dlq ''q'' (plain_request ''limit'' ''-1'' JNull)) mem_dead = (r, m)"
    by fastforce
  with get_dlq_correct [OF mem_backend rm] show ?thesis by blast
qed

text \<open>A parser that keeps the contract: it hands the body on where the schema accepts it.\<close>
definition demo_zod :: "zobject \<Rightarrow> json \<Rightarrow> json + json" where
  "demo_zod sch body = (if schema_accepts sch body then Inr body else Inl JNull)"

lemma demo_zod_ok: "zod_contract demo_zod"
  by (auto simp: zod_contract_def demo_zod_def)

definition job_body :: json where
  "job_body = JObj [(''jobName'', JStr ''greet''), (''payload'', JNum 1), (''priority'', JStr ''high'')]"

lemmas post_eval = run_eval enqueue_defs post_jobs_def or_next_def incrementEnqueued_def demo_zod_def
  schema_accepts_def enqueueBodySchema_def plain_request_def job_body_def body_options_def opt_delay_def

lemma post_example:
  "fst (run (mem_exec no_faults) (post_jobs demo_zod True (plain_request ''k'' ''x'' job_body)) (mem_empty 5000)) =
     Inr (Reply 201 (JObj [(''jobId'', JStr ''u'')]))"
  by (simp add: post_eval cong: run_congs)

lemma job_body_facts:
  "rq_body (plain_request k x body) = body" "schema_accepts enqueueBodySchema job_body"
  "nullish (json_string (member ''jobName'' job_body)) '''' = ''greet''"
  "opt_delay (body_options job_body) = None" "m_clock (mem_empty t) = t"
  by (simp_all add: plain_request_def job_body_def schema_accepts_def enqueueBodySchema_def body_options_def
      opt_delay_def mem_empty_def)

theorem post_jobs_correct_witness:
  "\<exists>t p. 5000 \<le> t \<and> job_data (mem_view (snd (run (mem_exec no_faults) (post_jobs demo_zod True (plain_request ''k'' ''x'' job_body)) (mem_empty 5000)))) =
     job_data (spec_immediate ''u'' ''greet'' p (body_options job_body) t (mem_view (mem_empty 5000)))"
  using post_jobs_correct [OF mem_backend demo_zod_ok run_fst [OF post_example]]
  by (auto simp: job_body_facts)

definition no_deps :: router_deps where
  "no_deps = \<lparr>rd_zod = demo_zod, rd_bytes = no_bytes, rd_sign = demo_sign, rd_verify = demo_verify,
     rd_metrics = JNull, rd_eventBus = True, rd_redis = True\<rparr>"


end
