(* ===== verification/Concurrency.thy ===== *)
theory Concurrency
  imports Mem_Backend
begin

text \<open>
  Several programs at once.  Servers, workers, schedulers and janitors are processes that
  share the services, and within one process the event loop interleaves the handlers between
  their \<open>await\<close>s.  A pool is a list of programs; a step is one external call of one of them,
  or the start of a further program.

  To show an invariant of every interleaving, each program is checked on its own against a
  discipline: it keeps a ghost \<open>'k\<close> (what it knows, what it owes), may only issue the calls
  its ghost allows (\<open>ok\<close>) and updates it by the answers (\<open>upd\<close>).  The locale
  \<open>discipline\<close> shows once that a relation between all ghosts and the store which every
  allowed call keeps holds in every reachable pool.
\<close>

subsection \<open>Pools\<close>

inductive pool_step ::
  "'s service \<Rightarrow> 'a prog set \<Rightarrow> 'a prog list \<times> 's \<Rightarrow> 'a prog list \<times> 's \<Rightarrow> bool"
  for X :: "'s service" and P :: "'a prog set" where
  Step: "n < length ps \<Longrightarrow> ps ! n = Call c k \<Longrightarrow> X c s = (r, s') \<Longrightarrow> pool_step X P (ps, s) (ps[n := k r], s')"
| Spawn: "p \<in> P \<Longrightarrow> pool_step X P (ps, s) (ps @ [p], s)"

inductive_cases pool_stepE: "pool_step X P (ps, s) (qs, t)"

abbreviation pool_reach :: "'s service \<Rightarrow> 'a prog set \<Rightarrow> 'a prog list \<times> 's \<Rightarrow> 'a prog list \<times> 's \<Rightarrow> bool" where
  "pool_reach X P \<equiv> (pool_step X P)\<^sup>*\<^sup>*"

text \<open>One schedule: which program makes the next call.  A program that has ended stays as it is.\<close>
fun run_pool :: "'s service \<Rightarrow> nat list \<Rightarrow> 'a prog list \<Rightarrow> 's \<Rightarrow> 'a prog list \<times> 's" where
  "run_pool X [] ps s = (ps, s)"
| "run_pool X (n # ns) ps s =
     (case ps ! n of
        Call c k \<Rightarrow> (case X c s of (r, s') \<Rightarrow> run_pool X ns (ps[n := k r]) s')
      | _ \<Rightarrow> run_pool X ns ps s)"

lemma run_pool_reach:
  assumes "\<forall>n \<in> set ns. n < length ps"
  shows "pool_reach X P (ps, s) (run_pool X ns ps s)"
  using assms
proof (induction ns arbitrary: ps s)
  case (Cons n ns)
  show ?case
  proof (cases "ps ! n")
    case (Call c k)
    obtain r s' where x: "X c s = (r, s')" by fastforce
    have "pool_step X P (ps, s) (ps[n := k r], s')"
      using Cons.prems Call x by (intro Step) simp_all
    moreover have "pool_reach X P (ps[n := k r], s') (run_pool X ns (ps[n := k r]) s')"
      using Cons.prems by (intro Cons.IH) simp
    ultimately show ?thesis using Call x by simp
  qed (use Cons in simp_all)
qed simp

lemma pool_spawn: "set qs \<subseteq> P \<Longrightarrow> pool_reach X P (ps, s) (ps @ qs, s)"
proof (induction qs arbitrary: ps)
  case (Cons q qs)
  have "pool_step X P (ps, s) (ps @ [q], s)" using Cons.prems by (intro Spawn) simp
  also have "pool_reach X P (ps @ [q], s) ((ps @ [q]) @ qs, s)" using Cons.IH [of "ps @ [q]"] Cons.prems by simp
  finally show ?case by simp
qed simp

lemma run_pool_from_start:
  assumes "set ps \<subseteq> P" and "\<forall>n \<in> set ns. n < length ps"
  shows "pool_reach X P ([], s) (run_pool X ns ps s)"
  using pool_spawn [OF assms(1), of X "[]" s] run_pool_reach [OF assms(2), of X P s] by simp

text \<open>A program that runs without interruption.\<close>
lemma pool_run:
  "n < length ps \<Longrightarrow> ps ! n = p \<Longrightarrow> \<exists>q. pool_reach X P (ps, s) (ps[n := q], snd (run X p s))"
proof (induction p arbitrary: ps s)
  case (Call c k)
  obtain r s' where x: "X c s = (r, s')" by fastforce
  have "pool_step X P (ps, s) (ps[n := k r], s')"
    using Call.prems x by (intro Step) simp_all
  moreover obtain q where "pool_reach X P (ps[n := k r], s') (ps[n := k r, n := q], snd (run X (k r) s'))"
    using Call.IH [OF rangeI, of "ps[n := k r]" r s'] Call.prems by auto
  ultimately show ?case using x by (auto intro: converse_rtranclp_into_rtranclp)
qed (metis list_update_id run.simps snd_conv rtranclp.rtrancl_refl)+

text \<open>For evaluating a schedule: every program is brought to its next call.\<close>
lemmas pool_eval =
  redis_eval_def mem_script_def call_def seqp_def redis_unit_def redis_int_def redis_str_def
  redis_list_def redis_hash_def multi_exec_def pg_query_def pg_row_def pg_count_def pg_page_def pg_group_def
  now_def uuidv4_def sleep_def run_handler_def cron_next_def inc_metric_def
  mem_exec_def mem_empty_def mem_live_def mem_exists_def mem_move_def mem_ids_def mem_fail_def
  fresh_id_def default_row_def Let_def

text \<open>A program run for its effect.\<close>
definition void :: "'a prog \<Rightarrow> unit prog" where
  "void p = await p (\<lambda>_. Ret ())"

lemma void_run [simp]: "snd (run X (void p) s) = snd (run X p s)"
  by (simp add: void_def run_await split: prod.splits sum.splits)

subsection \<open>Disciplines\<close>

primrec disc :: "('k \<Rightarrow> call \<Rightarrow> bool) \<Rightarrow> ('k \<Rightarrow> call \<Rightarrow> err + reply \<Rightarrow> 'k) \<Rightarrow> 'k \<Rightarrow> 'a prog \<Rightarrow>
    (err + 'a \<Rightarrow> 'k \<Rightarrow> bool) \<Rightarrow> bool" where
  "disc ok upd g (Ret a) Q \<longleftrightarrow> Q (Inr a) g"
| "disc ok upd g (Throw e) Q \<longleftrightarrow> Q (Inl e) g"
| "disc ok upd g (Call c k) Q \<longleftrightarrow> ok g c \<and> (\<forall>r. disc ok upd (upd g c r) (k r) Q)"

lemma disc_mono: "disc ok upd g p Q \<Longrightarrow> (\<And>r h. Q r h \<Longrightarrow> R r h) \<Longrightarrow> disc ok upd g p R"
  by (induction p arbitrary: g) simp_all

definition then_disc where
  "then_disc ok upd f Q r g = (case r of Inl e \<Rightarrow> Q (Inl e) g | Inr a \<Rightarrow> disc ok upd g (f a) Q)"

definition catch_disc where
  "catch_disc ok upd h Q r g = (case r of Inl e \<Rightarrow> disc ok upd g (h e) Q | Inr a \<Rightarrow> Q (Inr a) g)"

lemma disc_posts [simp]:
  "then_disc ok upd f Q (Inl e) g = Q (Inl e) g" "then_disc ok upd f Q (Inr a) g = disc ok upd g (f a) Q"
  "catch_disc ok' upd' h Q' (Inl e') g' = disc ok' upd' g' (h e') Q'" "catch_disc ok' upd' h Q' (Inr b) g' = Q' (Inr b) g'"
  by (simp_all add: then_disc_def catch_disc_def)

lemma disc_await [simp]: "disc ok upd g (await p f) Q \<longleftrightarrow> disc ok upd g p (then_disc ok upd f Q)"
  by (induction p arbitrary: g) simp_all

lemma disc_try_catch [simp]: "disc ok upd g (try_catch p h) Q \<longleftrightarrow> disc ok upd g p (catch_disc ok upd h Q)"
  by (induction p arbitrary: g) simp_all

lemma disc_seqp [simp]: "disc ok upd g (seqp p q) Q \<longleftrightarrow> disc ok upd g p (then_disc ok upd (\<lambda>_. q) Q)"
  by (simp add: seqp_def)

lemma disc_call: "disc ok upd g (call c) Q \<longleftrightarrow> ok g c \<and>
    (\<forall>e. Q (Inl e) (upd g c (Inl e))) \<and> (\<forall>x. Q (Inr x) (upd g c (Inr x)))"
  by (auto simp: call_def split: sum.splits)

lemma all_reply:
  "(\<forall>x. P x) \<longleftrightarrow> P RNil \<and> (\<forall>n. P (RInt n)) \<and> (\<forall>ns. P (RInts ns)) \<and> (\<forall>x. P (RStr x)) \<and> (\<forall>xs. P (RList xs)) \<and>
     (\<forall>h. P (RHash h)) \<and> (\<forall>w. P (RRow w)) \<and> (\<forall>ws. P (RRows ws)) \<and> (\<forall>cs. P (RCounts cs))"
  by (metis reply.exhaust)

lemma disc_forEach:
  assumes "\<And>x g. x \<in> set xs \<Longrightarrow> J g \<Longrightarrow>
      disc ok upd g (f x) (\<lambda>r h. case r of Inl e \<Rightarrow> Q (Inl e) h | Inr _ \<Rightarrow> J h)"
    and "J g" and "\<And>h. J h \<Longrightarrow> Q (Inr ()) h"
  shows "disc ok upd g (forEach xs f) Q"
  using assms(1,2)
proof (induction xs arbitrary: g)
  case Nil
  then show ?case using assms(3) by simp
next
  case (Cons x xs)
  have "disc ok upd g (f x) (\<lambda>r h. case r of Inl e \<Rightarrow> Q (Inl e) h | Inr _ \<Rightarrow> J h)"
    using Cons.prems by simp
  then show ?case
    apply simp
    apply (rule disc_mono)
     apply assumption
    subgoal for r h using Cons.IH [of h] Cons.prems(1) by (cases r) simp_all
    done
qed

text \<open>Calls that neither need nor change the ghost.\<close>
lemma disc_neutral:
  assumes "ok g (Redis c)" and "\<And>r. upd g (Redis c) r = g"
  shows "disc ok upd g (redis_unit c) Q1 \<longleftrightarrow> (\<forall>e. Q1 (Inl e) g) \<and> Q1 (Inr ()) g"
    and "disc ok upd g (redis_str c) Q2 \<longleftrightarrow> (\<forall>e. Q2 (Inl e) g) \<and> (\<forall>x. Q2 (Inr x) g)"
    and "disc ok upd g (redis_int c) Q3 \<longleftrightarrow> (\<forall>e. Q3 (Inl e) g) \<and> (\<forall>x. Q3 (Inr x) g)"
    and "disc ok upd g (redis_list c) Q4 \<longleftrightarrow> (\<forall>e. Q4 (Inl e) g) \<and> (\<forall>x. Q4 (Inr x) g)"
    and "disc ok upd g (redis_hash c) Q5 \<longleftrightarrow> (\<forall>e. Q5 (Inl e) g) \<and> (\<forall>x. Q5 (Inr x) g)"
  using assms by (auto simp: redis_unit_def redis_str_def redis_int_def redis_list_def redis_hash_def disc_call
      then_disc_def all_reply split_option_all)

lemma disc_neutral_host:
  assumes "ok g (Host Now)" and "\<And>r. upd g (Host Now) r = g"
  shows "disc ok upd g now Q \<longleftrightarrow> (\<forall>e. Q (Inl e) g) \<and> (\<forall>x. Q (Inr x) g)"
  using assms by (auto simp: now_def disc_call then_disc_def all_reply)

lemma disc_neutral_others:
  "ok g (Pg q) \<Longrightarrow> (\<And>r. upd g (Pg q) r = g) \<Longrightarrow>
     disc ok upd g (pg_query q) Q \<longleftrightarrow> (\<forall>e. Q (Inl e) g) \<and> Q (Inr ()) g"
  "ok g (RedisMulti cs) \<Longrightarrow> (\<And>r. upd g (RedisMulti cs) r = g) \<Longrightarrow>
     disc ok upd g (multi_exec cs) Q \<longleftrightarrow> (\<forall>e. Q (Inl e) g) \<and> Q (Inr ()) g"
  "ok g (Host (CronNext ex)) \<Longrightarrow> (\<And>r. upd g (Host (CronNext ex)) r = g) \<Longrightarrow>
     disc ok upd g (cron_next ex) R \<longleftrightarrow> (\<forall>e. R (Inl e) g) \<and> (\<forall>t. R (Inr t) g)"
  by (auto simp: pg_query_def multi_exec_def cron_next_def disc_call then_disc_def all_reply)

abbreviation no_post :: "err + 'a \<Rightarrow> 'k \<Rightarrow> bool" where
  "no_post \<equiv> \<lambda>_ _. True"

locale discipline = backend exec view
  for exec :: "'s service" and view :: "'s \<Rightarrow> store" +
  fixes ok :: "'k \<Rightarrow> call \<Rightarrow> bool" and upd :: "'k \<Rightarrow> call \<Rightarrow> err + reply \<Rightarrow> 'k"
    and start :: 'k and J :: "'k list \<Rightarrow> store \<Rightarrow> bool"
  assumes ok_call: "J gs v \<Longrightarrow> n < length gs \<Longrightarrow> ok (gs ! n) c \<Longrightarrow> allowed c v x \<Longrightarrow>
      J (gs[n := upd (gs ! n) c (Inr x)]) (effect c x v)"
    and ok_fail: "J gs v \<Longrightarrow> n < length gs \<Longrightarrow> ok (gs ! n) c \<Longrightarrow> fallible c \<Longrightarrow>
      J (gs[n := upd (gs ! n) c (Inl e)]) (fail_effect c v)"
    and ok_spawn: "J gs v \<Longrightarrow> J (gs @ [start]) v"
begin

text \<open>Every program of the pool obeys the discipline with its ghost, and the relation holds.\<close>
definition disciplined :: "(err + 'a \<Rightarrow> 'k \<Rightarrow> bool) \<Rightarrow> 'a prog list \<times> 's \<Rightarrow> bool" where
  "disciplined Q c \<longleftrightarrow> (\<exists>gs. list_all2 (\<lambda>g p. disc ok upd g p Q) gs (fst c) \<and> J gs (view (snd c)))"

lemma disciplined_step:
  assumes "pool_step exec P (ps, s) (qs, t)" and "disciplined Q (ps, s)"
    and "\<And>p. p \<in> P \<Longrightarrow> disc ok upd start p Q"
  shows "disciplined Q (qs, t)"
proof -
  from assms(2) obtain gs where gs: "list_all2 (\<lambda>g p. disc ok upd g p Q) gs ps" "J gs (view s)"
    by (auto simp: disciplined_def)
  from assms(1) show ?thesis
  proof cases
    case (Step n c k r)
    have n: "n < length gs" using gs(1) Step(2) by (simp add: list_all2_lengthD)
    have d: "disc ok upd (gs ! n) (Call c k) Q"
      using list_all2_nthD2 [OF gs(1) Step(2)] Step(3) by simp
    have "J (gs[n := upd (gs ! n) c r]) (view t)"
    proof (cases r)
      case (Inl e)
      then show ?thesis using exec_fail [of c s e t] Step(4) ok_fail [OF gs(2) n] d by auto
    next
      case (Inr x)
      then show ?thesis using exec_ok [of c s x t] Step(4) ok_call [OF gs(2) n] d by auto
    qed
    moreover have "list_all2 (\<lambda>g p. disc ok upd g p Q) (gs[n := upd (gs ! n) c r]) qs"
      using gs(1) d Step(1) by (auto intro: list_all2_update_cong)
    ultimately show ?thesis by (auto simp: disciplined_def)
  next
    case (Spawn p)
    have "list_all2 (\<lambda>g p. disc ok upd g p Q) (gs @ [start]) (ps @ [p])"
      using gs(1) assms(3) Spawn by (auto intro: list_all2_appendI)
    then show ?thesis using gs(2) ok_spawn Spawn by (auto simp: disciplined_def)
  qed
qed

lemma disciplined_reach:
  assumes "pool_reach exec P c d" and "disciplined Q c"
    and "\<And>p. p \<in> P \<Longrightarrow> disc ok upd start p Q"
  shows "disciplined Q d"
  using assms(1,2)
proof (induction rule: rtranclp_induct)
  case (step x y)
  then show ?case using disciplined_step [of P "fst x" "snd x" "fst y" "snd y"] assms(3) by simp
qed

text \<open>From the empty pool: every program is started by some process.\<close>
lemma reach_disc:
  assumes "pool_reach exec P ([], s) (ps, t)" and "J [] (view s)"
    and "\<And>p. p \<in> P \<Longrightarrow> disc ok upd start p Q"
  shows "\<exists>gs. list_all2 (\<lambda>g p. disc ok upd g p Q) gs ps \<and> J gs (view t)"
proof -
  have "disciplined Q ([], s)" using assms(2) by (auto simp: disciplined_def)
  with disciplined_reach [OF assms(1)] assms(3) have "disciplined Q (ps, t)" by blast
  then show ?thesis by (simp add: disciplined_def)
qed

lemma reach_J:
  assumes "pool_reach exec P ([], s) (ps, t)" and "J [] (view s)"
    and "\<And>p. p \<in> P \<Longrightarrow> disc ok upd start p no_post"
  shows "\<exists>gs. length gs = length ps \<and> J gs (view t)"
  using reach_disc [OF assms] by (auto dest: list_all2_lengthD)

end

end
