(* ===== verification/System.thy ===== *)
theory System
  imports Concurrency Worker Scheduler Janitor Cron Routes_Correct
begin

text \<open>
  The whole system: any number of servers, workers, schedulers, janitors and operators whose
  operations interleave at every external call.

  The operations are listed in \<open>op\<close>; a pool (theory \<open>Concurrency\<close>) may start any of them at
  any time.  The discipline of this theory is what each program knows: it may only put an id in
  a list or a delayed set that it has read from one, that it has inserted into Postgres or whose
  row it has seen.
\<close>

subsection \<open>The operations\<close>

datatype op =
    OEnqueue bool string "json option" enqueue_options
  | OWork worker nat | OWorkNow worker nat | OHeartbeat worker nat
  | OStart worker worker_state | OStop worker worker_state
  | OSchedule | OJanitor
  | OAddCron cron_def | ORemoveCron string
  | ORetry bool string | ORequeueAll bool string

text \<open>A turn of the worker's loop: pull, and process what was pulled.\<close>
definition work_on :: "worker \<Rightarrow> string option \<times> nat \<Rightarrow> unit prog" where
  "work_on w x = (case fst x of None \<Rightarrow> Ret () | Some i \<Rightarrow> if i = [] then Ret () else processOne w i)"

fun op_prog :: "op \<Rightarrow> unit prog" where
  "op_prog (OEnqueue bus n p opts) = void (enqueue bus n p opts)"
| "op_prog (OWork w n) = await (pullJob w n) (work_on w)"
| "op_prog (OWorkNow w n) = await (pullJobNonBlocking w n) (work_on w)"
| "op_prog (OHeartbeat w n) = writeHeartbeat w n"
| "op_prog (OStart w ws) = void (start_worker w ws)"
| "op_prog (OStop w ws) = seqp (void (stop_begin w ws)) (void (stop_finish w ws))"
| "op_prog OSchedule = scheduler_tick"
| "op_prog OJanitor = janitor_tick"
| "op_prog (OAddCron def) = addJob def"
| "op_prog (ORemoveCron c) = removeJob c"
| "op_prog (ORetry bus i) = void (retry_job bus i)"
| "op_prog (ORequeueAll bus q) = void (requeue_dlq bus q \<lparr>rb_jobIds = None, rb_all = True\<rparr>)"

subsection \<open>What a program knows\<close>

text \<open>An id is queued if it is in a list or in a delayed set; every queued id should have a row.\<close>
definition queued :: "store \<Rightarrow> string \<Rightarrow> bool" where
  "queued v i \<longleftrightarrow> in_list v i \<or> (\<exists>q. s_zsets v (delayed_key q) i \<noteq> None)"

definition row_backed :: "store \<Rightarrow> bool" where
  "row_backed v \<longleftrightarrow> (\<forall>i. queued v i \<longrightarrow> s_rows v i \<noteq> None)"

text \<open>The ids a command puts in a list or a delayed set.\<close>
fun pushes :: "rcmd \<Rightarrow> string set" where
  "pushes (LPUSH k x) = {x}"
| "pushes (ZADD k sc x) = (if \<exists>q. k = delayed_key q then {x} else {})"
| "pushes _ = {}"

fun call_pushes :: "call \<Rightarrow> string set" where
  "call_pushes (Redis c) = pushes c"
| "call_pushes (RedisMulti cs) = (\<Union>c \<in> set cs. pushes c)"
| "call_pushes _ = {}"

text \<open>The ids an answer shows to have a row.\<close>
fun redis_learns :: "rcmd \<Rightarrow> reply \<Rightarrow> string set" where
  "redis_learns (RPOPLPUSH a b) r = (case r of RStr x \<Rightarrow> {x} | _ \<Rightarrow> {})"
| "redis_learns (BLMOVE a b t) r = (case r of RStr x \<Rightarrow> {x} | _ \<Rightarrow> {})"
| "redis_learns (LRANGE k i j) r = (case r of RList xs \<Rightarrow> set xs | _ \<Rightarrow> {})"
| "redis_learns (ZRANGEBYSCORE k u) r =
     (if \<exists>q. k = delayed_key q then (case r of RList xs \<Rightarrow> set xs | _ \<Rightarrow> {}) else {})"
| "redis_learns _ r = {}"

fun pg_learns :: "stmt \<Rightarrow> reply \<Rightarrow> string set" where
  "pg_learns (PgInsert i w) r = {i}"
| "pg_learns (PgSelect i) r = (case r of RRow (Some w) \<Rightarrow> {i} | _ \<Rightarrow> {})"
| "pg_learns _ r = {}"

fun learns :: "call \<Rightarrow> reply \<Rightarrow> string set" where
  "learns (Redis c) r = redis_learns c r"
| "learns (Pg q) r = pg_learns q r"
| "learns _ r = {}"

definition known_ok :: "string set \<Rightarrow> call \<Rightarrow> bool" where
  "known_ok K c \<longleftrightarrow> call_pushes c \<subseteq> K"

definition known_upd :: "string set \<Rightarrow> call \<Rightarrow> err + reply \<Rightarrow> string set" where
  "known_upd K c r = (case r of Inl e \<Rightarrow> K | Inr x \<Rightarrow> K \<union> learns c x)"

definition all_backed :: "string set list \<Rightarrow> store \<Rightarrow> bool" where
  "all_backed Ks v \<longleftrightarrow> row_backed v \<and> (\<forall>K \<in> set Ks. K \<subseteq> dom (s_rows v))"

lemma redis_rows [simp]: "s_rows (redis_effect c v) = s_rows v"
  by (cases "(c, v)" rule: redis_effect.cases) (auto simp: Let_def)

lemma fold_redis_rows [simp]: "s_rows (fold redis_effect cs v) = s_rows v"
  by (induction cs arbitrary: v) simp_all

lemma remove_n_subset: "x \<in> set (remove_n n y xs) \<Longrightarrow> x \<in> set xs"
  by (induction n arbitrary: xs) (auto dest: remove1_subset)

lemma lrem_subset: "x \<in> set (lrem n y xs) \<Longrightarrow> x \<in> set xs"
  by (auto simp: lrem_def split: if_splits dest: remove_n_subset)

lemma redis_queued: "queued (redis_effect c v) i \<Longrightarrow> queued v i \<or> i \<in> pushes c"
  by (cases "(c, v)" rule: redis_effect.cases)
    (auto simp: Let_def queued_def in_list_def split: if_splits,
      (blast intro: last_in_set dest: in_set_butlastD lrem_subset)+)

lemma fold_redis_queued: "queued (fold redis_effect cs v) i \<Longrightarrow> queued v i \<or> (\<exists>c \<in> set cs. i \<in> pushes c)"
  by (induction cs arbitrary: v) (auto dest: redis_queued)

lemma rows_grow: "dom (s_rows v) \<subseteq> dom (s_rows (effect c x v))"
proof (cases c)
  case (Pg q)
  then show ?thesis by (cases q) (auto simp: dom_def split: if_splits)
next
  case (Host h)
  then show ?thesis by (cases "(h, x, v)" rule: host_effect.cases) auto
qed (auto simp: script_effect_def split: option.splits)

lemma effect_queued:
  assumes "queued (effect c x v) i"
  shows "queued v i \<or> i \<in> call_pushes c"
proof (cases c)
  case (Redis rc)
  with assms show ?thesis using redis_queued by auto
next
  case (RedisMulti cs)
  with assms show ?thesis using fold_redis_queued by auto
next
  case (RedisEval k f)
  with assms show ?thesis using redis_queued [of "HSET k fs" v i for fs] by (auto simp: script_effect_def split: option.splits)
next
  case (Pg q)
  with assms show ?thesis by (cases q) (auto simp: queued_def in_list_def)
next
  case (Host h)
  with assms show ?thesis by (cases "(h, x, v)" rule: host_effect.cases) (auto simp: queued_def in_list_def)
qed

text \<open>What an answer teaches is true.\<close>
lemma learns_true:
  assumes "row_backed v" and "allowed c v x"
  shows "learns c x \<subseteq> dom (s_rows (effect c x v))"
proof (cases c)
  case (Redis rc)
  have "learns c x \<subseteq> {i. queued v i}"
    using assms(2) unfolding Redis
    by (cases rc) (auto simp: queued_def in_list_def lrange_def Let_def split: if_splits
        dest: in_set_takeD in_set_dropD intro: last_in_set)
  with assms(1) show ?thesis by (auto simp: Redis row_backed_def)
next
  case (Pg q)
  with assms(2) show ?thesis by (cases q) (auto split: reply.splits option.splits)
qed simp_all

lemma fail_frame [simp]: "s_rows (fail_effect c v) = s_rows v" "queued (fail_effect c v) i = queued v i"
proof -
  have "s_rows (fail_effect c v) = s_rows v \<and> s_lists (fail_effect c v) = s_lists v \<and> s_zsets (fail_effect c v) = s_zsets v"
  proof (cases c)
    case (Host h)
    then show ?thesis by (cases h) simp_all
  qed simp_all
  then show "s_rows (fail_effect c v) = s_rows v" "queued (fail_effect c v) i = queued v i"
    by (simp_all add: queued_def in_list_def)
qed

lemma known_discipline: "backend exec view \<Longrightarrow> discipline exec view known_ok known_upd {} all_backed"
proof (intro discipline.intro discipline_axioms.intro)
  fix gs v n c x
  assume J: "all_backed gs v" and n: "n < length gs" and ok: "known_ok (gs ! n) c" and x: "allowed c v x"
  let ?v = "effect c x v"
  have K: "K \<subseteq> dom (s_rows ?v)" if "K \<in> set gs" for K
    using J that rows_grow [of v c x] unfolding all_backed_def by blast
  have "i \<in> dom (s_rows ?v)" if q: "queued ?v i" for i
    using effect_queued [OF q]
  proof
    assume "queued v i"
    with J have "i \<in> dom (s_rows v)" by (auto simp: all_backed_def row_backed_def)
    with rows_grow [of v c x] show ?thesis by blast
  next
    assume "i \<in> call_pushes c"
    with ok K [OF nth_mem [OF n]] show ?thesis by (auto simp: known_ok_def)
  qed
  then have "row_backed ?v" by (auto simp: row_backed_def)
  moreover have "known_upd (gs ! n) c (Inr x) \<subseteq> dom (s_rows ?v)"
    using K n learns_true [OF _ x] J by (auto simp: known_upd_def all_backed_def)
  ultimately show "all_backed (gs[n := known_upd (gs ! n) c (Inr x)]) ?v"
    using K by (auto simp: all_backed_def dest!: set_update_subset_insert [THEN subsetD])
next
  fix gs v n c e
  assume "all_backed gs v" and "n < length gs"
  then show "all_backed (gs[n := known_upd (gs ! n) c (Inl e)]) (fail_effect c v)"
    by (auto simp: all_backed_def row_backed_def known_upd_def dest!: set_update_subset_insert [THEN subsetD])
qed (auto simp: all_backed_def)

interpretation known: discipline "mem_exec faults" mem_view known_ok known_upd "{}" all_backed for faults
  by (rule known_discipline [OF mem_backend])

subsection \<open>Every operation obeys the discipline\<close>

abbreviation knows :: "string set \<Rightarrow> 'a prog \<Rightarrow> (err + 'a \<Rightarrow> string set \<Rightarrow> bool) \<Rightarrow> bool" where
  "knows K p Q \<equiv> disc known_ok known_upd K p Q"

lemma knows_call:
  "knows K (call c) Q \<longleftrightarrow> call_pushes c \<subseteq> K \<and> (\<forall>e. Q (Inl e) K) \<and> (\<forall>x. Q (Inr x) (K \<union> learns c x))"
  by (auto simp: disc_call known_ok_def known_upd_def)

lemma knows_redis:
  "knows K (redis_unit c) Q \<longleftrightarrow> pushes c \<subseteq> K \<and> (\<forall>e. Q (Inl e) K) \<and> (\<forall>x. Q (Inr ()) (K \<union> redis_learns c x))"
  "knows K (multi_exec cs) Q \<longleftrightarrow> (\<forall>c \<in> set cs. pushes c \<subseteq> K) \<and> (\<forall>e. Q (Inl e) K) \<and> Q (Inr ()) K"
  by (auto simp: redis_unit_def multi_exec_def knows_call then_disc_def)

lemma knows_strs:
  "knows K (rpoplpush a b) Q \<longleftrightarrow> (\<forall>e. Q (Inl e) K) \<and> Q (Inr None) K \<and> (\<forall>x. Q (Inr (Some x)) (insert x K))"
  "knows K (blmove a b ttl) Q \<longleftrightarrow> (\<forall>e. Q (Inl e) K) \<and> Q (Inr None) K \<and> (\<forall>x. Q (Inr (Some x)) (insert x K))"
  "knows K (redis_get k) Q \<longleftrightarrow> (\<forall>e. Q (Inl e) K) \<and> (\<forall>x. Q (Inr x) K)"
  "knows K (hget k f) Q \<longleftrightarrow> (\<forall>e. Q (Inl e) K) \<and> (\<forall>x. Q (Inr x) K)"
  by (simp_all add: redis_str_def redis_hash_def redis_int_def redis_list_def knows_call all_reply then_disc_def split_option_all) blast+

lemma knows_ints:
  "knows K (redis_exists k) S \<longleftrightarrow> (\<forall>e. S (Inl e) K) \<and> (\<forall>x. S (Inr x) K)"
  "knows K (llen k) S \<longleftrightarrow> (\<forall>e. S (Inl e) K) \<and> (\<forall>x. S (Inr x) K)"
  "knows K (zrem k i) S \<longleftrightarrow> (\<forall>e. S (Inl e) K) \<and> (\<forall>x. S (Inr x) K)"
  by (simp_all add: redis_str_def redis_hash_def redis_int_def redis_list_def knows_call all_reply then_disc_def) blast+

lemma knows_lists:
  "knows K (smembers k) T \<longleftrightarrow> (\<forall>e. T (Inl e) K) \<and> (\<forall>xs. T (Inr xs) K)"
  "knows K (lrange_cmd k n m) T \<longleftrightarrow> (\<forall>e. T (Inl e) K) \<and> (\<forall>xs. T (Inr xs) (K \<union> set xs))"
  "knows K (zrangebyscore (delayed_key q) u) T \<longleftrightarrow> (\<forall>e. T (Inl e) K) \<and> (\<forall>xs. T (Inr xs) (K \<union> set xs))"
  "knows K (zrangebyscore cronSchedule_key u) T \<longleftrightarrow> (\<forall>e. T (Inl e) K) \<and> (\<forall>xs. T (Inr xs) K)"
  by (simp_all add: redis_str_def redis_hash_def redis_int_def redis_list_def knows_call all_reply then_disc_def) blast+

lemma knows_hash:
  "knows K (hgetall k) R \<longleftrightarrow> (\<forall>e. R (Inl e) K) \<and> (\<forall>x. R (Inr x) K)"
  by (simp_all add: redis_str_def redis_hash_def redis_int_def redis_list_def knows_call all_reply then_disc_def) blast+

lemma knows_others:
  "knows K (pg_query q) Q \<longleftrightarrow> (\<forall>e. Q (Inl e) K) \<and> (\<forall>x. Q (Inr ()) (K \<union> pg_learns q x))"
  "knows K (inc_metric m ls) Q \<longleftrightarrow> (\<forall>e. Q (Inl e) K) \<and> Q (Inr ()) K"
  "knows K (sleep ms) Q \<longleftrightarrow> (\<forall>e. Q (Inl e) K) \<and> Q (Inr ()) K"
  "knows K (run_handler h p ctx) Q \<longleftrightarrow> (\<forall>e. Q (Inl e) K) \<and> Q (Inr ()) K"
  by (auto simp: pg_query_def inc_metric_def sleep_def run_handler_def knows_call then_disc_def)

lemma knows_hosts:
  "knows K now Q \<longleftrightarrow> (\<forall>e. Q (Inl e) K) \<and> (\<forall>t. Q (Inr t) K)"
  "knows K (cron_next ex) Q \<longleftrightarrow> (\<forall>e. Q (Inl e) K) \<and> (\<forall>t. Q (Inr t) K)"
  "knows K uuidv4 R \<longleftrightarrow> (\<forall>e. R (Inl e) K) \<and> (\<forall>i. R (Inr i) K)"
  by (simp_all add: now_def cron_next_def uuidv4_def knows_call all_reply then_disc_def) blast+

lemma knows_row:
  "knows K (pg_row i) Q \<longleftrightarrow> (\<forall>e. Q (Inl e) K) \<and> Q (Inr None) K \<and> (\<forall>w. Q (Inr (Some w)) (insert i K))"
  by (simp add: pg_row_def knows_call all_reply then_disc_def split_option_all) blast

lemmas knows_rules = knows_redis knows_strs knows_ints knows_lists knows_hash knows_others knows_hosts knows_row

lemma delayed_pushes [simp]: "pushes (ZADD (delayed_key q) sc x) = {x}" "pushes (ZADD cronSchedule_key sc x) = {}"
  by auto

declare pushes.simps(2) [simp del]

lemma knows_enqueue: "knows K (enqueue bus n p opts) no_post"
  by (auto simp: enqueue_defs knows_rules Let_def split: option.splits)

lemma knows_publish_quietly:
  "knows K (publish_quietly ty i n q x) Q \<longleftrightarrow> (\<forall>e. Q (Inl e) K) \<and> Q (Inr ()) K"
  by (auto simp: publish_quietly_def knows_rules)

lemma knows_checkLimit: "(\<And>x. Q x K) \<Longrightarrow> knows K (checkLimitFallback q c) Q"
  by (simp add: checkLimitFallback_def knows_rules Let_def split: prod.splits)

lemma knows_handleFailure: "i \<in> K \<Longrightarrow> knows K (handleFailure w i msg) no_post"
  by (simp add: handleFailure_def knows_rules knows_publish_quietly dao_defs Let_def)

lemma knows_complete: "(\<And>x. Q x K) \<Longrightarrow> knows K (complete w i) Q"
  by (simp add: complete_def knows_rules knows_publish_quietly dao_defs)

lemma knows_execute: "i \<in> K \<Longrightarrow> knows K (execute w i n q h) no_post"
  by (auto simp: execute_def invoke_def knows_rules knows_publish_quietly dao_defs Let_def
      catch_disc_def intro!: knows_handleFailure knows_complete split: option.splits sum.splits)

lemma knows_processOne: "i \<in> K \<Longrightarrow> knows K (processOne w i) no_post"
  by (auto simp: processOne_def push_back_def knows_rules Let_def intro!: knows_execute knows_checkLimit
      simp: then_disc_def split: option.splits sum.splits)

text \<open>What a pull returns has been read from a list.\<close>
definition pulled_known :: "err + string option \<Rightarrow> string set \<Rightarrow> bool" where
  "pulled_known r K \<longleftrightarrow> (\<forall>i. r = Inr (Some i) \<longrightarrow> i \<in> K)"

lemma knows_pull_first: "knows K (pull_first q d ps) pulled_known"
  by (induction ps arbitrary: K) (auto simp: knows_rules pulled_known_def split: if_splits)

lemma knows_work_on: "(\<And>i. fst x = Some i \<Longrightarrow> i \<in> K) \<Longrightarrow> knows K (work_on w x) no_post"
  by (auto simp: work_on_def knows_processOne split: option.splits)

lemma knows_pull_then:
  "(\<And>r h. pulled_known r h \<Longrightarrow> Q r h) \<Longrightarrow> knows K (pull_first q d ps) Q"
  by (rule disc_mono [OF knows_pull_first])

lemma knows_work:
  "knows K (await (pullJobNonBlocking w n) (work_on w)) no_post"
  "knows K (await (pullJob w n) (work_on w)) no_post"
  by (auto simp: pullJobNonBlocking_def pullJob_def knows_rules pulled_known_def
      split: prod.splits sum.splits option.splits intro!: knows_pull_then knows_work_on simp: then_disc_def)

lemma knows_forEach:
  assumes "\<And>x g. x \<in> set xs \<Longrightarrow> A \<subseteq> g \<Longrightarrow>
      knows g (f x) (\<lambda>r h. case r of Inl e \<Rightarrow> Q (Inl e) h | Inr _ \<Rightarrow> A \<subseteq> h)"
    and "A \<subseteq> K" and "\<And>h. Q (Inr ()) h"
  shows "knows K (forEach xs f) Q"
  by (rule disc_forEach [where J = "\<lambda>g. A \<subseteq> g"]) (use assms in auto)

lemma knows_promote_job:
  "i \<in> K \<Longrightarrow> A \<subseteq> K \<Longrightarrow> (\<And>e h. Q (Inl e) h) \<Longrightarrow> (\<And>h. A \<subseteq> h \<Longrightarrow> Q (Inr ()) h) \<Longrightarrow> knows K (promote_job q i) Q"
  by (auto simp: promote_job_def knows_rules)

lemma knows_promote_queue:
  assumes "\<And>r h. Q r h"
  shows "knows K (promote_queue t q) Q"
proof -
  have "knows (K \<union> set xs) (forEach xs (promote_job q)) Q" for xs
    by (rule knows_forEach [where A = "set xs"]) (auto simp: assms intro!: knows_promote_job)
  then show ?thesis by (simp add: promote_queue_def knows_rules assms)
qed

lemma knows_promote:
  assumes "\<And>r h. Q r h"
  shows "knows K promoteDelayedJobs Q"
proof -
  have "knows K (forEach qs (promote_queue t)) Q" for qs t
    by (rule knows_forEach [where A = "{}"]) (auto simp: assms split: sum.splits intro!: knows_promote_queue)
  then show ?thesis by (simp add: promoteDelayedJobs_def knows_rules assms)
qed

lemma knows_enqueue_cron: "(\<And>r h. Q r h) \<Longrightarrow> knows K (enqueue_cron c d) Q"
  by (auto simp: enqueue_cron_def insert_cron_row_def knows_rules Let_def split: option.splits jsnum.splits)

lemma knows_fire_cron: "(\<And>r h. Q r h) \<Longrightarrow> knows K (fire_cron c) Q"
  by (auto simp: fire_cron_def knows_rules intro!: knows_enqueue_cron)

lemma knows_fireCronJobs:
  assumes "\<And>r h. Q r h"
  shows "knows K fireCronJobs Q"
proof -
  have "knows K (forEach cs fire_cron) Q" for cs
    by (rule knows_forEach [where A = "{}"]) (auto simp: assms split: sum.splits intro!: knows_fire_cron)
  then show ?thesis by (simp add: fireCronJobs_def knows_rules assms)
qed

lemma knows_scheduler: "knows K scheduler_tick no_post"
  by (auto simp: scheduler_tick_def then_disc_def intro!: knows_promote knows_fireCronJobs split: sum.splits)

lemma knows_requeue_orphan:
  "i \<in> K \<Longrightarrow> A \<subseteq> K \<Longrightarrow> (\<And>e h. Q (Inl e) h) \<Longrightarrow> (\<And>h. A \<subseteq> h \<Longrightarrow> Q (Inr ()) h) \<Longrightarrow> knows K (requeue_orphan i) Q"
  by (auto simp: requeue_orphan_def dao_defs knows_rules Let_def)

lemma knows_check_worker:
  assumes "\<And>r h. Q r h"
  shows "knows K (check_worker w) Q"
proof -
  have "knows (K \<union> set xs) (forEach xs requeue_orphan) (then_disc known_ok known_upd (\<lambda>_. p) Q)"
    if "\<And>h. knows h p Q" for xs p
    by (rule knows_forEach [where A = "set xs"]) (auto simp: assms that intro!: knows_requeue_orphan)
  then show ?thesis by (simp add: check_worker_def knows_rules assms)
qed

lemma knows_janitor: "knows K janitor_tick no_post"
proof -
  have "knows K (forEach ws check_worker) no_post" for ws
    by (rule knows_forEach [where A = "{}"]) (auto split: sum.splits intro!: knows_check_worker)
  then show ?thesis by (simp add: janitor_tick_def knows_rules)
qed

lemma knows_publish_event: "knows K (publish_event e) Q \<longleftrightarrow> (\<forall>x. Q (Inl x) K) \<and> Q (Inr ()) K"
  by (simp add: publish_event_def knows_rules)

lemma knows_retry: "knows K (retry_job bus i) no_post"
  by (auto simp: retry_job_def or_next_def getJob_def publish_retried_def incrementRetried_def dao_defs knows_rules
      knows_publish_event catch_disc_def then_disc_def split: option.splits sum.splits)

lemma knows_requeue_one:
  "i \<in> K \<Longrightarrow> (\<And>r. Q r K) \<Longrightarrow> knows K (requeue_one bus q i) Q"
  by (auto simp: requeue_one_def publish_retried_def dao_defs knows_rules knows_publish_event)

lemma knows_requeue_all: "set is \<subseteq> K \<Longrightarrow> (\<And>r h. Q r h) \<Longrightarrow> knows K (requeue_all bus q is n m) Q"
proof (induction "is" arbitrary: n m)
  case (Cons i "is")
  then show ?case by (auto intro!: knows_requeue_one simp: catch_disc_def then_disc_def split: sum.splits)
qed simp

lemma knows_requeue: "knows K (requeue_dlq bus q \<lparr>rb_jobIds = None, rb_all = True\<rparr>) no_post"
  by (auto simp: requeue_dlq_def or_next_def knows_rules intro!: knows_requeue_all
      simp: catch_disc_def then_disc_def split: sum.splits)

lemma knows_start_stop:
  "(\<And>r h. Q r h) \<Longrightarrow> knows K (start_worker w ws) Q" "(\<And>r h. Q r h) \<Longrightarrow> knows K (stop_begin w ws) Q"
  "(\<And>r h. Q r h) \<Longrightarrow> knows K (stop_finish w ws) Q" "(\<And>r h. R r h) \<Longrightarrow> knows K (writeHeartbeat w n) R"
  by (auto simp: start_worker_def stop_begin_def stop_finish_def writeHeartbeat_def knows_rules catch_disc_def
      then_disc_def Let_def split: sum.splits)

lemma knows_cron:
  "knows K (addJob d) no_post" "knows K (removeJob c) no_post"
  by (auto simp: addJob_def removeJob_def knows_rules)

lemma knows_void: "knows K p no_post \<Longrightarrow> knows K (void p) no_post"
  by (simp add: void_def, elim disc_mono) (simp add: then_disc_def split: sum.splits)

lemma knows_op: "knows {} (op_prog x) no_post"
proof (cases x)
  case (OStop w ws)
  have "knows {} (void (stop_begin w ws)) (then_disc known_ok known_upd (\<lambda>_. void (stop_finish w ws)) no_post)"
    unfolding void_def disc_await
    by (rule knows_start_stop) (auto simp: then_disc_def knows_start_stop(3) split: sum.splits)
  then show ?thesis by (simp add: OStop)
qed (simp_all add: knows_work knows_start_stop knows_scheduler knows_janitor knows_cron knows_void
    knows_enqueue knows_retry knows_requeue del: disc_await)

subsection \<open>The invariant of the system\<close>


text \<open>An enqueue that runs in a pool of its own leaves a queued job.\<close>
lemma enqueue_pool:
  "\<exists>q. pool_reach (mem_exec no_faults) (range op_prog) ([], mem0)
     ([q], snd (enqueue_at mem0 no_options (Some JNull)))"
proof -
  let ?p = "op_prog (OEnqueue True ''greet'' (Some JNull) no_options)"
  have "pool_step (mem_exec no_faults) (range op_prog) ([], mem0) ([] @ [?p], mem0)"
    by (rule Spawn) (rule rangeI)
  moreover obtain q where "pool_reach (mem_exec no_faults) (range op_prog) ([?p], mem0) ([?p][0 := q], snd (run (mem_exec no_faults) ?p mem0))"
    using pool_run [of 0 "[?p]" ?p "mem_exec no_faults" "range op_prog" mem0] by auto
  ultimately show ?thesis
    by (auto simp: enqueue_at_def intro: converse_rtranclp_into_rtranclp)
qed


end
