(* ===== verification/Exactly_Once.thy ===== *)
theory Exactly_Once
  imports Concurrency Worker Scheduler
begin

text \<open>
  Any number of schedulers promote delayed jobs at the same time as producers enqueue and
  workers pull.

  The scheduler takes the entry out of the delayed set before it pushes the id, and only the
  caller whose \<^verbatim>\<open>ZREM\<close> removed it goes on: the removal is a credit for one push.  The discipline
  of this theory makes programs pay for every push of a given id with such a credit.
\<close>

subsection \<open>Where one job is\<close>

definition times_listed :: "store \<Rightarrow> string \<Rightarrow> string \<Rightarrow> nat" where
  "times_listed v i k = count_list (s_lists v k) i"

definition unlisted :: "store \<Rightarrow> string \<Rightarrow> bool" where
  "unlisted v i \<longleftrightarrow> (\<forall>k. times_listed v i k = 0)"

definition listed_once :: "store \<Rightarrow> string \<Rightarrow> bool" where
  "listed_once v i \<longleftrightarrow> (\<exists>k. \<forall>k'. times_listed v i k' = (if k' = k then 1 else 0))"

definition undelayed :: "store \<Rightarrow> string \<Rightarrow> bool" where
  "undelayed v i \<longleftrightarrow> (\<forall>q. s_zsets v (delayed_key q) i = None)"

definition delayed_once :: "store \<Rightarrow> string \<Rightarrow> bool" where
  "delayed_once v i \<longleftrightarrow> (\<exists>q. \<forall>q'. s_zsets v (delayed_key q') i \<noteq> None \<longleftrightarrow> q' = q)"

text \<open>The job is delayed, on its way (one credit is out), or in one list.\<close>
definition in_one_place :: "nat \<Rightarrow> store \<Rightarrow> string \<Rightarrow> bool" where
  "in_one_place credits v i \<longleftrightarrow>
     credits = 0 \<and> delayed_once v i \<and> unlisted v i \<or>
     credits = 1 \<and> undelayed v i \<and> unlisted v i \<or>
     credits = 0 \<and> undelayed v i \<and> listed_once v i"

subsection \<open>The discipline\<close>

text \<open>A command that puts no second \<open>i\<close> anywhere and takes none away; \<open>K\<close> are ids known to be others.\<close>
fun harmless :: "string \<Rightarrow> string set \<Rightarrow> rcmd \<Rightarrow> bool" where
  "harmless i K (LPUSH k x) \<longleftrightarrow> x \<noteq> i \<or> x \<in> K"
| "harmless i K (ZADD k sc x) \<longleftrightarrow> x \<noteq> i \<or> x \<in> K \<or> (\<forall>q. k \<noteq> delayed_key q)"
| "harmless i K (ZREM k x) \<longleftrightarrow> (\<forall>q. k \<noteq> delayed_key q)"
| "harmless i K (DEL k) \<longleftrightarrow> False"
| "harmless i K (LREM k n x) \<longleftrightarrow> False"
| "harmless i K _ \<longleftrightarrow> True"

text \<open>The two steps of a promotion: the ghost is whether a credit is held, and the known others.\<close>
fun once_ok :: "string \<Rightarrow> bool \<times> string set \<Rightarrow> call \<Rightarrow> bool" where
  "once_ok i g (Redis c) \<longleftrightarrow> harmless i (snd g) c \<or>
     (case c of LPUSH k x \<Rightarrow> fst g | ZREM k x \<Rightarrow> \<not> fst g | _ \<Rightarrow> False)"
| "once_ok i g (RedisMulti cs) \<longleftrightarrow> list_all (harmless i (snd g)) cs"
| "once_ok i g _ \<longleftrightarrow> True"

definition once_upd :: "string \<Rightarrow> bool \<times> string set \<Rightarrow> call \<Rightarrow> err + reply \<Rightarrow> bool \<times> string set" where
  "once_upd i g c r =
     (case c of
        Redis (ZREM k x) \<Rightarrow>
          (case r of Inr (RInt n) \<Rightarrow> if n \<noteq> 0 \<and> x = i \<and> (\<exists>q. k = delayed_key q) then (True, snd g) else g | _ \<Rightarrow> g)
      | Redis (LPUSH k x) \<Rightarrow> (case r of Inr y \<Rightarrow> if x = i \<and> x \<notin> snd g then (False, snd g) else g | _ \<Rightarrow> g)
      | Host NewUuid \<Rightarrow> (case r of Inr (RStr x) \<Rightarrow> (fst g, insert x (snd g)) | _ \<Rightarrow> g)
      | _ \<Rightarrow> g)"

definition once_inv :: "string \<Rightarrow> (bool \<times> string set) list \<Rightarrow> store \<Rightarrow> bool" where
  "once_inv i gs v \<longleftrightarrow> i \<in> s_issued v \<and> (\<forall>g \<in> set gs. i \<notin> snd g) \<and>
     in_one_place (length (filter fst gs)) v i"

subsection \<open>What each call does to the place\<close>

lemma count_butlast: "xs \<noteq> [] \<Longrightarrow> count_list (butlast xs) x + (if last xs = x then 1 else 0) = count_list xs x"
  by (induction xs) auto

lemma listed_move:
  assumes "s_lists v a \<noteq> []"
    and "w = v\<lparr>s_lists := ((s_lists v)(a := butlast (s_lists v a)))
      (b := last (s_lists v a) # ((s_lists v)(a := butlast (s_lists v a))) b)\<rparr>"
  shows "unlisted v i \<Longrightarrow> unlisted w i" and "listed_once v i \<Longrightarrow> listed_once w i"
proof -
  have c: "times_listed w i k + (if k = a \<and> last (s_lists v a) = i then 1 else 0) =
      times_listed v i k + (if k = b \<and> last (s_lists v a) = i then 1 else 0)" for k
    using count_butlast [OF assms(1), of i] by (auto simp: times_listed_def assms(2))
  show "unlisted w i" if "unlisted v i"
  proof -
    have "last (s_lists v a) \<noteq> i"
      using that last_in_set [OF assms(1)] by (simp add: unlisted_def times_listed_def count_list_0_iff) blast
    then show ?thesis using c that by (simp add: unlisted_def)
  qed
  show "listed_once w i" if l: "listed_once v i"
  proof (cases "last (s_lists v a) = i")
    case True
    obtain k where k: "\<And>k'. times_listed v i k' = (if k' = k then 1 else 0)" using l by (auto simp: listed_once_def)
    have "times_listed v i a \<noteq> 0"
      using True last_in_set [OF assms(1)] by (auto simp: times_listed_def count_list_0_iff)
    then have "k = a" using k [of a] by (auto split: if_splits)
    then have "times_listed w i k' = (if k' = b then 1 else 0)" for k'
      using c [of k'] k [of k'] True by (auto split: if_splits)
    then show ?thesis by (auto simp: listed_once_def)
  next
    case False
    then show ?thesis using c l by (simp add: listed_once_def)
  qed
qed

text \<open>The places depend on the lists and the delayed sets only.\<close>
lemma place_cong:
  assumes "s_lists w = s_lists v" and "\<And>q. s_zsets w (delayed_key q) i = s_zsets v (delayed_key q) i"
  shows "in_one_place n w i = in_one_place n v i"
  using assms by (simp add: in_one_place_def delayed_once_def undelayed_def unlisted_def listed_once_def times_listed_def)

lemma harmless_place:
  assumes "harmless i K c" and "i \<notin> K" and "in_one_place n v i"
  shows "in_one_place n (redis_effect c v) i"
proof -
  have move: "in_one_place n (redis_effect (RPOPLPUSH a b) v) i" for a b
  proof (cases "s_lists v a = []")
    case False
    have z: "s_zsets (redis_effect (RPOPLPUSH a b) v) = s_zsets v" by (simp add: Let_def)
    show ?thesis
      using assms(3) listed_move [OF False, of "redis_effect (RPOPLPUSH a b) v" b] False
      by (simp add: in_one_place_def delayed_once_def undelayed_def z) (auto simp: Let_def)
  qed (use assms(3) in simp)
  show ?thesis
  proof (cases c)
    case (BLMOVE a b ttl)
    have "redis_effect (BLMOVE a b ttl) v = redis_effect (RPOPLPUSH a b) v" by simp
    then show ?thesis using move BLMOVE by presburger
  next
    case (LPUSH k x)
    then have "times_listed (redis_effect c v) i k' = times_listed v i k'" for k'
      using assms(1,2) by (auto simp: times_listed_def)
    then show ?thesis using assms(3) LPUSH
      by (simp add: in_one_place_def delayed_once_def undelayed_def unlisted_def listed_once_def)
  qed (use assms(1,2) move in \<open>auto intro!: place_cong [THEN iffD2, OF _ _ assms(3)] simp del: redis_effect.simps(7,8)\<close>)
qed

lemma harmless_multi:
  "list_all (harmless i K) cs \<Longrightarrow> i \<notin> K \<Longrightarrow> in_one_place n v i \<Longrightarrow> in_one_place n (fold redis_effect cs v) i"
  by (induction cs arbitrary: v) (auto intro: harmless_place)

text \<open>A credit pays for a push; a removal that found the entry earns one.\<close>

lemma push_place: "in_one_place (Suc n) v i \<Longrightarrow> in_one_place n (redis_effect (LPUSH k i) v) i"
  by (auto simp: in_one_place_def undelayed_def unlisted_def listed_once_def times_listed_def count_list_0_iff)

lemma zrem_other:
  "s_zsets v k x = None \<or> x \<noteq> i \<Longrightarrow> in_one_place n v i \<Longrightarrow> in_one_place n (redis_effect (ZREM k x) v) i"
  by (erule place_cong [THEN iffD2, rotated 2]) auto

lemma zrem_place:
  assumes "in_one_place n v i" and "s_zsets v (delayed_key q) i \<noteq> None"
  shows "in_one_place (Suc n) (redis_effect (ZREM (delayed_key q) i) v) i"
proof -
  from assms have "\<not> undelayed v i" by (auto simp: undelayed_def)
  with assms(1) have p: "n = 0" "delayed_once v i" "unlisted v i" by (auto simp: in_one_place_def)
  have "s_zsets v (delayed_key q') i = None" if "q' \<noteq> q" for q'
    using p(2) assms(2) that unfolding delayed_once_def by metis
  then have "undelayed (redis_effect (ZREM (delayed_key q) i) v) i" by (simp add: undelayed_def)
  with p(1,3) show ?thesis by (simp add: in_one_place_def unlisted_def times_listed_def)
qed

lemma issued_grow: "i \<in> s_issued v \<Longrightarrow> i \<in> s_issued (effect c x v)"
proof -
  have r: "s_issued (redis_effect rc u) = s_issued u" for rc u
    by (cases "(rc, u)" rule: redis_effect.cases) (auto simp: Let_def)
  have m: "s_issued (fold redis_effect cs u) = s_issued u" for cs u
    by (induction cs arbitrary: u) (simp_all add: r)
  assume "i \<in> s_issued v"
  then show ?thesis
  proof (cases c)
    case (Pg q)
    with \<open>i \<in> s_issued v\<close> show ?thesis by (cases q) auto
  next
    case (Host h)
    with \<open>i \<in> s_issued v\<close> show ?thesis by (cases "(h, x, v)" rule: host_effect.cases) auto
  qed (auto simp: r m script_effect_def split: option.splits)
qed

text \<open>Updating one ghost: the others stay, the credits change by that one.\<close>
lemma once_invI:
  assumes "once_inv i gs v" and "n < length gs" and "i \<notin> snd g"
    and "i \<in> s_issued w"
    and "\<And>m. m + (if fst (gs ! n) then 1 else 0) = length (filter fst gs) + (if fst g then 1 else 0) \<Longrightarrow> in_one_place m w i"
  shows "once_inv i (gs[n := g]) w"
  using assms filter_update [OF assms(2), of fst g]
  by (auto simp: once_inv_def dest!: set_update_subset_insert [THEN subsetD])

lemma once_same:
  assumes "once_inv i gs v" and "n < length gs" and "i \<in> s_issued w"
    and "in_one_place (length (filter fst gs)) v i \<Longrightarrow> in_one_place (length (filter fst gs)) w i"
  shows "once_inv i (gs[n := gs ! n]) w"
  using assms by (simp add: once_inv_def)

lemma once_ok_redis:
  assumes J: "once_inv i gs v" and n: "n < length gs" and ok: "once_ok i (gs ! n) (Redis c)"
    and a: "redis_allowed c v x"
  shows "once_inv i (gs[n := once_upd i (gs ! n) (Redis c) (Inr x)]) (redis_effect c v)"
proof -
  obtain cr K where g: "gs ! n = (cr, K)" by fastforce
  have K: "i \<notin> K" using J nth_mem [OF n] g by (auto simp: once_inv_def)
  have iss: "i \<in> s_issued (redis_effect c v)" using J issued_grow [of i v "Redis c"] by (simp add: once_inv_def)
  have p: "in_one_place (length (filter fst gs)) v i" using J by (simp add: once_inv_def)
  show ?thesis
  proof (cases "harmless i K c")
    case True
    then have "once_upd i (gs ! n) (Redis c) (Inr x) = gs ! n"
      using K g by (cases c) (auto simp: once_upd_def split: reply.splits)
    then show ?thesis using once_same [OF J n iss] harmless_place [OF True K] by simp
  next
    case False
    show ?thesis
    proof (cases c)
      case (LPUSH k y)
      with False ok g have "cr" "y = i" "y \<notin> K" by auto
      then have "once_upd i (gs ! n) (Redis c) (Inr x) = (False, K)" by (simp add: once_upd_def LPUSH g)
      then show ?thesis
        using p \<open>cr\<close> \<open>y = i\<close> K g LPUSH iss by (auto intro!: once_invI [OF J n] push_place simp del: redis_effect.simps)
    next
      case (ZREM k y)
      with False ok g obtain q where q: "\<not> cr" "k = delayed_key q" by auto
      show ?thesis
      proof (cases "y = i")
        case True
        then have "once_upd i (gs ! n) (Redis c) (Inr x) = (s_zsets v (delayed_key q) i \<noteq> None, K)"
          using a q g by (auto simp: once_upd_def ZREM)
        then show ?thesis
          using p q K g ZREM iss True zrem_other [of v "delayed_key q" i i] zrem_place [OF p, of q]
          by (auto intro!: once_invI [OF J n] simp del: redis_effect.simps split: if_splits)
      next
        case False
        then have "once_upd i (gs ! n) (Redis c) (Inr x) = gs ! n"
          by (auto simp: once_upd_def ZREM split: reply.splits)
        then show ?thesis
          using once_same [OF J n iss] zrem_other [of v k y i] False ZREM by simp
      qed
    qed (use False ok g in auto)
  qed
qed

lemma once_frame:
  assumes "s_lists w = s_lists v" and "s_zsets w = s_zsets v"
  shows "in_one_place n w i = in_one_place n v i"
  using assms by (intro place_cong) simp_all

lemma once_discipline: "backend exec view \<Longrightarrow> discipline exec view (once_ok i) (once_upd i) (False, {}) (once_inv i)"
proof (intro discipline.intro discipline_axioms.intro)
  fix gs v n c x
  assume J: "once_inv i gs v" and n: "n < length gs" and ok: "once_ok i (gs ! n) c" and a: "allowed c v x"
  have K: "i \<notin> snd (gs ! n)" using J nth_mem [OF n] by (auto simp: once_inv_def)
  have iss: "i \<in> s_issued (effect c x v)" using J issued_grow [of i v c] by (simp add: once_inv_def)
  show "once_inv i (gs[n := once_upd i (gs ! n) c (Inr x)]) (effect c x v)"
  proof (cases c)
    case (Redis rc)
    with once_ok_redis [OF J n] ok a show ?thesis by simp
  next
    case (RedisMulti cs)
    then show ?thesis using once_same [OF J n iss] harmless_multi [OF _ K] ok by (simp add: once_upd_def)
  next
    case (RedisEval k f)
    have "in_one_place m (effect c x v) i = in_one_place m v i" for m
      by (rule once_frame) (auto simp: RedisEval script_effect_def split: option.splits)
    with RedisEval once_same [OF J n iss] show ?thesis by (simp add: once_upd_def)
  next
    case (Pg q)
    have "in_one_place m (effect c x v) i = in_one_place m v i" for m
      by (rule once_frame) (cases q; simp add: Pg)+
    with Pg once_same [OF J n iss] show ?thesis by (simp add: once_upd_def)
  next
    case (Host h)
    have p: "in_one_place m (effect c x v) i = in_one_place m v i" for m
      by (rule once_frame) (cases "(h, x, v)" rule: host_effect.cases; simp add: Host)+
    show ?thesis
    proof (cases "h = NewUuid")
      case True
      then obtain j where "x = RStr j" "j \<notin> s_issued v" using a Host by auto
      then have "once_upd i (gs ! n) c (Inr x) = (fst (gs ! n), insert j (snd (gs ! n)))" "j \<noteq> i"
        using True Host J by (auto simp: once_upd_def once_inv_def)
      moreover have "in_one_place (length (filter fst gs)) v i" using J by (simp add: once_inv_def)
      ultimately show ?thesis
        using K iss p by (simp only:) (rule once_invI [OF J n], auto split: if_splits)
    next
      case False
      then have "once_upd i (gs ! n) c (Inr x) = gs ! n" by (cases h) (simp_all add: once_upd_def Host)
      then show ?thesis using once_same [OF J n iss] p by simp
    qed
  qed
next
  fix gs v n c e
  assume J: "once_inv i gs v" and n: "n < length gs"
  have "once_upd i (gs ! n) c (Inl e) = gs ! n" by (simp add: once_upd_def split: call.splits rcmd.splits host_cmd.splits)
  moreover have "s_issued (fail_effect c v) = s_issued v \<and> s_lists (fail_effect c v) = s_lists v \<and> s_zsets (fail_effect c v) = s_zsets v"
  proof (cases c)
    case (Host h)
    then show ?thesis by (cases h) simp_all
  qed simp_all
  ultimately show "once_inv i (gs[n := once_upd i (gs ! n) c (Inl e)]) (fail_effect c v)"
    using once_same [OF J n] once_frame [of "fail_effect c v" v] J by (simp add: once_inv_def)
qed (auto simp: once_inv_def)

interpretation once: discipline "mem_exec faults" mem_view "once_ok i" "once_upd i" "(False, {})" "once_inv i" for faults i
  by (rule once_discipline [OF mem_backend])

subsection \<open>The programs\<close>

text \<open>A scheduler's tick, a producer's enqueue, a worker's pull.\<close>
definition promoters :: "unit prog set" where
  "promoters = {scheduler_tick} \<union> {void (enqueue bus n p opts) | bus n p opts. True} \<union>
     {void (pullJob w n) | w n. True} \<union> {void (pullJobNonBlocking w n) | w n. True}"

abbreviation paid :: "string \<Rightarrow> bool \<times> string set \<Rightarrow> 'a prog \<Rightarrow> (err + 'a \<Rightarrow> bool \<times> string set \<Rightarrow> bool) \<Rightarrow> bool" where
  "paid i g p Q \<equiv> disc (once_ok i) (once_upd i) g p Q"

text \<open>A program that returns owes no push.\<close>
definition owes_nothing :: "err + 'a \<Rightarrow> bool \<times> string set \<Rightarrow> bool" where
  "owes_nothing r g \<longleftrightarrow> (\<forall>a. r = Inr a \<longrightarrow> \<not> fst g)"

lemma owes_nothing_simps [simp]: "owes_nothing (Inl e) g" "owes_nothing (Inr a) g \<longleftrightarrow> \<not> fst g"
  by (simp_all add: owes_nothing_def)

lemma once_upd_same [simp]:
  "once_upd i g (Redis (SMEMBERS k)) r = g" "once_upd i g (Redis (GET k)) r = g" "once_upd i g (Redis (SETEX k y t)) r = g"
  "once_upd i g (Redis (HSET k fs)) r = g" "once_upd i g (Redis (HGET k f)) r = g" "once_upd i g (Redis (HGETALL k)) r = g"
  "once_upd i g (Redis (RPOPLPUSH a b)) r = g" "once_upd i g (Redis (BLMOVE a b ttl)) r = g"
  "once_upd i g (Redis (ZRANGEBYSCORE k u)) r = g" "once_upd i g (Redis (PUBLISH ch m)) r = g"
  "once_upd i g (Redis (ZADD k sc y)) r = g" "once_upd i g (RedisMulti cs) r = g" "once_upd i g (Pg q) r = g"
  "once_upd i g (Host Now) r = g" "once_upd i g (Host (CronNext ex)) r = g"
  by (simp_all add: once_upd_def)

lemma paid_uuid: "paid i (cr, K) uuidv4 Q \<longleftrightarrow>
    (\<forall>e. Q (Inl e) (cr, K)) \<and> (\<forall>j. Q (Inr j) (cr, insert j K))"
  by (auto simp: uuidv4_def disc_call then_disc_def all_reply once_upd_def)

lemma paid_zrem: "paid i (False, K) (zrem k j) Q \<longleftrightarrow>
    (\<forall>e. Q (Inl e) (False, K)) \<and> (\<forall>n. Q (Inr n) (if n \<noteq> 0 \<and> j = i \<and> (\<exists>q. k = delayed_key q) then (True, K) else (False, K)))"
  by (auto simp: redis_int_def disc_call then_disc_def all_reply once_upd_def)

lemma paid_lpush: "j \<noteq> i \<or> cr \<Longrightarrow> paid i (cr, K) (lpush k j) Q \<longleftrightarrow>
    (\<forall>e. Q (Inl e) (cr, K)) \<and> Q (Inr ()) (cr \<and> \<not> (j = i \<and> j \<notin> K), K)"
  by (auto simp: redis_unit_def disc_call then_disc_def once_upd_def)

lemmas paid_neutral = disc_neutral [where ok = "once_ok i" and upd = "once_upd i" for i]
  disc_neutral_host [where ok = "once_ok i" and upd = "once_upd i" for i]
  disc_neutral_others [where ok = "once_ok i" and upd = "once_upd i" for i]

lemmas paid_rules = paid_neutral paid_uuid paid_zrem

lemma paid_void: "paid i g p owes_nothing \<Longrightarrow> paid i g (void p) owes_nothing"
  by (simp add: void_def, elim disc_mono) (auto simp: then_disc_def owes_nothing_def split: sum.splits)

lemma paid_enqueue: "paid i (False, {}) (enqueue bus n p opts) owes_nothing"
  by (simp add: enqueue_defs paid_rules Let_def split: option.splits)

lemma paid_promote_job:
  assumes "\<And>e h. Q (Inl e) h" and "Q (Inr ()) (False, {})"
  shows "paid i (False, {}) (promote_job q j) Q"
  using assms by (simp add: promote_job_def paid_rules paid_lpush)

lemma paid_promote:
  assumes "\<And>e h. Q (Inl e) h" and "Q (Inr ()) (False, {})"
  shows "paid i (False, {}) promoteDelayedJobs Q"
proof -
  have job: "paid i (False, {}) (forEach js (promote_job q)) R"
    if "\<And>e h. R (Inl e) h" "R (Inr ()) (False, {})" for js q R
    by (rule disc_forEach [where J = "\<lambda>g. g = (False, {})"]) (use that in \<open>auto intro!: paid_promote_job\<close>)
  have "paid i (False, {}) (forEach qs (promote_queue t)) Q" for qs t
    by (rule disc_forEach [where J = "\<lambda>g. g = (False, {})"])
      (use assms in \<open>auto simp: promote_queue_def paid_rules intro!: job\<close>)
  then show ?thesis by (simp add: promoteDelayedJobs_def paid_rules assms)
qed

lemma paid_enqueue_cron:
  "(\<And>e h. Q (Inl e) h) \<Longrightarrow> (\<And>L. Q (Inr ()) (False, L)) \<Longrightarrow> paid i (False, K) (enqueue_cron c d) Q"
  by (simp add: enqueue_cron_def insert_cron_row_def paid_rules Let_def split: option.splits jsnum.splits)

lemma paid_fire_cron:
  "(\<And>e h. Q (Inl e) h) \<Longrightarrow> (\<And>L. Q (Inr ()) (False, L)) \<Longrightarrow> paid i (False, K) (fire_cron c) Q"
  by (simp add: fire_cron_def paid_rules paid_enqueue_cron)

lemma paid_scheduler: "paid i (False, {}) scheduler_tick owes_nothing"
proof -
  have "paid i (False, {}) (forEach cs fire_cron) owes_nothing" for cs
    by (rule disc_forEach [where J = "\<lambda>g. \<not> fst g"]) (auto intro!: paid_fire_cron)
  then have "paid i (False, {}) fireCronJobs owes_nothing" by (simp add: fireCronJobs_def paid_rules)
  then show ?thesis by (simp add: scheduler_tick_def paid_promote)
qed

lemma paid_pull_first:
  "(\<And>r. Q r (False, {})) \<Longrightarrow> paid i (False, {}) (pull_first q d ps) Q"
  by (induction ps) (simp_all add: paid_rules)

lemma paid_pulls: "paid i (False, {}) (pullJob w n) owes_nothing" "paid i (False, {}) (pullJobNonBlocking w n) owes_nothing"
  by (auto simp: pullJob_def pullJobNonBlocking_def paid_rules then_disc_def intro!: paid_pull_first split: prod.splits sum.splits)

lemma paid_promoters: "p \<in> promoters \<Longrightarrow> paid i (False, {}) p owes_nothing"
  by (auto simp: promoters_def intro: paid_scheduler paid_void paid_enqueue paid_pulls)

subsection \<open>Exactly once\<close>


text \<open>Two schedulers take turns over one due job; both see it due, one of them removes it.\<close>
definition two_schedulers :: "unit prog list \<times> mem" where
  "two_schedulers = run_pool (mem_exec no_faults) [0, 1, 0, 1, 0, 1, 0, 1, 0, 1, 0, 1, 0, 0, 0]
     [scheduler_tick, scheduler_tick] (mem_due\<lparr>m_issued := [''j'']\<rparr>)"

lemma two_schedulers_end: "fst two_schedulers = [Ret (), Ret ()]" "undelayed (mem_view (snd two_schedulers)) ''j''"
  by (simp_all add: two_schedulers_def pool_eval scheduler_defs mem_due_def undelayed_def cong: run_congs)


end
