(* ===== verification/Shared_Limit.thy ===== *)
theory Shared_Limit
  imports Concurrency Rate_Limiter
begin

text \<open>
  One bucket, any number of callers at the same time.

  A check by the Lua script reads the clock and then decides in one atomic step, so checks
  reach Redis in an order that need not be that of their times; the rate bound holds
  nevertheless.  The fallback decides on what it read one step earlier, and two callers can
  spend the same token.
\<close>

subsection \<open>The budget\<close>

text \<open>
  \<open>n\<close> grants since time \<open>a\<close>, with balance \<open>x\<close> stamped \<open>l\<close>, at time \<open>b\<close>: what was granted and what
  is left came out of the capacity and the inflow since \<open>a\<close>, and the balance is not below what will
  have flowed in by \<open>b\<close>.
\<close>
definition budget :: "rate_limit_config \<Rightarrow> int \<Rightarrow> int \<Rightarrow> nat \<Rightarrow> (rat \<times> int) option \<Rightarrow> bool" where
  "budget c a b n bk \<longleftrightarrow>
     (case bk of None \<Rightarrow> n = 0
      | Some (x, l) \<Rightarrow>
          0 \<le> x + of_int (b - l) / 1000 * refillRate c \<and>
          (n = 0 \<or> of_nat n + x + of_int (a - l) / 1000 * refillRate c \<le> maxTokens c))"

lemma budget_time:
  assumes "budget c a b n bk" and "b \<le> b'" and "0 \<le> refillRate c"
  shows "budget c a b' n bk"
proof -
  have "of_int (b - l) / 1000 * refillRate c \<le> of_int (b' - l) / 1000 * refillRate c" for l
    using assms(2,3) by (intro mult_right_mono divide_right_mono) auto
  note le = this
  show ?thesis
  proof (cases bk)
    case (Some y)
    with assms(1) le [of "snd y"] show ?thesis by (cases y) (auto simp: budget_def)
  qed (use assms(1) in \<open>simp add: budget_def\<close>)
qed

lemma budget_check:
  fixes c :: rate_limit_config and tn :: int
  assumes "budget c a b n bk" and "a \<le> tn" and "tn \<le> b" and "0 \<le> refillRate c" and "0 \<le> maxTokens c"
  defines "lv \<equiv> level c tn bk"
  shows "budget c a b (if 1 \<le> lv then Suc n else n) (Some (if 1 \<le> lv then lv - 1 else lv, tn))"
proof -
  have ab: "of_int (a - tn) / 1000 * refillRate c \<le> 0" "0 \<le> of_int (b - tn) / 1000 * refillRate c"
    using assms(2-4) by (auto intro!: mult_nonpos_nonneg divide_nonpos_pos)
  have le: "lv \<le> maxTokens c" by (auto simp: lv_def level_def split: option.splits)
  have low: "0 \<le> lv + of_int (b - tn) / 1000 * refillRate c"
  proof (cases bk)
    case (Some y)
    then show ?thesis using assms(1,5) ab
      by (cases y) (auto simp: lv_def level_def budget_def min_def algebra_simps diff_divide_distrib)
  qed (use assms(5) ab in \<open>simp add: lv_def level_def\<close>)
  have up: "of_nat n + lv + of_int (a - tn) / 1000 * refillRate c \<le> maxTokens c"
  proof (cases "n = 0")
    case True
    then show ?thesis using le ab by simp
  next
    case False
    then obtain x l where b: "bk = Some (x, l)" "of_nat n + x + of_int (a - l) / 1000 * refillRate c \<le> maxTokens c"
      using assms(1) by (auto simp: budget_def split: option.splits)
    then have "lv \<le> x + of_int (tn - l) / 1000 * refillRate c" by (simp add: lv_def level_def)
    with b(2) show ?thesis by (simp add: algebra_simps diff_divide_distrib)
  qed
  show ?thesis using low up ab by (auto simp: budget_def)
qed

subsection \<open>Callers of the script\<close>

text \<open>What a caller has: the time it read, and whether it was granted.\<close>
type_synonym caller = "int option \<times> bool"

definition script_at :: "rate_limit_config \<Rightarrow> int \<Rightarrow> script" where
  "script_at c tn = LUA_SCRIPT (js_String (Num (maxTokens c))) (js_String (Num (refillRate c))) (int_str tn)"

definition limit_ok :: "string \<Rightarrow> rate_limit_config \<Rightarrow> caller \<Rightarrow> call \<Rightarrow> bool" where
  "limit_ok q c g cl \<longleftrightarrow> \<not> snd g \<and>
     (cl = Host Now \<or> (\<exists>tn. fst g = Some tn \<and> cl = RedisEval (rateLimit_key q) (script_at c tn)))"

definition limit_upd :: "caller \<Rightarrow> call \<Rightarrow> err + reply \<Rightarrow> caller" where
  "limit_upd g cl r =
     (case r of
        Inr (RInt t) \<Rightarrow> (Some t, snd g)
      | Inr (RInts ns) \<Rightarrow> (fst g, l_allowed (read_limit_reply ns))
      | _ \<Rightarrow> g)"

definition limit_inv :: "string \<Rightarrow> rate_limit_config \<Rightarrow> int \<Rightarrow> caller list \<Rightarrow> store \<Rightarrow> bool" where
  "limit_inv q c a gs v \<longleftrightarrow>
     good_bucket (queue_bucket q c v) \<and> a \<le> s_clock v \<and>
     (\<forall>g \<in> set gs. \<forall>t. fst g = Some t \<longrightarrow> a \<le> t \<and> t \<le> s_clock v) \<and>
     budget c a (s_clock v) (length (filter snd gs)) (hash_bucket (queue_bucket q c v))"

text \<open>The script, as Redis runs it on the bucket of the queue.\<close>
lemma script_bucket:
  assumes "good_bucket (queue_bucket q c v)" and "script_allowed (rateLimit_key q) (script_at c tn) v x"
  defines "lv \<equiv> level c tn (hash_bucket (queue_bucket q c v))"
    and "w \<equiv> script_effect (rateLimit_key q) (script_at c tn) v"
  shows "\<exists>ns. x = RInts ns \<and> l_allowed (read_limit_reply ns) = (1 \<le> lv)"
    and "good_bucket (queue_bucket q c w)"
    and "hash_bucket (queue_bucket q c w) = Some (if 1 \<le> lv then lv - 1 else lv, tn)"
    and "s_clock w = s_clock v"
proof -
  let ?st = "queue_bucket q c v"
  obtain ns fs where e: "script_at c tn (s_hashes v (rateLimit_key q)) = Some (ns, fs)"
    using assms(2) by (auto simp: script_allowed_def split: option.splits)
  have chk: "lua_check tn ?st = (l_allowed (read_limit_reply ns), queue_bucket q c w)"
    using e by (simp add: lua_check_def queue_bucket_def w_def script_effect_def script_at_def)
  then have a: "l_allowed (read_limit_reply ns) = (1 \<le> lv)"
    using lua.check_allowed [OF assms(1), of tn] by (simp add: lv_def queue_bucket_def)
  then show "\<exists>ns. x = RInts ns \<and> l_allowed (read_limit_reply ns) = (1 \<le> lv)"
    using assms(2) e by (auto simp: script_allowed_def)
  show "good_bucket (queue_bucket q c w)" using lua.check_ok [OF assms(1), of tn] chk by simp
  show "hash_bucket (queue_bucket q c w) = Some (if 1 \<le> lv then lv - 1 else lv, tn)"
    using lua.check_bucket [OF assms(1), of tn] chk a by (simp add: lv_def queue_bucket_def)
  show "s_clock w = s_clock v" using e by (simp add: w_def script_effect_def)
qed

lemma limit_discipline:
  assumes "backend exec view"
  shows "discipline exec view (limit_ok q c) limit_upd (None, False) (limit_inv q c a)"
proof (intro discipline.intro discipline_axioms.intro assms)
  fix gs v n cl x
  assume J: "limit_inv q c a gs v" and n: "n < length gs" and ok: "limit_ok q c (gs ! n) cl" and al: "allowed cl v x"
  have g: "good_bucket (queue_bucket q c v)" and a: "a \<le> s_clock v"
    and ts: "\<And>g t. g \<in> set gs \<Longrightarrow> fst g = Some t \<Longrightarrow> a \<le> t \<and> t \<le> s_clock v"
    and b: "budget c a (s_clock v) (length (filter snd gs)) (hash_bucket (queue_bucket q c v))"
    using J by (auto simp: limit_inv_def)
  have r: "0 \<le> refillRate c" "0 \<le> maxTokens c" using lua.rates_nonneg [OF g] by (simp_all add: queue_bucket_def)
  have no: "\<not> snd (gs ! n)" using ok by (simp add: limit_ok_def)
  from ok consider (now) "cl = Host Now"
    | (script) tn where "fst (gs ! n) = Some tn" "cl = RedisEval (rateLimit_key q) (script_at c tn)"
    by (auto simp: limit_ok_def)
  then show "limit_inv q c a (gs[n := limit_upd (gs ! n) cl (Inr x)]) (effect cl x v)"
  proof cases
    case now
    then obtain t where x: "x = RInt t" "s_clock v \<le> t" using al by auto
    have "length (filter snd (gs[n := (Some t, snd (gs ! n))])) = length (filter snd gs)"
      using filter_update [OF n, of snd "(Some t, snd (gs ! n))"] by simp
    moreover have "a \<le> u \<and> u \<le> t" if "h \<in> set (gs[n := (Some t, snd (gs ! n))])" "fst h = Some u" for h u
      using set_update_subset_insert [THEN subsetD, OF that(1)] that(2) ts [of h u] x(2) a by auto
    ultimately show ?thesis
      using g a x budget_time [OF b x(2) r(1)] by (simp add: now limit_upd_def limit_inv_def queue_bucket_def)
  next
    case (script tn)
    let ?w = "script_effect (rateLimit_key q) (script_at c tn) v"
    let ?lv = "level c tn (hash_bucket (queue_bucket q c v))"
    have sa: "script_allowed (rateLimit_key q) (script_at c tn) v x" using al script(2) by simp
    note w = script_bucket [OF g sa]
    obtain ns where ns: "x = RInts ns" "l_allowed (read_limit_reply ns) = (1 \<le> ?lv)" using w(1) by blast
    let ?g = "(Some tn, 1 \<le> ?lv)"
    have u: "limit_upd (gs ! n) cl (Inr x) = ?g" using ns script(1) by (simp add: limit_upd_def)
    have tn: "a \<le> tn" "tn \<le> s_clock v" using ts [OF nth_mem [OF n] script(1)] by simp_all
    have c: "length (filter snd (gs[n := ?g])) = (if 1 \<le> ?lv then Suc (length (filter snd gs)) else length (filter snd gs))"
      using filter_update [OF n, of snd ?g] no by auto
    have "a \<le> u \<and> u \<le> s_clock v" if "h \<in> set (gs[n := ?g])" "fst h = Some u" for h u
      using set_update_subset_insert [THEN subsetD, OF that(1)] that(2) ts [of h u] tn by auto
    then show ?thesis
      using w(2,3,4) a budget_check [OF b tn r] unfolding limit_inv_def u c by (simp add: script(2))
  qed
next
  fix gs v n cl e
  assume J: "limit_inv q c a gs v" and "limit_ok q c (gs ! n) cl" "fallible cl"
  then have "fail_effect cl v = v" by (auto simp: limit_ok_def)
  then show "limit_inv q c a (gs[n := limit_upd (gs ! n) cl (Inl e)]) (fail_effect cl v)"
    using J by (simp add: limit_upd_def)
next
  fix gs v
  assume "limit_inv q c a gs v"
  then show "limit_inv q c a (gs @ [(None, False)]) v" by (auto simp: limit_inv_def)
qed

interpretation limit: discipline "mem_exec faults" mem_view "limit_ok q c" limit_upd "(None, False)" "limit_inv q c a" for faults q c a
  by (rule limit_discipline [OF mem_backend])

text \<open>A caller's answer is what it was granted.\<close>
definition told :: "err + limit_result \<Rightarrow> caller \<Rightarrow> bool" where
  "told r g \<longleftrightarrow> (\<forall>x. r = Inr x \<longrightarrow> l_allowed x = snd g)"

lemma checkLimit_disc: "disc (limit_ok q c) limit_upd (None, False) (checkLimit q c) told"
  by (simp add: checkLimit_def now_def redis_eval_def disc_call then_disc_def all_reply limit_upd_def limit_ok_def
      script_at_def told_def)

definition granted_now :: "limit_result prog list \<Rightarrow> nat" where
  "granted_now ps = length (filter (\<lambda>p. case p of Ret r \<Rightarrow> l_allowed r | _ \<Rightarrow> False) ps)"

lemma granted_now_le:
  "list_all2 (\<lambda>g p. disc ok upd g p told) gs ps \<Longrightarrow> granted_now ps \<le> length (filter snd gs)"
  by (induction rule: list_all2_induct) (auto simp: granted_now_def told_def split: prog.splits)

text \<open>C7: However any number of callers of \<open>checkLimit\<close> on one bucket interleave, on however many
  workers, and although their times may reach Redis out of order, what they are granted together is
  at most the capacity plus the refill rate times the time that passed.\<close>
theorem checkLimit_rate_bound:
  assumes "backend exec view"
    and "good_bucket (queue_bucket q c (view s))"
    and "lua.in_range (s_clock (view s)) (queue_bucket q c (view s))"
    and "pool_reach exec {checkLimit q c} ([], s) (ps, t)"
  shows "of_nat (granted_now ps) \<le>
    maxTokens c + of_int (s_clock (view t) - s_clock (view s)) / 1000 * refillRate c"
proof -
  let ?a = "s_clock (view s)" and ?b = "s_clock (view t)"
  have r: "0 \<le> refillRate c" "0 \<le> maxTokens c" using lua.rates_nonneg [OF assms(2)] by (simp_all add: queue_bucket_def)
  have "limit_inv q c ?a [] (view s)"
    using assms(2,3) r by (auto simp: limit_inv_def budget_def lua.in_range_def split: option.splits)
  from discipline.reach_disc [OF limit_discipline [OF assms(1)] assms(4) this, of told] checkLimit_disc
  obtain gs where gs: "list_all2 (\<lambda>g p. disc (limit_ok q c) limit_upd g p told) gs ps" and J: "limit_inv q c ?a gs (view t)"
    by auto
  have "of_nat (length (filter snd gs)) \<le> maxTokens c + of_int (?b - ?a) / 1000 * refillRate c"
  proof (cases "length (filter snd gs) = 0")
    case True
    then show ?thesis using r J by (simp add: limit_inv_def)
  next
    case False
    with J obtain x l where "0 \<le> x + of_int (?b - l) / 1000 * refillRate c"
      "of_nat (length (filter snd gs)) + x + of_int (?a - l) / 1000 * refillRate c \<le> maxTokens c"
      by (auto simp: limit_inv_def budget_def split: option.splits)
    then show ?thesis by (simp add: algebra_simps diff_divide_distrib)
  qed
  moreover have "(of_nat (granted_now ps) :: rat) \<le> of_nat (length (filter snd gs))"
    using granted_now_le [OF gs] by simp
  ultimately show ?thesis by linarith
qed

text \<open>Two concurrent callers of the fallback, which the worker uses, can both be granted the only
  token of a bucket at the same moment: its read and its write are two steps.\<close>
theorem checkLimitFallback_race:
  "\<exists>ns ps t. run_pool (mem_exec no_faults) ns
       [checkLimitFallback ''q'' one_per_second, checkLimitFallback ''q'' one_per_second] (mem_empty 5000) = (ps, t) \<and>
     granted_now ps = 2 \<and> s_clock (mem_view t) = 5000 \<and> maxTokens one_per_second = 1"
  by (rule exI [of _ "[0, 1, 0, 1, 0, 1]"])
    (simp add: pool_eval checkLimitFallback_def fallback_newTokens_def fallback_decide_def retry_after_def
      one_per_second_def granted_now_def)

text \<open>The same schedule with the script.\<close>
definition two_checks :: "limit_result prog list \<times> mem" where
  "two_checks = run_pool (mem_exec no_faults) [0, 1, 1, 0]
     [checkLimit ''q'' one_per_second, checkLimit ''q'' one_per_second] (mem_empty 5000)"

theorem checkLimit_rate_bound_witness:
  "of_nat (granted_now (fst two_checks)) \<le>
     maxTokens one_per_second + of_int (s_clock (mem_view (snd two_checks)) - 5000) / 1000 * refillRate one_per_second"
proof -
  have "pool_reach (mem_exec no_faults) {checkLimit ''q'' one_per_second} ([], mem_empty 5000) (fst two_checks, snd two_checks)"
    unfolding two_checks_def prod.collapse by (rule run_pool_from_start) auto
  from checkLimit_rate_bound [OF mem_backend good_one_per_second _ this] show ?thesis
    by (simp add: lua.in_range_def hash_bucket_def queue_bucket_def mem_empty_def)
qed

end
