(* ===== verification/Janitor_Races.thy ===== *)
theory Janitor_Races
  imports Concurrency Worker Janitor
begin

text \<open>
  What the janitor does when the worker it took for dead is still pulling, and when two
  janitors look at the same worker: the reads of a tick and its writes are separate steps.
\<close>

definition worker_w1 :: worker where
  "worker_w1 = \<lparr>w_queue = ''default'', w_workerId = ''w1'', w_registry = [], w_rateLimits = Map.empty\<rparr>"

text \<open>A registered worker whose heartbeat has expired; one job waits, or one job is in its hands.\<close>
definition mem_silent :: "string \<Rightarrow> mem" where
  "mem_silent k = (mem_empty 5000)\<lparr>m_sets := (\<lambda>x. if x = workerRegistry_key then [''w1''] else []),
     m_lists := (\<lambda>x. if x = k then [''j''] else [])\<rparr>"


text \<open>Two janitors that read the processing list of a dead worker before either deletes it both
  requeue its job: the queue then holds the job twice.\<close>
theorem janitors_duplicate_job:
  "\<exists>ns ps t. run_pool (mem_exec no_faults) ns [janitor_tick, janitor_tick]
       (mem_silent (processing_key ''w1'')) = (ps, t) \<and>
     ps = [Ret (), Ret ()] \<and> s_lists (mem_view t) (queue_key ''default'') = [''j'', ''j'']"
  by (intro exI [of _ "[0, 0, 0, 1, 1, 1, 0, 0, 0, 0, 1, 1, 1, 1, 0, 0, 0, 1, 1, 1]"])
    (simp add: pool_eval janitor_defs mem_silent_def dao_defs targetList_def key_defs cong: run_congs)

end
