(* ===== verification/Worker_Loop.thy ===== *)
theory Worker_Loop
  imports Concurrency Worker
begin

text \<open>
  The life of one worker process: the pull loop, \<open>processAvailable\<close>, the jobs in flight and
  \<open>stop\<close>, which interleave on the event loop (\<^verbatim>\<open>worker/src/worker.ts\<close> lines 102--226).

  Each activity has a program counter; one step is what it does between two \<open>await\<close>s
  (\<open>loop_turn\<close>, \<open>avail_turn\<close>, \<open>job_turn\<close>, \<open>stop_turn\<close>), and \<open>worker_step\<close> lets them take turns
  with each other, with the 30 s timer and with whatever other processes do to the services.
\<close>

subsection \<open>State\<close>

text \<open>A job in flight has a ticket, the identity of its promise.\<close>
type_synonym ticket = nat

datatype loop_pc = NotStarted | AtTop | Racing "ticket list" | Pulling "(string option \<times> nat) prog" | BackingOff | Exited

datatype avail_pc = AvIdle | AvCheck | AvRacing "ticket list" | AvPulling "(string option \<times> nat) prog"
  | AvSettling "ticket list" | AvDone | AvFailed err

datatype stop_pc = NotStopping | Marking "(worker_state \<times> err option) prog" | Draining "ticket list" | AwaitLoop
  | Cleaning "(worker_state \<times> err option) prog" | Stopped | StopFailed err

record worker_rt =
  rt_pullIndex :: nat
  rt_flags :: worker_state
  rt_activeJobs :: "(ticket \<times> unit prog) list"
  rt_next :: ticket
  rt_loop :: loop_pc
  rt_avail :: avail_pc
  rt_stop :: stop_pc

definition tickets :: "worker_rt \<Rightarrow> ticket list" where
  "tickets rt = map fst (rt_activeJobs rt)"

text \<open>\<open>this.activeJobs.size >= this.concurrency\<close>\<close>
definition slots_full :: "jsnum \<Rightarrow> worker_rt \<Rightarrow> bool" where
  "slots_full concurrency rt \<longleftrightarrow> js_ge (Num (of_nat (length (rt_activeJobs rt)))) concurrency"

text \<open>\<open>Promise.race\<close> is over once one of its promises is, \<open>Promise.allSettled\<close> once all are.\<close>
definition one_settled :: "ticket list \<Rightarrow> worker_rt \<Rightarrow> bool" where
  "one_settled ts rt \<longleftrightarrow> list_ex (\<lambda>t. t \<notin> set (tickets rt)) ts"

definition all_settled :: "ticket list \<Rightarrow> worker_rt \<Rightarrow> bool" where
  "all_settled ts rt \<longleftrightarrow> list_all (\<lambda>t. t \<notin> set (tickets rt)) ts"

text \<open>Lines 162--166 and 214--218: \<open>processOne\<close> runs beside the loop.\<close>
definition start_job :: "worker \<Rightarrow> string \<Rightarrow> worker_rt \<Rightarrow> worker_rt" where
  "start_job w jobId rt = rt\<lparr>rt_activeJobs := rt_activeJobs rt @ [(rt_next rt, processOne w jobId)], rt_next := rt_next rt + 1\<rparr>"

text \<open>A pull takes its index at once, also where it fails later.\<close>
definition next_index :: "worker_rt \<Rightarrow> worker_rt" where
  "next_index rt = rt\<lparr>rt_pullIndex := snd (getPriorityOrder (rt_pullIndex rt))\<rparr>"

subsection \<open>Turns\<close>

definition loop_turn :: "'s service \<Rightarrow> worker \<Rightarrow> jsnum \<Rightarrow> worker_rt \<times> 's \<Rightarrow> (worker_rt \<times> 's) option" where
  "loop_turn exec w concurrency c =
     (case c of (rt, s) \<Rightarrow>
        (case rt_loop rt of
           NotStarted \<Rightarrow> None
         | AtTop \<Rightarrow>
             if ws_stopRequested (rt_flags rt) then Some (rt\<lparr>rt_loop := Exited\<rparr>, s)
             else if slots_full concurrency rt then Some (rt\<lparr>rt_loop := Racing (tickets rt)\<rparr>, s)
             else Some (next_index rt\<lparr>rt_loop := Pulling (pullJob w (rt_pullIndex rt))\<rparr>, s)
         | Racing ts \<Rightarrow> if one_settled ts rt then Some (rt\<lparr>rt_loop := AtTop\<rparr>, s) else None
         | Pulling p \<Rightarrow>
             (case p of
                Call cl k \<Rightarrow> (case exec cl s of (r, s') \<Rightarrow> Some (rt\<lparr>rt_loop := Pulling (k r)\<rparr>, s'))
              | Throw e \<Rightarrow> Some (rt\<lparr>rt_loop := BackingOff\<rparr>, s)
              | Ret x \<Rightarrow>
                  if truthy (fst x) then Some (start_job w (nullish (fst x) '''') (rt\<lparr>rt_loop := AtTop\<rparr>), s)
                  else Some (rt\<lparr>rt_loop := AtTop\<rparr>, s))
         | BackingOff \<Rightarrow> Some (rt\<lparr>rt_loop := AtTop\<rparr>, s)
         | Exited \<Rightarrow> None))"

definition avail_turn :: "'s service \<Rightarrow> worker \<Rightarrow> jsnum \<Rightarrow> worker_rt \<times> 's \<Rightarrow> (worker_rt \<times> 's) option" where
  "avail_turn exec w concurrency c =
     (case c of (rt, s) \<Rightarrow>
        (case rt_avail rt of
           AvCheck \<Rightarrow>
             if slots_full concurrency rt then Some (rt\<lparr>rt_avail := AvRacing (tickets rt)\<rparr>, s)
             else Some (next_index rt\<lparr>rt_avail := AvPulling (pullJobNonBlocking w (rt_pullIndex rt))\<rparr>, s)
         | AvRacing ts \<Rightarrow> if one_settled ts rt then Some (rt\<lparr>rt_avail := AvCheck\<rparr>, s) else None
         | AvPulling p \<Rightarrow>
             (case p of
                Call cl k \<Rightarrow> (case exec cl s of (r, s') \<Rightarrow> Some (rt\<lparr>rt_avail := AvPulling (k r)\<rparr>, s'))
              | Throw e \<Rightarrow> Some (rt\<lparr>rt_avail := AvFailed e\<rparr>, s)
              | Ret x \<Rightarrow>
                  if truthy (fst x) then Some (start_job w (nullish (fst x) '''') (rt\<lparr>rt_avail := AvCheck\<rparr>), s)
                  else if rt_activeJobs rt \<noteq> [] then Some (rt\<lparr>rt_avail := AvSettling (tickets rt)\<rparr>, s)
                  else Some (rt\<lparr>rt_avail := AvDone\<rparr>, s))
         | AvSettling ts \<Rightarrow> if all_settled ts rt then Some (rt\<lparr>rt_avail := AvDone\<rparr>, s) else None
         | _ \<Rightarrow> None))"

text \<open>A job makes its next call; once over, whatever its outcome, it leaves \<open>activeJobs\<close>.\<close>
definition job_turn :: "'s service \<Rightarrow> nat \<Rightarrow> worker_rt \<times> 's \<Rightarrow> (worker_rt \<times> 's) option" where
  "job_turn exec n c =
     (case c of (rt, s) \<Rightarrow>
        if n < length (rt_activeJobs rt)
        then (case rt_activeJobs rt ! n of (t, p) \<Rightarrow>
           (case p of
              Call cl k \<Rightarrow> (case exec cl s of (r, s') \<Rightarrow> Some (rt\<lparr>rt_activeJobs := (rt_activeJobs rt)[n := (t, k r)]\<rparr>, s'))
            | _ \<Rightarrow> Some (rt\<lparr>rt_activeJobs := take n (rt_activeJobs rt) @ drop (Suc n) (rt_activeJobs rt)\<rparr>, s)))
        else None)"

text \<open>\<open>stop\<close>; \<open>timeout\<close> says that its 30 s have passed.\<close>
definition stop_turn :: "'s service \<Rightarrow> worker \<Rightarrow> bool \<Rightarrow> worker_rt \<times> 's \<Rightarrow> (worker_rt \<times> 's) option" where
  "stop_turn exec w timeout c =
     (case c of (rt, s) \<Rightarrow>
        (case rt_stop rt of
           NotStopping \<Rightarrow>
             Some (rt\<lparr>rt_flags := (rt_flags rt)\<lparr>ws_stopRequested := True\<rparr>, rt_stop := Marking (stop_begin w (rt_flags rt))\<rparr>, s)
         | Marking p \<Rightarrow>
             (case p of
                Call cl k \<Rightarrow> (case exec cl s of (r, s') \<Rightarrow> Some (rt\<lparr>rt_stop := Marking (k r)\<rparr>, s'))
              | Throw e \<Rightarrow> Some (rt\<lparr>rt_stop := StopFailed e\<rparr>, s)
              | Ret (ws, err) \<Rightarrow>
                  (case err of
                     Some e \<Rightarrow> Some (rt\<lparr>rt_stop := StopFailed e\<rparr>, s)
                   | None \<Rightarrow>
                       if rt_activeJobs rt \<noteq> [] then Some (rt\<lparr>rt_stop := Draining (tickets rt)\<rparr>, s)
                       else Some (rt\<lparr>rt_stop := AwaitLoop\<rparr>, s)))
         | Draining ts \<Rightarrow> if timeout \<or> all_settled ts rt then Some (rt\<lparr>rt_stop := AwaitLoop\<rparr>, s) else None
         | AwaitLoop \<Rightarrow>
             if rt_loop rt = Exited \<or> rt_loop rt = NotStarted
             then Some (rt\<lparr>rt_stop := Cleaning (stop_finish w (rt_flags rt))\<rparr>, s) else None
         | Cleaning p \<Rightarrow>
             (case p of
                Call cl k \<Rightarrow> (case exec cl s of (r, s') \<Rightarrow> Some (rt\<lparr>rt_stop := Cleaning (k r)\<rparr>, s'))
              | Throw e \<Rightarrow> Some (rt\<lparr>rt_stop := StopFailed e\<rparr>, s)
              | Ret (ws, err) \<Rightarrow>
                  (case err of
                     Some e \<Rightarrow> Some (rt\<lparr>rt_stop := StopFailed e\<rparr>, s)
                   | None \<Rightarrow> Some (rt\<lparr>rt_flags := ws, rt_stop := Stopped\<rparr>, s)))
         | _ \<Rightarrow> None))"

subsection \<open>Interleaving\<close>

inductive worker_step ::
  "'s service \<Rightarrow> worker \<Rightarrow> jsnum \<Rightarrow> ('s \<Rightarrow> 's \<Rightarrow> bool) \<Rightarrow> worker_rt \<times> 's \<Rightarrow> worker_rt \<times> 's \<Rightarrow> bool"
  for exec :: "'s service" and w concurrency others where
  Loop: "loop_turn exec w concurrency c = Some d \<Longrightarrow> worker_step exec w concurrency others c d"
| Avail: "avail_turn exec w concurrency c = Some d \<Longrightarrow> worker_step exec w concurrency others c d"
| Job: "job_turn exec n c = Some d \<Longrightarrow> worker_step exec w concurrency others c d"
| Stop: "stop_turn exec w timeout c = Some d \<Longrightarrow> worker_step exec w concurrency others c d"
| Others: "others s s' \<Longrightarrow> worker_step exec w concurrency others (rt, s) (rt, s')"

abbreviation worker_reach ::
  "'s service \<Rightarrow> worker \<Rightarrow> jsnum \<Rightarrow> ('s \<Rightarrow> 's \<Rightarrow> bool) \<Rightarrow> worker_rt \<times> 's \<Rightarrow> worker_rt \<times> 's \<Rightarrow> bool" where
  "worker_reach exec w concurrency others \<equiv> (worker_step exec w concurrency others)\<^sup>*\<^sup>*"

inductive_cases worker_stepE: "worker_step exec w concurrency others c d"

text \<open>After \<open>start\<close>, and a worker on which only \<open>processAvailable\<close> was called.\<close>

definition started :: worker_rt where
  "started = \<lparr>rt_pullIndex = 0, rt_flags = \<lparr>ws_running = True, ws_stopRequested = False, ws_heartbeatInterval = True\<rparr>,
     rt_activeJobs = [], rt_next = 0, rt_loop = AtTop, rt_avail = AvIdle, rt_stop = NotStopping\<rparr>"

definition draining_once :: worker_rt where
  "draining_once = \<lparr>rt_pullIndex = 0, rt_flags = \<lparr>ws_running = False, ws_stopRequested = False, ws_heartbeatInterval = False\<rparr>,
     rt_activeJobs = [], rt_next = 0, rt_loop = NotStarted, rt_avail = AvCheck, rt_stop = NotStopping\<rparr>"

subsection \<open>The bound on the jobs in flight\<close>

definition pulling :: "worker_rt \<Rightarrow> bool" where
  "pulling rt \<longleftrightarrow> (\<exists>p. rt_loop rt = Pulling p) \<or> (\<exists>p. rt_avail rt = AvPulling p)"

text \<open>Only one of the two pumps runs; a pull in flight has a slot reserved.\<close>
definition within_slots :: "nat \<Rightarrow> worker_rt \<Rightarrow> bool" where
  "within_slots n rt \<longleftrightarrow> (rt_avail rt = AvIdle \<or> rt_loop rt = NotStarted) \<and>
     length (rt_activeJobs rt) \<le> n \<and> (pulling rt \<longrightarrow> length (rt_activeJobs rt) < n)"

lemma slots_full_Num: "slots_full (Num (of_nat n)) rt \<longleftrightarrow> n \<le> length (rt_activeJobs rt)"
  by (simp add: slots_full_def)

lemmas turn_defs = loop_turn_def avail_turn_def job_turn_def stop_turn_def start_job_def next_index_def

lemma stop_turn_frame:
  assumes "stop_turn exec w timeout c = Some d"
  shows "rt_activeJobs (fst d) = rt_activeJobs (fst c) \<and> rt_loop (fst d) = rt_loop (fst c) \<and> rt_avail (fst d) = rt_avail (fst c)"
proof -
  obtain rt s where c: "c = (rt, s)" by fastforce
  show ?thesis
  proof (cases "rt_stop rt")
    case (Marking p)
    with assms c show ?thesis by (cases p) (auto simp: stop_turn_def split: prod.splits option.splits if_splits)
  next
    case (Cleaning p)
    with assms c show ?thesis by (cases p) (auto simp: stop_turn_def split: prod.splits option.splits)
  qed (use assms c in \<open>auto simp: stop_turn_def split: if_splits\<close>)
qed

lemma job_turn_tickets:
  assumes "job_turn exec n (rt, s) = Some (rt', s')"
  shows "fst ` set (rt_activeJobs rt') \<subseteq> fst ` set (rt_activeJobs rt)"
    and "rt_loop rt' = rt_loop rt" and "rt_avail rt' = rt_avail rt"
proof -
  obtain t p where n: "n < length (rt_activeJobs rt)" "rt_activeJobs rt ! n = (t, p)"
    using assms by (cases "rt_activeJobs rt ! n") (auto simp: job_turn_def split: if_splits)
  have "map fst ((rt_activeJobs rt)[n := (t, q)]) = map fst (rt_activeJobs rt)" for q
    using n by (simp add: map_update list_update_same_conv)
  then have "fst ` set ((rt_activeJobs rt)[n := (t, q)]) = fst ` set (rt_activeJobs rt)" for q
    by (metis set_map)
  moreover have "fst ` set (take n (rt_activeJobs rt) @ drop (Suc n) (rt_activeJobs rt)) \<subseteq> fst ` set (rt_activeJobs rt)"
    by (intro image_mono) (auto dest: in_set_takeD in_set_dropD)
  moreover have "(\<exists>q. rt_activeJobs rt' = (rt_activeJobs rt)[n := (t, q)]) \<or>
      rt_activeJobs rt' = take n (rt_activeJobs rt) @ drop (Suc n) (rt_activeJobs rt)"
    using assms n by (cases p) (auto simp: job_turn_def split: prod.splits)
  ultimately show "fst ` set (rt_activeJobs rt') \<subseteq> fst ` set (rt_activeJobs rt)"
    by (elim disjE exE) simp_all
  show "rt_loop rt' = rt_loop rt" "rt_avail rt' = rt_avail rt"
    using assms n by (auto simp: job_turn_def split: prog.splits prod.splits)
qed

lemma within_slots_step:
  assumes "worker_step exec w (Num (of_nat n)) others c d" and "within_slots n (fst c)"
  shows "within_slots n (fst d)"
  using assms
proof cases
  case Loop
  then show ?thesis using assms(2)
    by (cases c) (auto simp: loop_turn_def start_job_def next_index_def within_slots_def pulling_def slots_full_Num
        split: loop_pc.splits prog.splits if_splits prod.splits)
next
  case Avail
  then show ?thesis using assms(2)
    by (cases c) (auto simp: avail_turn_def start_job_def next_index_def within_slots_def pulling_def slots_full_Num
        split: avail_pc.splits prog.splits if_splits prod.splits)
next
  case (Job n)
  then show ?thesis using assms(2)
    by (cases c) (auto simp: job_turn_def within_slots_def pulling_def split: prog.splits if_splits prod.splits)
next
  case (Stop t)
  then show ?thesis using assms(2) stop_turn_frame [of exec w t c d] by (simp add: within_slots_def pulling_def)
qed (auto simp: within_slots_def)

text \<open>What a program can return.\<close>
primrec prog_rets :: "'a prog \<Rightarrow> 'a set" where
  "prog_rets (Ret a) = {a}"
| "prog_rets (Throw e) = {}"
| "prog_rets (Call c k) = (\<Union>r. prog_rets (k r))"

lemma prog_rets_await: "z \<in> prog_rets (await p f) \<Longrightarrow> \<exists>x. z \<in> prog_rets (f x)"
  by (induction p) auto

lemma prog_rets_try: "prog_rets (try_catch p h) \<subseteq> prog_rets p \<union> (\<Union>e. prog_rets (h e))"
  by (induction p) auto

lemma stop_finish_flags:
  "(ws', e) \<in> prog_rets (stop_finish w ws) \<Longrightarrow> ws_stopRequested ws' = ws_stopRequested ws"
  by (auto simp: stop_finish_def seqp_def dest!: prog_rets_try [THEN subsetD] prog_rets_await)

subsection \<open>Stopping\<close>

text \<open>The request stays, and cleaning up does not lift it.\<close>
definition request_kept :: "worker_rt \<Rightarrow> bool" where
  "request_kept rt \<longleftrightarrow>
     (rt_stop rt \<noteq> NotStopping \<longrightarrow> ws_stopRequested (rt_flags rt)) \<and>
     (\<forall>p. rt_stop rt = Cleaning p \<longrightarrow> (\<forall>x \<in> prog_rets p. ws_stopRequested (fst x))) \<and>
     (rt_loop rt = Exited \<longrightarrow> ws_stopRequested (rt_flags rt)) \<and>
     (rt_avail rt = AvIdle \<or> rt_loop rt = NotStarted)"

lemma request_kept_step:
  assumes "worker_step exec w cc others c d" and "request_kept (fst c)"
  shows "request_kept (fst d)"
  using assms
proof cases
  case Loop
  then show ?thesis using assms(2)
    by (cases c) (auto simp: loop_turn_def start_job_def next_index_def request_kept_def
        split: loop_pc.splits prog.splits if_splits prod.splits)
next
  case Avail
  then show ?thesis using assms(2)
    by (cases c) (auto simp: avail_turn_def start_job_def next_index_def request_kept_def
        split: avail_pc.splits prog.splits if_splits prod.splits)
next
  case (Job n)
  then show ?thesis using assms(2)
    by (cases c) (auto simp: job_turn_def request_kept_def split: prog.splits if_splits prod.splits)
next
  case (Stop t)
  obtain rt s where c: "c = (rt, s)" by fastforce
  show ?thesis
  proof (cases "rt_stop rt")
    case (Cleaning p)
    with Stop assms(2) show ?thesis
      by (fastforce simp: c stop_turn_def request_kept_def split: prog.splits prod.splits option.splits)
  next
    case AwaitLoop
    with Stop assms(2) show ?thesis
      by (auto simp: c stop_turn_def request_kept_def dest: stop_finish_flags split: if_splits)
  qed (use Stop assms(2) in \<open>auto simp: c stop_turn_def request_kept_def
      split: prog.splits prod.splits option.splits if_splits\<close>)
qed (auto simp: request_kept_def)

lemma worker_invariant:
  assumes "worker_reach exec w cc others c d" and "I (fst c)"
    and "\<And>a b. worker_step exec w cc others a b \<Longrightarrow> I (fst a) \<Longrightarrow> I (fst b)"
  shows "I (fst d)"
  using assms(1,2) by (induction rule: rtranclp_induct) (auto intro: assms(3))

lemma initial_states:
  assumes "rt0 = started \<or> rt0 = draining_once"
  shows "within_slots n rt0" and "request_kept rt0"
  using assms by (auto simp: started_def draining_once_def within_slots_def pulling_def request_kept_def)

text \<open>C9: However the pull loop, \<open>stop\<close>, the jobs in flight and other processes interleave, a worker
  whose concurrency is the number n never has more than n jobs in flight; neither does
  \<open>processAvailable\<close>.\<close>
theorem jobs_in_flight_bounded:
  assumes "rt0 = started \<or> rt0 = draining_once"
    and "worker_reach exec w (Num (of_nat n)) others (rt0, s) (rt, t)"
  shows "length (rt_activeJobs rt) \<le> n"
proof -
  have "within_slots n (fst (rt, t))"
    by (rule worker_invariant [OF assms(2)], simp add: initial_states(1) [OF assms(1)], rule within_slots_step)
  then show ?thesis by (simp add: within_slots_def)
qed

lemma loop_started_step:
  assumes "worker_step exec w cc others c d" and "rt_loop (fst c) \<noteq> NotStarted"
  shows "rt_loop (fst d) \<noteq> NotStarted"
  using assms(1)
proof cases
  case Loop
  then show ?thesis using assms(2)
    by (cases c) (auto simp: loop_turn_def start_job_def next_index_def split: loop_pc.splits prog.splits if_splits prod.splits)
next
  case Avail
  then show ?thesis using assms(2)
    by (cases c) (auto simp: avail_turn_def start_job_def next_index_def split: avail_pc.splits prog.splits if_splits prod.splits)
next
  case (Job n)
  then show ?thesis using assms(2) job_turn_tickets(2) [of exec n "fst c" "snd c" "fst d" "snd d"] by simp
next
  case (Stop t)
  then show ?thesis using assms(2) stop_turn_frame [of exec w t c d] by simp
qed (use assms(2) in auto)

lemma started_invariant:
  assumes "worker_reach exec w cc others (started, s) (rt, t)"
  shows "request_kept rt" and "rt_loop rt \<noteq> NotStarted"
proof -
  have "request_kept (fst (rt, t))"
    by (rule worker_invariant [OF assms], simp add: initial_states(2), rule request_kept_step)
  then show "request_kept rt" by simp
  have "rt_loop (fst (rt, t)) \<noteq> NotStarted"
    by (rule worker_invariant [OF assms, where I = "\<lambda>rt. rt_loop rt \<noteq> NotStarted"], simp add: started_def, rule loop_started_step)
  then show "rt_loop rt \<noteq> NotStarted" by simp
qed

definition stop_bound :: "nat \<Rightarrow> worker_rt \<Rightarrow> bool" where
  "stop_bound m rt \<longleftrightarrow> request_kept rt \<and> ws_stopRequested (rt_flags rt) \<and> rt_avail rt = AvIdle \<and>
     rt_next rt + (if pulling rt then 1 else 0) \<le> m"

lemma stop_bound_step:
  assumes "worker_step exec w cc others c d" and "stop_bound m (fst c)"
  shows "stop_bound m (fst d)"
  using assms(1)
proof cases
  case Loop
  then show ?thesis using assms(2) request_kept_step [OF assms(1)]
    by (cases c) (auto simp: loop_turn_def start_job_def next_index_def stop_bound_def pulling_def
        split: loop_pc.splits prog.splits if_splits prod.splits)
next
  case Avail
  then show ?thesis using assms(2) by (cases c) (simp add: avail_turn_def stop_bound_def)
next
  case (Job n)
  then show ?thesis using assms(2) request_kept_step [OF assms(1)]
    by (cases c) (auto simp: job_turn_def stop_bound_def pulling_def split: prog.splits if_splits prod.splits)
next
  case (Stop t)
  obtain rt s where c: "c = (rt, s)" by fastforce
  have "ws_stopRequested (rt_flags (fst d)) \<and> rt_avail (fst d) = AvIdle \<and> rt_next (fst d) = rt_next rt \<and> pulling (fst d) = pulling rt"
    using Stop assms(2)
    by (fastforce simp: c stop_turn_def stop_bound_def pulling_def request_kept_def
        split: stop_pc.splits prog.splits if_splits prod.splits option.splits)
  with request_kept_step [OF assms(1)] assms(2) show ?thesis by (simp add: stop_bound_def c)
qed (use assms(2) in auto)

text \<open>C10: The loop survives every error: it has exited only where \<open>stop\<close> was called, and otherwise it can
  always go on, unless all slots are taken and none of the jobs that hold them has ended.\<close>
theorem loop_never_dies:
  assumes "worker_reach exec w cc others (started, s) (rt, t)"
  shows "rt_loop rt = Exited \<and> ws_stopRequested (rt_flags rt) \<or> loop_turn exec w cc (rt, t) \<noteq> None \<or>
     (\<exists>ts. rt_loop rt = Racing ts \<and> set ts \<subseteq> set (tickets rt))"
proof -
  show ?thesis
    using started_invariant [OF assms]
    by (cases "rt_loop rt") (auto simp: request_kept_def loop_turn_def one_settled_def list_ex_iff split: prog.splits prod.splits)
qed

text \<open>Once \<open>stop\<close> was called the worker takes at most one more job, and none where no pull was
  under way at that moment.\<close>
theorem stop_takes_at_most_one:
  assumes "worker_reach exec w cc others (started, s0) (rt, s)" and "ws_stopRequested (rt_flags rt)"
    and "worker_reach exec w cc others (rt, s) (rt', t)"
  shows "rt_next rt' \<le> rt_next rt + (if pulling rt then 1 else 0)"
proof -
  have "stop_bound (rt_next rt + (if pulling rt then 1 else 0)) (fst (rt, s))"
    using started_invariant [OF assms(1)] assms(2) by (auto simp: stop_bound_def request_kept_def)
  then have "stop_bound (rt_next rt + (if pulling rt then 1 else 0)) (fst (rt', t))"
    by (rule worker_invariant [OF assms(3)]) (rule stop_bound_step)
  then show ?thesis by (simp add: stop_bound_def split: if_splits)
qed

subsection \<open>No slots\<close>

text \<open>With a concurrency of 0 (the text \<^verbatim>\<open>0\<close> in \<^verbatim>\<open>WORKER_CONCURRENCY\<close>) the loop waits for a race without
  runners.\<close>
definition stuck :: "worker_rt \<Rightarrow> bool" where
  "stuck rt \<longleftrightarrow> rt_loop rt = Racing [] \<and>
     (rt_stop rt \<noteq> Stopped \<and> (\<forall>p. rt_stop rt \<noteq> Cleaning p))"

lemma stuck_step:
  assumes "worker_step exec w cc others c d" and "stuck (fst c)"
  shows "stuck (fst d)"
  using assms(1)
proof cases
  case Loop
  then show ?thesis using assms(2)
    by (cases c) (auto simp: loop_turn_def stuck_def one_settled_def)
next
  case Avail
  then show ?thesis using assms(2)
    by (cases c) (auto simp: avail_turn_def start_job_def next_index_def stuck_def
        split: avail_pc.splits prog.splits if_splits prod.splits)
next
  case (Job n)
  then show ?thesis using assms(2)
    by (cases c) (auto simp: job_turn_def stuck_def split: prog.splits if_splits prod.splits)
next
  case (Stop t)
  then show ?thesis using assms(2)
    by (cases c) (auto simp: stop_turn_def stuck_def
        split: stop_pc.splits prog.splits if_splits prod.splits option.splits)
qed (use assms(2) in auto)

text \<open>A worker whose concurrency is 0 takes no job, and once its loop has begun to wait, \<open>stop\<close> never
  finishes: neither the loop nor \<open>stop\<close> goes past that point.\<close>
theorem concurrency_zero_hangs:
  assumes "loop_turn exec w (Num 0) (started, s) = Some c"
    and "worker_reach exec w (Num 0) others c (rt, t)"
  shows "rt_loop rt = Racing [] \<and> rt_activeJobs rt = [] \<and> rt_stop rt \<noteq> Stopped"
proof -
  have c: "fst c = started\<lparr>rt_loop := Racing []\<rparr>"
    using assms(1) by (auto simp: loop_turn_def started_def slots_full_def tickets_def)
  have "stuck (fst (rt, t))"
    by (rule worker_invariant [OF assms(2)], simp add: c stuck_def started_def, rule stuck_step)
  moreover have "within_slots 0 (fst (rt, t))"
    by (rule worker_invariant [OF assms(2)], simp add: c within_slots_def started_def pulling_def)
      (use within_slots_step [where n = 0] in simp)
  ultimately show ?thesis by (simp add: stuck_def within_slots_def)
qed

subsection \<open>\<open>processAvailable\<close>\<close>

text \<open>What it waits for at the end are all jobs in flight.\<close>
definition settling_all :: "worker_rt \<Rightarrow> bool" where
  "settling_all rt \<longleftrightarrow> rt_loop rt = NotStarted \<and>
     (\<forall>ts. rt_avail rt = AvSettling ts \<longrightarrow> fst ` set (rt_activeJobs rt) \<subseteq> set ts) \<and>
     (rt_avail rt = AvDone \<longrightarrow> rt_activeJobs rt = [])"

lemma settling_free:
  "rt_loop rt = NotStarted \<Longrightarrow> (\<And>ts. rt_avail rt \<noteq> AvSettling ts) \<Longrightarrow> rt_avail rt = AvDone \<longrightarrow> rt_activeJobs rt = [] \<Longrightarrow>
     settling_all rt"
  by (simp add: settling_all_def)

lemma settling_all_step:
  assumes "worker_step exec w cc others c d" and "settling_all (fst c)"
  shows "settling_all (fst d)"
  using assms(1)
proof cases
  case Loop
  then show ?thesis using assms(2) by (cases c) (simp add: loop_turn_def settling_all_def)
next
  case Avail
  obtain rt s where c: "c = (rt, s)" by fastforce
  show ?thesis
  proof (cases "rt_avail rt")
    case (AvSettling ts)
    then have "rt_activeJobs rt = []" if "all_settled ts rt"
      using assms(2) that by (cases "rt_activeJobs rt") (auto simp: c settling_all_def all_settled_def tickets_def list_all_iff)
    then show ?thesis using Avail assms(2) AvSettling
      by (auto simp: c avail_turn_def settling_all_def split: if_splits)
  next
    case (AvPulling p)
    have n: "rt_loop rt = NotStarted" using assms(2) by (simp add: c settling_all_def)
    have "settling_all (rt\<lparr>rt_avail := AvSettling (tickets rt)\<rparr>)" using n by (simp add: settling_all_def tickets_def)
    then show ?thesis using Avail AvPulling n
      by (cases p) (auto simp: c avail_turn_def start_job_def settling_free split: if_splits prod.splits)
  qed (use Avail assms(2) in \<open>auto simp: c avail_turn_def next_index_def settling_all_def split: if_splits\<close>)
next
  case (Job n)
  obtain rt s rt' s' where c: "c = (rt, s)" "d = (rt', s')" by fastforce
  from job_turn_tickets [of exec n rt s rt' s'] Job assms(2) show ?thesis
    by (simp add: c settling_all_def) (metis image_is_empty set_empty subset_empty subset_trans)
next
  case (Stop t)
  then show ?thesis using assms(2) using stop_turn_frame [of exec w t c d] by (simp add: settling_all_def)
qed (use assms(2) in auto)

text \<open>C11: When \<open>processAvailable\<close> has returned, no job is in flight any more.\<close>
theorem processAvailable_drains:
  assumes "worker_reach exec w cc others (draining_once, s) (rt, t)" and "rt_avail rt = AvDone"
  shows "rt_activeJobs rt = []"
proof -
  have "settling_all (fst (rt, t))"
    by (rule worker_invariant [OF assms(1)], simp add: settling_all_def draining_once_def, rule settling_all_step)
  with assms(2) show ?thesis by (simp add: settling_all_def)
qed

subsection \<open>Schedules\<close>

datatype turn = TLoop | TAvail | TJob nat | TStop bool

fun take_turn :: "'s service \<Rightarrow> worker \<Rightarrow> jsnum \<Rightarrow> turn \<Rightarrow> worker_rt \<times> 's \<Rightarrow> (worker_rt \<times> 's) option" where
  "take_turn exec w cc TLoop c = loop_turn exec w cc c"
| "take_turn exec w cc TAvail c = avail_turn exec w cc c"
| "take_turn exec w cc (TJob n) c = job_turn exec n c"
| "take_turn exec w cc (TStop timeout) c = stop_turn exec w timeout c"

text \<open>One schedule; a turn that cannot be taken is skipped.\<close>
fun run_turns :: "'s service \<Rightarrow> worker \<Rightarrow> jsnum \<Rightarrow> turn list \<Rightarrow> worker_rt \<times> 's \<Rightarrow> worker_rt \<times> 's" where
  "run_turns exec w cc [] c = c"
| "run_turns exec w cc (x # xs) c =
     run_turns exec w cc xs (case take_turn exec w cc x c of None \<Rightarrow> c | Some d \<Rightarrow> d)"

lemma take_turn_step: "take_turn exec w cc x c = Some d \<Longrightarrow> worker_step exec w cc others c d"
  by (cases x) (auto intro: worker_step.intros)

lemma run_turns_reach: "worker_reach exec w cc others c (run_turns exec w cc xs c)"
proof (induction xs arbitrary: c)
  case (Cons x xs)
  show ?case
  proof (cases "take_turn exec w cc x c")
    case (Some d)
    with Cons [of d] take_turn_step [OF Some, of others] show ?thesis
      by (auto intro: converse_rtranclp_into_rtranclp)
  qed (use Cons in simp)
qed simp

lemmas loop_eval = pool_eval started_def draining_once_def slots_full_def tickets_def one_settled_def all_settled_def
  pullJob_def pullJobNonBlocking_def getPriorityOrder_def sourceList_def targetList_def stop_begin_def stop_finish_def
  worker1_def mem_queued_def key_defs

text \<open>A worker is asked to stop while its loop waits for Redis to hand it a job.\<close>
definition stop_in_pull :: "turn list" where
  "stop_in_pull = [TLoop, TLoop, TStop False, TStop False, TStop False, TLoop, TLoop, TLoop,
     TStop False, TStop False, TStop False, TStop False, TStop False]"

text \<open>A job that the loop pulls while \<open>stop\<close> has already looked at the jobs in flight is not waited
  for: \<open>stop\<close> returns and the worker is deregistered with the job started and still in its processing
  list, where no janitor looks for it any more.\<close>
theorem stop_abandons_job:
  "case run_turns (mem_exec no_faults) worker1 (Num 5) stop_in_pull
      (started, mem_queued\<lparr>m_sets := (\<lambda>k. if k = workerRegistry_key then [''w1''] else [])\<rparr>) of
     (rt, t) \<Rightarrow>
       rt_stop rt = Stopped \<and> length (rt_activeJobs rt) = 1 \<and>
       s_lists (mem_view t) (processing_key ''w1'') = [''a''] \<and>
       ''w1'' \<notin> s_sets (mem_view t) workerRegistry_key"
  by (simp add: stop_in_pull_def turn_defs loop_eval cong: run_congs)

text \<open>The queue of the example holds three jobs; two slots.\<close>
theorem jobs_in_flight_bounded_witness:
  "length (rt_activeJobs (fst (run_turns (mem_exec no_faults) worker1 (Num 2) (replicate 9 TLoop) (started, mem_queued)))) \<le> 2"
  using jobs_in_flight_bounded [of started "mem_exec no_faults" worker1 2 "\<lambda>_ _. False" mem_queued]
    run_turns_reach [of "mem_exec no_faults" worker1 "Num 2" "\<lambda>_ _. False" "(started, mem_queued)" "replicate 9 TLoop"]
  by (metis of_nat_numeral prod.collapse)

theorem loop_never_dies_witness:
  "let (rt, t) = run_turns (mem_exec (\<lambda>_. True)) worker1 (Num 2) [TLoop, TLoop] (started, mem_queued)
   in rt_loop rt = Exited \<and> ws_stopRequested (rt_flags rt) \<or> loop_turn (mem_exec (\<lambda>_. True)) worker1 (Num 2) (rt, t) \<noteq> None \<or>
     (\<exists>ts. rt_loop rt = Racing ts \<and> set ts \<subseteq> set (tickets rt))"
  using loop_never_dies [of "mem_exec (\<lambda>_. True)" worker1 "Num 2" "\<lambda>_ _. False" mem_queued]
    run_turns_reach [of "mem_exec (\<lambda>_. True)" worker1 "Num 2" "\<lambda>_ _. False" "(started, mem_queued)" "[TLoop, TLoop]"]
  by (simp only: Let_def split: prod.splits) metis

lemma stop_request_example:
  "case run_turns (mem_exec no_faults) worker1 (Num 5) [TLoop, TLoop, TStop False] (started, mem_queued) of (rt, t) \<Rightarrow>
     ws_stopRequested (rt_flags rt) \<and> rt_next rt = 0 \<and> pulling rt"
  by (simp add: turn_defs loop_eval pulling_def cong: run_congs)

theorem stop_takes_at_most_one_witness:
  "let c = run_turns (mem_exec no_faults) worker1 (Num 5) [TLoop, TLoop, TStop False] (started, mem_queued)
   in rt_next (fst (run_turns (mem_exec no_faults) worker1 (Num 5) (replicate 9 TLoop) c)) \<le> 1"
proof -
  obtain rt t where r: "run_turns (mem_exec no_faults) worker1 (Num 5) [TLoop, TLoop, TStop False] (started, mem_queued) = (rt, t)"
    by fastforce
  obtain rt' t' where r': "run_turns (mem_exec no_faults) worker1 (Num 5) (replicate 9 TLoop) (rt, t) = (rt', t')" by fastforce
  have s: "ws_stopRequested (rt_flags rt)" "rt_next rt = 0" "pulling rt" using stop_request_example r by simp_all
  have "rt_next rt' \<le> rt_next rt + (if pulling rt then 1 else 0)"
    by (rule stop_takes_at_most_one [where others = "\<lambda>_ _. False" and exec = "mem_exec no_faults" and w = worker1 and cc = "Num 5"])
      (rule run_turns_reach [where c = "(started, mem_queued)", of "mem_exec no_faults" worker1 "Num 5" _ "[TLoop, TLoop, TStop False]", unfolded r] s(1)
        run_turns_reach [where c = "(rt, t)", of "mem_exec no_faults" worker1 "Num 5" _ "replicate 9 TLoop", unfolded r'])+
  with r r' s show ?thesis by (simp add: Let_def)
qed

definition hung :: "worker_rt \<times> mem" where
  "hung = run_turns (mem_exec no_faults) worker1 (Num 0) [TStop False, TStop False, TStop False, TStop False]
     (started\<lparr>rt_loop := Racing []\<rparr>, mem_queued)"

theorem concurrency_zero_hangs_witness: "rt_loop (fst hung) = Racing []"
proof -
  have "loop_turn (mem_exec no_faults) worker1 (Num 0) (started, mem_queued) = Some (started\<lparr>rt_loop := Racing []\<rparr>, mem_queued)"
    by (simp add: loop_turn_def started_def slots_full_def tickets_def)
  moreover have "worker_reach (mem_exec no_faults) worker1 (Num 0) (\<lambda>_ _. False) (started\<lparr>rt_loop := Racing []\<rparr>, mem_queued) (fst hung, snd hung)"
    unfolding prod.collapse hung_def by (rule run_turns_reach)
  ultimately show ?thesis by (rule concurrency_zero_hangs [THEN conjunct1])
qed

text \<open>An empty queue: three empty lists, and nothing to wait for.\<close>
definition drained :: "worker_rt \<times> mem" where
  "drained = run_turns (mem_exec no_faults) worker1 (Num 5) [TAvail, TAvail, TAvail, TAvail, TAvail] (draining_once, mem_empty 0)"

lemma drained_done: "rt_avail (fst drained) = AvDone"
  by (simp add: drained_def turn_defs loop_eval cong: run_congs)

theorem processAvailable_drains_witness: "rt_activeJobs (fst drained) = []"
proof (rule processAvailable_drains [where t = "snd drained"])
  show "worker_reach (mem_exec no_faults) worker1 (Num 5) (\<lambda>_ _. False) (draining_once, mem_empty 0) (fst drained, snd drained)"
    unfolding prod.collapse drained_def by (rule run_turns_reach)
qed (rule drained_done)

end
