(* ===== verification/Json_Roundtrip.thy ===== *)
theory Json_Roundtrip
  imports Json
begin

text \<open>
  What \<open>JSON.stringify\<close> writes, \<open>JSON.parse\<close> reads back: the payloads of jobs and cron entries
  survive their way through Redis and Postgres, and what the dashboard shows of them, indented,
  is the payload.
\<close>

subsection \<open>Strings\<close>

lemma hex_val_char: "d < 16 \<Longrightarrow> hex_val (hex_char d) = Some d"
proof -
  assume "d < 16"
  then have "d \<in> {0, 1, 2, 3, 4, 5, 6, 7, 8, 9, 10, 11, 12, 13, 14, 15}" by (simp, presburger)
  then show ?thesis by (elim insertE) (simp_all add: hex_val_def hex_char_def)
qed

lemma hex_val_0 [simp]: "hex_val (CHR ''0'') = Some 0"
  by (simp add: hex_val_def)

text \<open>A control character is written with two hexadecimal digits.\<close>
lemma parse_control:
  assumes "(of_char c :: nat) < 32"
  shows "parse_chars ([CHR 0x5C, CHR ''u'', CHR ''0'', CHR ''0'', hex_char (of_char c div 16), hex_char (of_char c mod 16)] @ t) =
     map_option (apfst ((#) c)) (parse_chars t)"
proof -
  let ?n = "of_char c :: nat"
  have "hex_val (hex_char (?n div 16)) = Some (?n div 16)" "hex_val (hex_char (?n mod 16)) = Some (?n mod 16)"
    using assms by (auto intro: hex_val_char)
  moreover have "utf8 (16 * (?n div 16) + ?n mod 16) = [c]"
    using assms by (simp add: utf8_def)
  moreover have "(@) [c] = (#) c" by (rule ext) simp
  ultimately show ?thesis by simp
qed

lemma parse_esc_char: "parse_chars (esc_char c @ t) = map_option (apfst ((#) c)) (parse_chars t)"
proof (cases "c \<in> {CHR 0x22, CHR 0x5C, CHR 0x08, CHR 0x0C, CHR 0x0A, CHR 0x0D, CHR 0x09}")
  case True
  then show ?thesis by (elim insertE) (simp_all add: esc_char_def unescape_def)
next
  case False
  show ?thesis
  proof (cases "(of_char c :: nat) < 32")
    case True
    with False have "esc_char c = [CHR 0x5C, CHR ''u'', CHR ''0'', CHR ''0'', hex_char (of_char c div 16), hex_char (of_char c mod 16)]"
      by (simp add: esc_char_def)
    with parse_control [OF True, of t] show ?thesis by (simp only:)
  next
    case False
    with \<open>c \<notin> _\<close> show ?thesis by (simp add: esc_char_def)
  qed
qed

lemma parse_chars_quoted: "parse_chars (concat (map esc_char s) @ CHR 0x22 # r) = Some (s, r)"
  by (induction s) (simp_all add: parse_esc_char)

subsection \<open>Numbers\<close>

text \<open>A rest that cannot continue a number.\<close>
definition stops :: "string \<Rightarrow> bool" where
  "stops r \<longleftrightarrow> r = [] \<or> hd r \<in> {CHR '','', CHR '']'', CHR ''}'', CHR 0x0A}"

lemma is_digit_char: "d < 10 \<Longrightarrow> is_digit (digit_char d)"
  by (simp add: is_digit_def)

lemma all_digits_takeWhile:
  assumes "all_digits a" and "r = [] \<or> \<not> is_digit (hd r)"
  shows "takeWhile is_digit (a @ r) = a \<and> dropWhile is_digit (a @ r) = r"
proof -
  have "\<forall>c \<in> set a. is_digit c" using assms(1) is_digit_char by (auto simp: all_digits_def)
  moreover have "takeWhile is_digit r = []" "dropWhile is_digit r = r" using assms(2) by (cases r; simp)+
  ultimately show ?thesis by (simp add: takeWhile_append2 dropWhile_append2)
qed

lemma stops_no_digit: "stops r \<Longrightarrow> r = [] \<or> \<not> is_digit (hd r) \<and> hd r \<noteq> CHR ''.''"
  by (auto simp: stops_def is_digit_def digit_val_def)

lemma digit_char_zero: "d < 10 \<Longrightarrow> digit_char d = CHR ''0'' \<longleftrightarrow> d = 0"
proof -
  assume "d < 10"
  then have "d \<in> {0, 1, 2, 3, 4, 5, 6, 7, 8, 9}" by auto
  then show ?thesis by (elim insertE) (simp_all add: digit_char_def)
qed

lemma nat_str_no_leading_zero: "hd (nat_str n) = CHR ''0'' \<Longrightarrow> tl (nat_str n) = []"
proof (induction n rule: nat_str.induct)
  case (1 n)
  show ?case
  proof (cases "n < 10")
    case False
    have ne: "nat_str (n div 10) \<noteq> []" using all_digits_nat_str by simp
    have s: "nat_str n = nat_str (n div 10) @ [digit_char (n mod 10)]" using False by (subst nat_str.simps) simp
    have "hd (nat_str (n div 10)) \<noteq> CHR ''0''"
    proof
      assume z: "hd (nat_str (n div 10)) = CHR ''0''"
      with 1(1) [OF False] ne have "nat_str (n div 10) = ''0''" by (cases "nat_str (n div 10)") auto
      then have "digits_val 0 ''0'' = Some (n div 10)" using digits_val_nat_str [of "n div 10"] by simp
      then show False using False by (simp add: digit_val_def)
    qed
    with 1(2) s ne show ?thesis by simp
  qed (simp add: nat_str.simps)
qed

lemma parse_unsigned_dec_str:
  assumes "0 \<le> x" and "is_decimal x" and "stops r"
  shows "parse_unsigned (dec_str x @ r) = Some (x, r)"
proof -
  define k where "k = dec_places 20 x"
  define m where "m = nat \<lfloor>x * 10 ^ k\<rfloor>"
  let ?a = "nat_str (m div 10 ^ k)" and ?b = "pad_digits k (m mod 10 ^ k)"
  have m: "of_nat m = x * 10 ^ k"
    using assms unfolding m_def k_def is_decimal_def by (simp add: of_nat_nat)
  have str: "dec_str x = ?a @ (if k = 0 then [] else CHR ''.'' # ?b)"
    by (simp add: dec_str_def Let_def m_def k_def)
  have a: "?a \<noteq> []" "all_digits ?a" using all_digits_nat_str by simp_all
  have lead: "\<not> (hd ?a = CHR ''0'' \<and> tl ?a \<noteq> [])" using nat_str_no_leading_zero by blast
  have dot: "\<not> is_digit (CHR ''.'')" by (simp add: is_digit_def digit_val_def)
  show ?thesis
  proof (cases "k = 0")
    case True
    have tw: "takeWhile is_digit (?a @ r) = ?a" "dropWhile is_digit (?a @ r) = r"
      using all_digits_takeWhile [OF a(2), of r] stops_no_digit [OF assms(3)] by auto
    have "parse_unsigned (?a @ r) = Some (of_nat (m div 10 ^ k), r)"
      using a lead stops_no_digit [OF assms(3)] unfolding parse_unsigned_def Let_def tw
      by (cases r) (auto simp: digits_val_nat_str)
    then show ?thesis using m True by (simp add: str)
  next
    case False
    have tw: "takeWhile is_digit (?a @ CHR ''.'' # ?b @ r) = ?a" "dropWhile is_digit (?a @ CHR ''.'' # ?b @ r) = CHR ''.'' # ?b @ r"
      using all_digits_takeWhile [OF a(2), of "CHR ''.'' # ?b @ r"] dot by auto
    have tb: "takeWhile is_digit (?b @ r) = ?b" "dropWhile is_digit (?b @ r) = r"
      using all_digits_takeWhile [OF all_digits_pad, of r k "m mod 10 ^ k"] stops_no_digit [OF assms(3)] by auto
    have ne: "?b \<noteq> []" using False length_pad_digits [of k "m mod 10 ^ k"] by (metis list.size(3))
    have "digits_val 0 (?a @ ?b) = Some m"
      by (simp add: digits_val_append digits_val_nat_str digits_val_pad div_mult_mod_eq)
    then have "parse_unsigned (?a @ CHR ''.'' # ?b @ r) = Some (of_nat m / 10 ^ k, r)"
      using a lead ne by (simp add: parse_unsigned_def tw tb Let_def)
    then show ?thesis using m False by (simp add: str)
  qed
qed

subsection \<open>Values\<close>

text \<open>Values whose numbers are written exactly.\<close>
fun json_ok :: "json \<Rightarrow> bool" where
  "json_ok (JNum x) \<longleftrightarrow> is_decimal x"
| "json_ok (JArr xs) \<longleftrightarrow> (\<forall>x \<in> set xs. json_ok x)"
| "json_ok (JObj ms) \<longleftrightarrow> (\<forall>m \<in> set ms. json_ok (snd m))"
| "json_ok _ \<longleftrightarrow> True"

text \<open>Both layouts of \<open>JSON.stringify\<close>: before each entry a line break and indentation (or nothing),
  and a gap after the colon (or none).  \<open>JSON.stringify(v, null, 2)\<close> indents by two.\<close>
fun json_layout :: "(nat \<Rightarrow> string) \<Rightarrow> string \<Rightarrow> nat \<Rightarrow> json \<Rightarrow> string" where
  "json_layout br gap d (JArr xs) =
     (if xs = [] then ''[]''
      else CHR ''['' # join_comma (map (\<lambda>x. br (Suc d) @ json_layout br gap (Suc d) x) xs) @ br d @ '']'')"
| "json_layout br gap d (JObj ms) =
     (if ms = [] then ''{}''
      else CHR ''{'' # join_comma (map (\<lambda>m. br (Suc d) @ quote_str (fst m) @ CHR '':'' # gap @
          json_layout br gap (Suc d) (snd m)) ms) @ br d @ ''}'')"
| "json_layout br gap d j = json_stringify j"

definition json_pretty :: "json \<Rightarrow> string" where
  "json_pretty = json_layout (\<lambda>d. CHR 0x0A # replicate (2 * d) (CHR '' '')) '' '' 0"

lemma json_layout_plain: "json_layout (\<lambda>_. []) [] d j = json_stringify j"
proof (induction j arbitrary: d)
  case (JArr xs)
  then show ?case by (simp cong: map_cong)
next
  case (JObj ms)
  then have "json_layout (\<lambda>_. []) [] (Suc d) (snd m) = json_stringify (snd m)" if "m \<in> set ms" for m
    using that by (auto simp: snds.simps)
  then show ?case by (simp cong: map_cong)
qed simp_all

text \<open>Reading a text back, whatever may follow it.\<close>
definition reads :: "string \<Rightarrow> json \<Rightarrow> bool" where
  "reads s j \<longleftrightarrow> (\<forall>n r. length s \<le> n \<longrightarrow> stops r \<longrightarrow> parse_value n (s @ r) = Some (j, r))"

definition spaces :: "string \<Rightarrow> bool" where
  "spaces w \<longleftrightarrow> (\<forall>c \<in> set w. json_space c)"

lemma skip_ws_spaces: "spaces w \<Longrightarrow> skip_ws (w @ s) = skip_ws s"
  by (simp add: spaces_def skip_ws_def dropWhile_append2)

lemma parse_value_spaces: "spaces w \<Longrightarrow> parse_value n (w @ s) = parse_value n s"
  by (cases n) (simp_all add: skip_ws_spaces)

lemma reads_spaces: "spaces w \<Longrightarrow> reads s j \<Longrightarrow> reads (w @ s) j"
  by (simp add: reads_def parse_value_spaces)

lemma quote_str_ends: "quote_str s @ r = CHR 0x22 # concat (map esc_char s) @ CHR 0x22 # r"
  by (simp add: quote_str_def)

lemma skip_ws_simps [simp]: "skip_ws [] = []" "skip_ws (c # cs) = (if json_space c then skip_ws cs else c # cs)"
  by (simp_all add: skip_ws_def)

lemma json_space_simps [simp]:
  "\<not> json_space (CHR 0x22)" "\<not> json_space (CHR '','')" "\<not> json_space (CHR '']'')" "\<not> json_space (CHR ''['')"
  "\<not> json_space (CHR ''}'')" "\<not> json_space (CHR ''{'')" "\<not> json_space (CHR '':'')" "\<not> json_space (CHR ''n'')"
  "\<not> json_space (CHR ''t'')" "\<not> json_space (CHR ''f'')" "\<not> json_space (CHR ''-'')"
  by (simp_all add: json_space_def)

lemma starts_with_Cons [simp]: "starts_with (a # p) (b # s) \<longleftrightarrow> a = b \<and> starts_with p s" "starts_with [] s"
  by (auto simp: starts_with_def)

lemma digit_start:
  assumes "is_digit c"
  shows "\<not> json_space c \<and> c \<noteq> CHR 0x22 \<and> c \<noteq> CHR ''['' \<and> c \<noteq> CHR ''{'' \<and> c \<noteq> CHR ''n'' \<and> c \<noteq> CHR ''t'' \<and>
     c \<noteq> CHR ''f'' \<and> c \<noteq> CHR ''-''"
  using assms by (auto simp: is_digit_def digit_val_def json_space_def)

lemma dec_str_start: "\<exists>c cs. dec_str x = c # cs \<and> is_digit c"
proof -
  obtain n t where d: "dec_str x = nat_str n @ t" by (simp add: dec_str_def Let_def)
  obtain c cs where "nat_str n = c # cs" "is_digit c"
    using all_digits_nat_str [of n] is_digit_char by (cases "nat_str n") (auto simp: all_digits_def)
  with d show ?thesis by simp
qed

lemma reads_number:
  assumes "is_decimal x"
  shows "reads (json_stringify (JNum x)) (JNum x)"
  unfolding reads_def
proof (intro allI impI)
  fix n r
  assume n: "length (json_stringify (JNum x)) \<le> n" and r: "stops r"
  show "parse_value n (json_stringify (JNum x) @ r) = Some (JNum x, r)"
  proof (cases "x < 0")
    case True
    then have "parse_unsigned (dec_str (- x) @ r) = Some (- x, r)"
      using assms r by (intro parse_unsigned_dec_str) (simp_all add: is_decimal_minus)
    with True n show ?thesis by (cases n) (simp_all add: js_String.simps)
  next
    case False
    then have p: "parse_unsigned (dec_str x @ r) = Some (x, r)"
      using assms r by (intro parse_unsigned_dec_str) simp_all
    obtain c cs where c: "dec_str x = c # cs" "is_digit c" using dec_str_start by blast
    show ?thesis using False n p digit_start [OF c(2)] by (cases n) (auto simp: js_String.simps c(1))
  qed
qed

lemma stringify_ne: "json_stringify j \<noteq> []"
proof (cases j)
  case (JNum x)
  then show ?thesis using dec_str_start [of x] by (auto simp: js_String.simps)
qed (simp_all add: quote_str_def)

text \<open>The elements of an array up to its closing bracket; the members of an object likewise.\<close>

lemma parse_elems_back:
  assumes "\<forall>x \<in> set xs. reads (f x) x" and "xs \<noteq> []" and "spaces w" and "stops (w @ CHR '']'' # r)"
    and "length (join_comma (map f xs)) < n"
  shows "parse_elems n (join_comma (map f xs) @ w @ CHR '']'' # r) = Some (xs, r)"
  using assms(1,2,5)
proof (induction xs arbitrary: n)
  case (Cons x xs)
  obtain k where k: "n = Suc k" using Cons.prems(3) by (cases n) simp_all
  have x: "parse_value k (f x @ t) = Some (x, t)" if "stops t" "length (f x) \<le> k" for t
    using Cons.prems(1) that by (simp add: reads_def)
  show ?case
  proof (cases xs)
    case Nil
    then show ?thesis using Cons.prems(3) x [OF assms(4)] skip_ws_spaces [OF assms(3)] by (simp add: k)
  next
    case (Cons y ys)
    let ?t = "join_comma (map f xs)"
    have s: "join_comma (map f (x # xs)) = f x @ CHR '','' # ?t" using Cons by simp
    have "parse_elems k (?t @ w @ CHR '']'' # r) = Some (xs, r)"
      using Cons.IH [of k] Cons.prems Cons s k by auto
    then show ?thesis using x [of "CHR '','' # ?t @ w @ CHR '']'' # r"] Cons.prems(3) s k by (simp add: stops_def)
  qed
qed simp

text \<open>A member: space, its name, a colon and a text of its value.\<close>
lemma parse_members_back:
  assumes "\<forall>m \<in> set ms. reads (g m) (snd m)" and "ms \<noteq> []" and "spaces u" and "spaces w" and "stops (w @ CHR ''}'' # r)"
    and "length (join_comma (map (\<lambda>m. u @ quote_str (fst m) @ CHR '':'' # g m) ms)) < n"
  shows "parse_members n (join_comma (map (\<lambda>m. u @ quote_str (fst m) @ CHR '':'' # g m) ms) @ w @ CHR ''}'' # r) = Some (ms, r)"
  using assms(1,2,6)
proof (induction ms arbitrary: n)
  case (Cons m ms)
  let ?f = "\<lambda>m. u @ quote_str (fst m) @ CHR '':'' # g m"
  note ws = skip_ws_spaces [OF assms(3)] skip_ws_spaces [OF assms(4)]
  obtain k where k: "n = Suc k" using Cons.prems(3) by (cases n) simp_all
  have m: "parse_value k (g m @ t) = Some (snd m, t)" if "stops t" "length (g m) \<le> k" for t
    using Cons.prems(1) that by (simp add: reads_def)
  show ?case
  proof (cases ms)
    case Nil
    then show ?thesis using Cons.prems(3) m [OF assms(5)]
      by (simp add: k ws quote_str_ends parse_chars_quoted)
  next
    case (Cons y ys)
    let ?t = "join_comma (map ?f ms)"
    have s: "join_comma (map ?f (m # ms)) = u @ quote_str (fst m) @ CHR '':'' # g m @ CHR '','' # ?t" using Cons by simp
    have "parse_members k (?t @ w @ CHR ''}'' # r) = Some (ms, r)"
      using Cons.IH [of k] Cons.prems Cons s k by auto
    then show ?thesis using m [of "CHR '','' # ?t @ w @ CHR ''}'' # r"] Cons.prems(3) s k
      by (simp add: stops_def ws quote_str_ends parse_chars_quoted)
  qed
qed simp

text \<open>What an array or an object begins with, after its bracket.\<close>
lemma join_start:
  assumes "xs \<noteq> []" and "spaces u" and "\<And>x. x \<in> set xs \<Longrightarrow> \<exists>c cs. f x = c # cs \<and> \<not> json_space c \<and> P c"
  shows "\<exists>c cs. skip_ws (join_comma (map (\<lambda>x. u @ f x) xs) @ t) = c # cs \<and> P c"
proof -
  obtain x ys where xs: "xs = x # ys" using assms(1) by (cases xs) simp_all
  obtain c cs where c: "f x = c # cs" "\<not> json_space c" "P c" using assms(3) [of x] xs by auto
  show ?thesis using c by (cases ys) (simp_all add: xs skip_ws_spaces [OF assms(2)])
qed

lemma layout_start: "\<exists>c cs. json_layout br gap d j = c # cs \<and> \<not> json_space c \<and> c \<noteq> CHR '']''"
proof (cases j)
  case (JNum x)
  obtain c cs where c: "dec_str x = c # cs" "is_digit c" using dec_str_start by blast
  have "c \<noteq> CHR '']''" using c(2) by (auto simp: is_digit_def digit_val_def)
  with c digit_start [OF c(2)] show ?thesis by (cases "x < 0") (simp_all add: JNum js_String.simps)
qed (simp_all add: quote_str_def)

lemma reads_layout:
  assumes "\<And>d. spaces (br d)" and "\<And>d c r. c \<in> {CHR '']'', CHR ''}''} \<Longrightarrow> stops (br d @ c # r)" and "spaces gap"
  shows "json_ok j \<Longrightarrow> reads (json_layout br gap d j) j"
proof (induction j arbitrary: d)
  case (JNum x)
  then show ?case using reads_number by simp
next
  case JNull
  show ?case unfolding reads_def
  proof (intro allI impI)
    fix n r assume "length (json_layout br gap d JNull) \<le> n"
    then show "parse_value n (json_layout br gap d JNull @ r) = Some (JNull, r)" by (cases n) simp_all
  qed
next
  case (JBool b)
  show ?case unfolding reads_def
  proof (intro allI impI)
    fix n r assume "length (json_layout br gap d (JBool b)) \<le> n"
    then show "parse_value n (json_layout br gap d (JBool b) @ r) = Some (JBool b, r)" by (cases n; cases b) simp_all
  qed
next
  case (JStr s)
  show ?case unfolding reads_def
  proof (intro allI impI)
    fix n r assume "length (json_layout br gap d (JStr s)) \<le> n"
    then show "parse_value n (json_layout br gap d (JStr s) @ r) = Some (JStr s, r)"
      by (cases n) (simp_all add: quote_str_ends parse_chars_quoted quote_str_def)
  qed
next
  case (JArr xs)
  let ?f = "json_layout br gap (Suc d)"
  have xs: "\<forall>x \<in> set xs. reads (br (Suc d) @ ?f x) x" using JArr assms(1) by (simp add: reads_spaces)
  show ?case unfolding reads_def
  proof (intro allI impI)
    fix n r assume n: "length (json_layout br gap d (JArr xs)) \<le> n"
    then obtain k where k: "n = Suc k" by (cases n) (simp_all split: if_splits)
    show "parse_value n (json_layout br gap d (JArr xs) @ r) = Some (JArr xs, r)"
    proof (cases "xs = []")
      case False
      let ?t = "br d @ CHR '']'' # r"
      obtain c cs where c: "skip_ws (join_comma (map (\<lambda>x. br (Suc d) @ ?f x) xs) @ ?t) = c # cs" "c \<noteq> CHR '']''"
        using join_start [OF False assms(1), of ?f "\<lambda>c. c \<noteq> CHR '']''" "Suc d" ?t] layout_start by blast
      have "parse_elems k (join_comma (map (\<lambda>x. br (Suc d) @ ?f x) xs) @ ?t) = Some (xs, r)"
        using parse_elems_back [OF xs False assms(1), of d r k] assms(2) [of "CHR '']''" d r] n k False by simp
      then show ?thesis using c k False by simp
    qed (simp add: k)
  qed
next
  case (JObj ms)
  let ?g = "\<lambda>m. gap @ json_layout br gap (Suc d) (snd m)"
  let ?f = "\<lambda>m. br (Suc d) @ quote_str (fst m) @ CHR '':'' # ?g m"
  have ms: "\<forall>m \<in> set ms. reads (?g m) (snd m)"
    using JObj assms(3) by (fastforce simp: snds.simps intro: reads_spaces)
  show ?case unfolding reads_def
  proof (intro allI impI)
    fix n r assume n: "length (json_layout br gap d (JObj ms)) \<le> n"
    then obtain k where k: "n = Suc k" by (cases n) (simp_all split: if_splits)
    show "parse_value n (json_layout br gap d (JObj ms) @ r) = Some (JObj ms, r)"
    proof (cases "ms = []")
      case False
      let ?t = "br d @ CHR ''}'' # r"
      obtain c cs where c: "skip_ws (join_comma (map ?f ms) @ ?t) = c # cs" "c \<noteq> CHR ''}''"
        using join_start [OF False assms(1), of "\<lambda>m. quote_str (fst m) @ CHR '':'' # ?g m" "\<lambda>c. c \<noteq> CHR ''}''" "Suc d" ?t]
        by (auto simp: quote_str_def)
      have "parse_members k (join_comma (map ?f ms) @ ?t) = Some (ms, r)"
        using parse_members_back [OF ms False assms(1) assms(1), of d r "Suc d" k] assms(2) [of "CHR ''}''" d r] n k False by simp
      then show ?thesis using c k False by simp
    qed (simp add: k)
  qed
qed

lemma parse_reads: "reads s j \<Longrightarrow> json_parse s = Some j"
proof -
  assume "reads s j"
  then have "parse_value (Suc (2 * length s)) (s @ []) = Some (j, [])"
    unfolding reads_def by (simp add: stops_def del: append_Nil2 parse_value.simps)
  then show ?thesis by (simp add: json_parse_def del: parse_value.simps)
qed

text \<open>The text that the dashboard shows of a payload stands for that payload.\<close>
lemma json_pretty_back:
  assumes "json_ok j"
  shows "json_parse (json_pretty j) = Some j"
  unfolding json_pretty_def
  by (rule parse_reads, rule reads_layout [OF _ _ _ assms]) (auto simp: spaces_def json_space_def stops_def)

text \<open>\<open>JSON.parse\<close> of what \<open>JSON.stringify\<close> writes is the value again, for every value whose numbers
  have a decimal form: strings with any characters, nested arrays and objects.\<close>
theorem json_roundtrip:
  assumes "json_ok j"
  shows "json_parse (json_stringify j) = Some j"
  using parse_reads [OF reads_layout [of "\<lambda>_. []" "[]", OF _ _ _ assms, of 0]]
  by (auto simp: json_layout_plain spaces_def stops_def)

theorem json_roundtrip_witness:
  "json_parse (json_stringify (JObj [(''a'', JArr [JNum 1, JNull]), (''b'', JStr [CHR 0x22, CHR 0x0A])])) =
     Some (JObj [(''a'', JArr [JNum 1, JNull]), (''b'', JStr [CHR 0x22, CHR 0x0A])])"
  by (rule json_roundtrip) (use is_decimal_of_int [of 1] in simp)

end
