(* ===== verification/Lifecycle.thy ===== *)
theory Lifecycle
  imports System Json_Roundtrip
begin

text \<open>
  A job from end to end: what a producer submits is what a handler gets.

  The components meet only in the data: the producer writes the hash and the list, the worker
  reads them.  The property follows the data of one job through \<open>enqueue\<close>, the next pull of a
  worker and \<open>processOne\<close>.
\<close>

subsection \<open>The hash a producer writes\<close>

lemma enqueued_hash_fields:
  assumes "n \<noteq> []"
  shows "map_of (enqueued_hash i n p opts st t) ''jobName'' = Some n"
    and "map_of (enqueued_hash i n p opts st t) ''queueName'' = Some (opt_queue opts)"
    and "map_of (enqueued_hash i n p opts st t) ''attempts'' = Some ''0''"
    and "map_of (enqueued_hash i n p opts st t) ''payload'' = Some (json_stringify p)"
  by (simp_all add: enqueued_hash_def new_job_hash_def)

text \<open>The lists of one queue are three.\<close>
lemma sourceList_inj: "sourceList q p = sourceList q p' \<longleftrightarrow> p = p'"
  by (cases p; cases p') (simp_all add: sourceList_def targetList_def key_defs)

lemma sourceList_not_processing: "sourceList q p \<noteq> processing_key w"
  by (cases p) (simp_all add: sourceList_def targetList_def key_defs)

text \<open>An idle queue and an idle worker.\<close>
definition idle :: "worker \<Rightarrow> store \<Rightarrow> bool" where
  "idle w v \<longleftrightarrow> (\<forall>p. s_lists v (sourceList (w_queue w) p) = []) \<and> s_lists v (processing_key (w_workerId w)) = []"

lemma first_nonempty_only:
  assumes "k \<in> set ks" and "\<And>k'. k' \<in> set ks \<Longrightarrow> s_lists v k' \<noteq> [] \<longleftrightarrow> k' = k"
  shows "first_nonempty v ks = Some k"
  using assms by (induction ks) auto

lemma getPriorityOrder_all: "set (fst (getPriorityOrder n)) = UNIV"
proof -
  have "x \<in> {High, Normal, Low}" for x by (cases x) simp_all
  then show ?thesis by (auto simp: getPriorityOrder_def Let_def)
qed

text \<open>The pull that follows a submission to an idle queue takes the new job.\<close>
lemma vwp_pull_submitted:
  assumes "\<And>p. s_lists v (sourceList (w_queue w) p) = (if p = pr then [i] else [])" and "i \<noteq> []"
  shows "vwp any_state (pullJobNonBlocking w m)
     (on_ok (\<lambda>x u. fst x = Some i \<and> u = move_tail (sourceList (w_queue w) pr) (processing_key (w_workerId w)) v)) v"
proof -
  let ?ks = "map (sourceList (w_queue w)) (fst (getPriorityOrder m))"
  have "first_nonempty v ?ks = Some (sourceList (w_queue w) pr)"
    by (rule first_nonempty_only) (use getPriorityOrder_all assms(1) in \<open>auto simp: sourceList_inj split: if_splits\<close>)
  then have "pulled v ?ks d r u \<longleftrightarrow> r = Some i \<and> u = move_tail (sourceList (w_queue w) pr) d v" for d r u
    using assms(1) [of pr] by (simp add: pulled_def)
  moreover have "vwp any_state (pull_first (w_queue w) (processing_key (w_workerId w)) (fst (getPriorityOrder m)))
      (on_ok (pulled v ?ks (processing_key (w_workerId w)))) v"
    by (rule vwp_pull_first) (use assms in auto)
  ultimately show ?thesis
    unfolding pullJobNonBlocking_def getPriorityOrder_def Let_def prod.case fst_conv vwp_await
    by (elim vwp_mono) (auto simp: then_post_def on_ok_def split: sum.splits)
qed

subsection \<open>End to end\<close>

text \<open>C5: A job submitted without delay to an idle queue is pulled by the next turn of a worker of that
  queue, its handler is invoked exactly once, as first attempt and with the payload that was
  submitted, and the job ends completed, waiting for its retry or in the dead letter list.\<close>
theorem submitted_job_runs:
  assumes "backend exec view"
    and "run exec (enqueue bus n (Some p) opts) s = (Inr i, s1)"
    and "run exec (op_prog (OWorkNow w m)) s1 = (Inr (), s2)"
    and "opt_delay opts = None" and "\<not> key_known (view s) opts" and "json_ok p" and "n \<noteq> []"
    and "idle w (view s)" and "w_queue w = opt_queue opts"
    and "\<And>i. s_rows (view s) i = None \<Longrightarrow> s_hashes (view s) (job_key i) = Map.empty"
    and "get_handler (w_registry w) n = Some hid" and "w_rateLimits w (opt_queue opts) = None"
  shows "job_left w i (view s2) \<and> s_ran (view s2) = (hid, p, \<lparr>c_jobId = i, c_jobName = n,
     c_attempt = Num 1, c_workerId = w_workerId w\<rparr>) # s_ran (view s1)"
proof -
  obtain t where i: "i \<noteq> []" "s_rows (view s) i = None"
    and d: "job_data (view s1) = job_data (spec_immediate i n p opts t (view s))"
    using backend.run_ok [OF assms(1,2) vwp_enqueue_pending [OF assms(4,5)]] by auto
  let ?pr = "nullish (o_priority opts) Normal" and ?v = "view s1" and ?proc = "processing_key (w_workerId w)"
  let ?src = "sourceList (w_queue w) ?pr"
  have tl: "targetList (opt_queue opts) (opt_priority opts) = ?src"
    by (simp add: assms(9) sourceList_def opt_priority_def)
  have lists: "s_lists ?v (sourceList (w_queue w) q) = (if q = ?pr then [i] else [])" for q
    using job_dataD(1) [OF d] assms(8) by (simp add: spec_immediate_def tl sourceList_inj idle_def)
  have proc: "s_lists ?v ?proc = []"
    using job_dataD(1) [OF d] assms(8) sourceList_not_processing [of "w_queue w" ?pr "w_workerId w"]
    by (simp add: spec_immediate_def tl idle_def)
  let ?u = "move_tail ?src ?proc ?v" and ?h = "map_of (enqueued_hash i n p opts Pending t)"
  have u: "s_hashes ?u (job_key i) = ?h" "s_rows ?u i = s_rows ?v i" "s_lists ?u ?proc = [i]" "s_ran ?u = s_ran ?v"
    using job_dataD(2) [OF d] assms(10) [OF i(2)] proc lists [of ?pr] sourceList_not_processing
    by (simp_all add: spec_immediate_def move_tail_def Let_def)
  have "job_ready w i ?u" using u job_dataD(5) [OF d] by (simp add: job_ready_def spec_immediate_def Let_def)
  then have run: "vwp any_state (processOne w i) (on_ok (\<lambda>_ z. job_left w i z \<and> s_ran z = (hid, p, \<lparr>c_jobId = i, c_jobName = n,
     c_attempt = js_add (js_Number (nullish (?h ''attempts'') ''0'')) (Num 1), c_workerId = w_workerId w\<rparr>) # s_ran ?u)) ?u"
    by (rule vwp_processOne_left [OF _ u(1)])
      (use assms(6,7,11,12) stringify_ne [of p] in \<open>simp_all add: enqueued_hash_fields json_roundtrip\<close>)
  have "vwp any_state (op_prog (OWorkNow w m)) (on_ok (\<lambda>_ z. job_left w i z \<and> s_ran z = (hid, p, \<lparr>c_jobId = i, c_jobName = n,
     c_attempt = Num 1, c_workerId = w_workerId w\<rparr>) # s_ran ?v)) ?v"
    unfolding op_prog.simps vwp_await
    by (rule vwp_mono [OF vwp_pull_submitted [OF lists i(1)]])
      (use run u(4) i(1) assms(7) in \<open>auto simp: then_post_def on_ok_def work_on_def enqueued_hash_fields split: sum.splits\<close>)
  from backend.run_ok [OF assms(1,3) this] show ?thesis .
qed

text \<open>A greeting with a payload, on empty services.\<close>
definition submitted :: mem where
  "submitted = snd (run (mem_exec no_faults) (enqueue True ''greet'' (Some (JStr ''hi'')) no_options) mem0)"

lemma submitted_id: "fst (run (mem_exec no_faults) (enqueue True ''greet'' (Some (JStr ''hi'')) no_options) mem0) = Inr ''u''"
  by (simp add: run_eval enqueue_defs opt_delay_def no_options_def cong: run_congs)

lemma json_hi: "json_parse (quote_str ''hi'') = Some (JStr ''hi'')" "quote_str ''hi'' \<noteq> []"
  using json_roundtrip [of "JStr ''hi''"] by (simp_all add: quote_str_def)

lemma submitted_run: "fst (run (mem_exec no_faults) (op_prog (OWorkNow worker1 0)) submitted) = Inr ()"
  by (simp add: submitted_def run_eval enqueue_defs opt_delay_def opt_queue_def opt_priority_def DEFAULT_QUEUE_def
      no_options_def pullJobNonBlocking_def getPriorityOrder_def sourceList_def targetList_def work_on_def worker_defs
      new_job_hash_def get_handler_def dao_defs json_hi key_defs cong: run_congs)

theorem submitted_job_runs_witness:
  "s_ran (mem_view (snd (run (mem_exec no_faults) (op_prog (OWorkNow worker1 0)) submitted))) =
     (7, JStr ''hi'', \<lparr>c_jobId = ''u'', c_jobName = ''greet'', c_attempt = Num 1, c_workerId = ''w1''\<rparr>) # s_ran (mem_view submitted)"
proof -
  have w: "w_queue worker1 = opt_queue no_options" "get_handler (w_registry worker1) ''greet'' = Some 7"
    "w_rateLimits worker1 (opt_queue no_options) = None" "w_workerId worker1 = ''w1''"
    by (simp_all add: worker1_def opt_queue_def no_options_def DEFAULT_QUEUE_def get_handler_def)
  have "idle worker1 (mem_view mem0)" by (simp add: idle_def mem_empty_def)
  from submitted_job_runs [OF mem_backend run_fst [OF submitted_id] run_fst [OF submitted_run [unfolded submitted_def]] _ _ _ _ this w(1) _ w(2,3)]
  show ?thesis by (simp add: submitted_def opt_delay_def no_options_def w(4)) (simp add: mem_empty_def)
qed

end
