(* ===== verification/Cron_Correct.thy ===== *)
theory Cron_Correct
  imports Cron Json_Roundtrip
begin

text \<open>
  The contract of \<open>CronManager\<close>: what \<open>addJob\<close> stored, \<open>listJobs\<close> reports, until \<open>removeJob\<close>.
\<close>

text \<open>What a definition looks like in the list, the defaults filled in.\<close>
definition info_of :: "cron_def \<Rightarrow> cron_info" where
  "info_of def = \<lparr>ci_cronId = cd_cronId def, ci_jobName = cd_jobName def, ci_payload = nullish (cd_payload def) (JObj []),
     ci_cronExpression = cd_cronExpression def,
     ci_queue = (let q = nullish (cd_queue def) ''default'' in if q = [] then None else Some q),
     ci_options = Some (Num (of_int (nullish (cd_maxAttempts def) 3)), nullish (cd_priority def) ''normal'')\<rparr>"

lemma int_str_ne: "js_String (Num x) \<noteq> []"
  using dec_str_start [of x] dec_str_start [of "- x"] by (auto simp: js_String.simps)

text \<open>The round trip of one definition through its hash, over whatever the hash held before.\<close>
lemma read_def_cron_hash:
  assumes "cd_cronId def \<noteq> []" and "\<And>p. cd_payload def = Some p \<Longrightarrow> json_ok p"
  shows "read_def (h ++ map_of (cron_hash def)) = Inr (Some (info_of def))"
proof -
  have "json_parse (json_stringify (nullish (cd_payload def) (JObj []))) = Some (nullish (cd_payload def) (JObj []))"
    by (rule json_roundtrip) (use assms(2) in \<open>cases "cd_payload def"; simp\<close>)
  then show ?thesis
    using assms(1) stringify_ne int_str_ne
    by (simp add: read_def_def cron_hash_def info_of_def Let_def)
qed

text \<open>The entries \<open>listJobs\<close> reports for a schedule.\<close>
lemma vwp_list_defs:
  "vwp any_state (list_defs ids)
     (on_ok (\<lambda>infos u. u = v \<and> set infos = {x. \<exists>c \<in> set ids. read_def (s_hashes v (cronDef_key c)) = Inr (Some x)})) v"
proof (induction ids)
  case (Cons c cs)
  have "vwp any_state (list_defs cs) (then_post any_state (\<lambda>rest. Ret (case info of None \<Rightarrow> rest | Some x \<Rightarrow> x # rest))
      (on_ok (\<lambda>infos u. u = v \<and> set infos = {x. \<exists>d \<in> set (c # cs). read_def (s_hashes v (cronDef_key d)) = Inr (Some x)}))) v"
    if "read_def (s_hashes v (cronDef_key c)) = Inr info" for info
    by (rule vwp_mono [OF Cons.IH]) (use that in \<open>auto simp: then_post_def on_ok_def split: sum.splits option.splits\<close>)
  then show ?case by (auto simp: vwp_rules split: sum.splits)
qed simp

lemma vwp_listJobs:
  "vwp any_state listJobs
     (on_ok (\<lambda>infos u. u = v \<and> set infos =
        {x. \<exists>c. s_zsets v cronSchedule_key c \<noteq> None \<and> read_def (s_hashes v (cronDef_key c)) = Inr (Some x)})) v"
proof -
  have "vwp any_state (list_defs ids) (on_ok (\<lambda>infos u. u = v \<and> set infos =
        {x. \<exists>c. s_zsets v cronSchedule_key c \<noteq> None \<and> read_def (s_hashes v (cronDef_key c)) = Inr (Some x)})) v"
    if "due_list v cronSchedule_key None ids" for ids
  proof (rule vwp_mono [OF vwp_list_defs])
    have "c \<in> set ids \<longleftrightarrow> s_zsets v cronSchedule_key c \<noteq> None" for c using due_listD(2) [OF that] by auto
    then show "on_ok (\<lambda>infos u. u = v \<and> set infos =
        {x. \<exists>c. s_zsets v cronSchedule_key c \<noteq> None \<and> read_def (s_hashes v (cronDef_key c)) = Inr (Some x)}) r u"
      if "on_ok (\<lambda>infos u. u = v \<and> set infos = {x. \<exists>c \<in> set ids. read_def (s_hashes v (cronDef_key c)) = Inr (Some x)}) r u" for r u
      using that by (cases r) (auto simp: Bex_def)
  qed simp
  then show ?thesis by (simp add: listJobs_def vwp_rules)
qed

lemma read_def_id: "read_def h = Inr (Some x) \<Longrightarrow> h ''cronId'' = Some (ci_cronId x)"
  by (auto simp: read_def_def truthy_iff split: if_splits option.splits)

text \<open>Every scheduled entry has its own definition.\<close>
definition schedule_ok :: "store \<Rightarrow> bool" where
  "schedule_ok v \<longleftrightarrow> (\<forall>c. s_zsets v cronSchedule_key c \<noteq> None \<longrightarrow> s_hashes v (cronDef_key c) ''cronId'' = Some c)"

lemma vwp_addJob:
  "vwp any_state (addJob def) (on_ok (\<lambda>_ u. s_zsets u cronSchedule_key (cd_cronId def) \<noteq> None \<and>
     s_hashes u (cronDef_key (cd_cronId def)) = s_hashes v (cronDef_key (cd_cronId def)) ++ map_of (cron_hash def))) v"
  by (simp add: addJob_def vwp_rules)

text \<open>C25: A recurring job that was added is in the list of recurring jobs, with its name, payload, cron
  expression and queue, and the defaults for what was left out.\<close>
theorem added_job_is_listed:
  assumes "backend exec view"
    and "run exec (addJob def) s = (Inr (), s1)" and "run exec listJobs s1 = (Inr infos, s2)"
    and "cd_cronId def \<noteq> []" and "\<And>p. cd_payload def = Some p \<Longrightarrow> json_ok p"
  shows "info_of def \<in> set infos \<and> view s2 = view s1"
proof -
  have "s_zsets (view s1) cronSchedule_key (cd_cronId def) \<noteq> None"
    "s_hashes (view s1) (cronDef_key (cd_cronId def)) = s_hashes (view s) (cronDef_key (cd_cronId def)) ++ map_of (cron_hash def)"
    using backend.run_ok [OF assms(1,2) vwp_addJob] by simp_all
  moreover have "view s2 = view s1 \<and> set infos = {x. \<exists>c. s_zsets (view s1) cronSchedule_key c \<noteq> None \<and>
      read_def (s_hashes (view s1) (cronDef_key c)) = Inr (Some x)}"
    using backend.run_ok [OF assms(1,3) vwp_listJobs] .
  ultimately show ?thesis using read_def_cron_hash [OF assms(4,5)] by auto
qed

text \<open>A recurring job that was removed is not listed any more.\<close>
theorem removed_job_is_gone:
  assumes "backend exec view" and "schedule_ok (view s)"
    and "run exec (removeJob c) s = (Inr (), s1)" and "run exec listJobs s1 = (Inr infos, s2)"
  shows "schedule_ok (view s1) \<and> c \<notin> ci_cronId ` set infos"
proof -
  have r: "vwp any_state (removeJob c) (on_ok (\<lambda>_ u. s_zsets u cronSchedule_key c = None \<and> schedule_ok u)) (view s)"
    using assms(2) by (auto simp: removeJob_def vwp_rules schedule_ok_def key_defs)
  have u: "s_zsets (view s1) cronSchedule_key c = None" "schedule_ok (view s1)"
    using backend.run_ok [OF assms(1,3) r] by simp_all
  have "set infos = {x. \<exists>c. s_zsets (view s1) cronSchedule_key c \<noteq> None \<and>
      read_def (s_hashes (view s1) (cronDef_key c)) = Inr (Some x)}"
    using backend.run_ok [OF assms(1,4) vwp_listJobs] by simp
  with u show ?thesis by (auto simp: schedule_ok_def dest!: read_def_id)
qed

subsection \<open>Instances\<close>

definition nightly :: cron_def where
  "nightly = \<lparr>cd_cronId = ''n'', cd_jobName = ''report'', cd_payload = Some (JStr ''all''), cd_cronExpression = ''0 3 * * *'',
     cd_queue = None, cd_maxAttempts = None, cd_priority = None\<rparr>"

definition with_nightly :: mem where
  "with_nightly = snd (run (mem_exec no_faults) (addJob nightly) (mem_empty 0))"

lemma add_example: "fst (run (mem_exec no_faults) (addJob nightly) (mem_empty 0)) = Inr ()"
  by (simp add: run_eval addJob_def nightly_def cong: run_congs)

lemma json_all: "json_parse (quote_str ''all'') = Some (JStr ''all'')" "quote_str ''all'' \<noteq> []"
  using json_roundtrip [of "JStr ''all''"] by (simp_all add: quote_str_def)

lemma list_example: "\<exists>infos. fst (run (mem_exec no_faults) listJobs with_nightly) = Inr infos"
  by (simp add: with_nightly_def run_eval addJob_def nightly_def listJobs_def cron_hash_def read_def_def json_all
      int_str_ne cong: run_congs)

theorem added_job_is_listed_witness:
  "\<exists>infos. fst (run (mem_exec no_faults) listJobs with_nightly) = Inr infos \<and>
     \<lparr>ci_cronId = ''n'', ci_jobName = ''report'', ci_payload = JStr ''all'', ci_cronExpression = ''0 3 * * *'',
       ci_queue = Some ''default'', ci_options = Some (Num 3, ''normal'')\<rparr> \<in> set infos"
proof -
  obtain infos where i: "fst (run (mem_exec no_faults) listJobs with_nightly) = Inr infos" using list_example by blast
  have "info_of nightly \<in> set infos"
    using added_job_is_listed [OF mem_backend run_fst [OF add_example] run_fst [OF i [unfolded with_nightly_def]]]
    by (simp add: nightly_def)
  with i show ?thesis by (auto simp: info_of_def nightly_def)
qed

lemma remove_example:
  "fst (run (mem_exec no_faults) (removeJob ''n'') with_nightly) = Inr ()"
  "fst (run (mem_exec no_faults) listJobs (snd (run (mem_exec no_faults) (removeJob ''n'') with_nightly))) = Inr []"
  by (simp_all add: with_nightly_def run_eval addJob_def nightly_def listJobs_def removeJob_def cong: run_congs)

theorem removed_job_is_gone_witness:
  "schedule_ok (mem_view (snd (run (mem_exec no_faults) (removeJob ''n'') with_nightly)))"
proof -
  have "schedule_ok (mem_view with_nightly)"
    by (simp add: schedule_ok_def with_nightly_def run_eval addJob_def nightly_def cron_hash_def key_defs cong: run_congs)
  from removed_job_is_gone [OF mem_backend this run_fst [OF remove_example(1)] run_fst [OF remove_example(2)]]
  show ?thesis by simp
qed

end
