(* ===== verification/Ws_Client.thy ===== *)
theory Ws_Client
  imports Backoff Json
begin

text \<open>
  \<^verbatim>\<open>dashboard/src/ws.ts\<close>: the WebSocket the dashboard keeps to the server, which reconnects after
  a delay that doubles, and hands every message to its listeners.

  The browser is the environment: it opens and closes sockets, fires timers and delivers
  messages, in any order the steps of \<open>client_step\<close> allow.  Sockets and listeners are numbers.
\<close>

subsection \<open>State and handlers\<close>

text \<open>
  The fields of \<open>WebSocketManager\<close>, and what the browser holds for it: the sockets that are
  not closed yet and the reconnect timers that have not fired.
\<close>
record ws_client =
  wc_ws :: "nat option"
  wc_listeners :: "nat list"
  wc_reconnectDelay :: rat
  wc_shouldReconnect :: bool
  wc_sockets :: "nat list"
  wc_timers :: "rat list"
  wc_next :: nat

definition maxReconnectDelay :: rat where
  "maxReconnectDelay = 30000"

definition fresh_client :: ws_client where
  "fresh_client = \<lparr>wc_ws = None, wc_listeners = [], wc_reconnectDelay = 1000, wc_shouldReconnect = True,
     wc_sockets = [], wc_timers = [], wc_next = 0\<rparr>"

text \<open>Lines 36--39 and 47--50: a timer with the present delay, which doubles for the next time.\<close>
definition schedule_reconnect :: "ws_client \<Rightarrow> ws_client" where
  "schedule_reconnect st =
     (if wc_shouldReconnect st
      then st\<lparr>wc_timers := wc_timers st @ [wc_reconnectDelay st],
              wc_reconnectDelay := min (wc_reconnectDelay st * 2) maxReconnectDelay\<rparr>
      else st)"

text \<open>\<open>works\<close>: whether the constructor of \<open>WebSocket\<close> returns (it throws on a bad URL).\<close>
definition connect :: "bool \<Rightarrow> ws_client \<Rightarrow> ws_client" where
  "connect works st =
     (if wc_ws st \<noteq> None then st
      else let st1 = st\<lparr>wc_shouldReconnect := True\<rparr>
        in if works then st1\<lparr>wc_ws := Some (wc_next st), wc_sockets := wc_sockets st @ [wc_next st], wc_next := wc_next st + 1\<rparr>
           else schedule_reconnect (st1\<lparr>wc_ws := None\<rparr>))"

definition onopen :: "ws_client \<Rightarrow> ws_client" where
  "onopen st = st\<lparr>wc_reconnectDelay := 1000\<rparr>"

text \<open>The handlers do not look which socket they belong to.\<close>
definition onclose :: "nat \<Rightarrow> ws_client \<Rightarrow> ws_client" where
  "onclose sock st = schedule_reconnect (st\<lparr>wc_sockets := removeAll sock (wc_sockets st), wc_ws := None\<rparr>)"

text \<open>
  Who is called with what, until a listener throws (\<open>throws\<close>): the \<open>catch\<close> around the whole
  swallows that too.
\<close>
fun deliver :: "(nat \<Rightarrow> json \<Rightarrow> bool) \<Rightarrow> json \<Rightarrow> nat list \<Rightarrow> (nat \<times> json) list" where
  "deliver throws d [] = []"
| "deliver throws d (l # ls) = (l, d) # (if throws l d then [] else deliver throws d ls)"

definition onmessage :: "(nat \<Rightarrow> json \<Rightarrow> bool) \<Rightarrow> string \<Rightarrow> ws_client \<Rightarrow> (nat \<times> json) list" where
  "onmessage throws text st =
     (case json_parse text of None \<Rightarrow> [] | Some d \<Rightarrow> deliver throws d (wc_listeners st))"

text \<open>\<open>close()\<close> only asks the browser: the socket goes on until its \<open>onclose\<close>.\<close>
definition disconnect :: "ws_client \<Rightarrow> ws_client" where
  "disconnect st = st\<lparr>wc_shouldReconnect := False, wc_ws := None\<rparr>"

text \<open>A \<open>Set\<close> keeps the order in which its members were added.\<close>
definition subscribe :: "bool \<Rightarrow> nat \<Rightarrow> ws_client \<Rightarrow> ws_client" where
  "subscribe works l st =
     (let st1 = st\<lparr>wc_listeners := wc_listeners st @ (if l \<in> set (wc_listeners st) then [] else [l])\<rparr>
      in if wc_ws st1 = None then connect works st1 else st1)"

definition unsubscribe :: "nat \<Rightarrow> ws_client \<Rightarrow> ws_client" where
  "unsubscribe l st = st\<lparr>wc_listeners := removeAll l (wc_listeners st)\<rparr>"

text \<open>The timer set with delay \<open>d\<close> calls \<open>connect\<close>; a timer set later with a shorter delay may be first.\<close>
definition timer_fires :: "rat \<Rightarrow> bool \<Rightarrow> ws_client \<Rightarrow> ws_client" where
  "timer_fires d works st = connect works (st\<lparr>wc_timers := remove1 d (wc_timers st)\<rparr>)"

subsection \<open>Every order of events\<close>

inductive client_step :: "ws_client \<Rightarrow> ws_client \<Rightarrow> bool" where
  Connect: "client_step st (connect works st)"
| Opens: "sock \<in> set (wc_sockets st) \<Longrightarrow> client_step st (onopen st)"
| Closes: "sock \<in> set (wc_sockets st) \<Longrightarrow> client_step st (onclose sock st)"
| Timer: "d \<in> set (wc_timers st) \<Longrightarrow> client_step st (timer_fires d works st)"
| Subscribe: "client_step st (subscribe works l st)"
| Unsubscribe: "client_step st (unsubscribe l st)"
| Disconnect: "client_step st (disconnect st)"

inductive_cases client_stepE: "client_step st st'"

abbreviation client_reach :: "ws_client \<Rightarrow> ws_client \<Rightarrow> bool" where
  "client_reach \<equiv> client_step\<^sup>*\<^sup>*"

lemmas client_defs = connect_def onopen_def onclose_def subscribe_def unsubscribe_def timer_fires_def disconnect_def
  schedule_reconnect_def Let_def

subsection \<open>The delay\<close>

text \<open>The delays after a success: the second instance of the doubling schedule.\<close>
fun reconnect_delay :: "nat \<Rightarrow> rat" where
  "reconnect_delay 0 = 1000"
| "reconnect_delay (Suc n) = min (reconnect_delay n * 2) maxReconnectDelay"

interpretation reconnect: capped_backoff reconnect_delay 1000 30000
  by unfold_locales (simp_all add: maxReconnectDelay_def mult.commute)

definition on_schedule :: "ws_client \<Rightarrow> bool" where
  "on_schedule st \<longleftrightarrow> (\<exists>n. wc_reconnectDelay st = reconnect_delay n) \<and>
     (\<forall>d \<in> set (wc_timers st). \<exists>n. d = reconnect_delay n)"

lemma schedule_on_schedule: "on_schedule st \<Longrightarrow> on_schedule (schedule_reconnect st)"
  by (auto simp: on_schedule_def schedule_reconnect_def simp flip: reconnect_delay.simps(2))

lemma on_schedule_cong:
  "wc_reconnectDelay st' = wc_reconnectDelay st \<Longrightarrow> set (wc_timers st') \<subseteq> set (wc_timers st) \<Longrightarrow> on_schedule st \<Longrightarrow> on_schedule st'"
  by (auto simp: on_schedule_def)

lemma connect_on_schedule: "on_schedule st \<Longrightarrow> on_schedule (connect works st)"
  unfolding connect_def Let_def
  by (auto intro!: schedule_on_schedule elim!: on_schedule_cong [rotated 2])

lemma on_schedule_step: "client_step st st' \<Longrightarrow> on_schedule st \<Longrightarrow> on_schedule st'"
proof (induction rule: client_step.induct)
  case (Connect st works)
  then show ?case by (rule connect_on_schedule)
next
  case (Opens sock st)
  then show ?case by (auto simp: onopen_def on_schedule_def intro: exI [of _ 0])
next
  case (Closes sock st)
  then show ?case unfolding onclose_def by (auto intro!: schedule_on_schedule elim!: on_schedule_cong [rotated 2])
next
  case (Timer d st works)
  then have "on_schedule (st\<lparr>wc_timers := remove1 d (wc_timers st)\<rparr>)"
    by (auto elim!: on_schedule_cong [rotated 2] dest: subsetD [OF set_remove1_subset])
  then show ?case unfolding timer_fires_def by (rule connect_on_schedule)
next
  case (Subscribe st works l)
  then have "on_schedule (st\<lparr>wc_listeners := wc_listeners st @ (if l \<in> set (wc_listeners st) then [] else [l])\<rparr>)" by (auto elim!: on_schedule_cong [rotated 2])
  then show ?case unfolding subscribe_def Let_def by (auto intro: connect_on_schedule)
next
  case (Unsubscribe st l)
  then show ?case unfolding unsubscribe_def by (auto elim!: on_schedule_cong [rotated 2])
next
  case (Disconnect st)
  then show ?case unfolding disconnect_def by (auto elim!: on_schedule_cong [rotated 2])
qed

text \<open>Whatever happens to the connection, every reconnect timer the client has set waits between one
  second and thirty, a doubling of one second cut at thirty.\<close>
theorem reconnect_delays_bounded:
  assumes "client_reach fresh_client st" and "d \<in> set (wc_timers st)"
  shows "1000 \<le> d \<and> d \<le> 30000 \<and> (\<exists>n. d = min (1000 * 2 ^ n) 30000)"
proof -
  have "on_schedule fresh_client"
    by (auto simp: on_schedule_def fresh_client_def intro: exI [of _ 0])
  with assms(1) have "on_schedule st"
    by (induction rule: rtranclp_induct) (auto intro: on_schedule_step)
  with assms(2) obtain n where "d = reconnect_delay n" by (auto simp: on_schedule_def)
  with reconnect.delay_bounds [of n] reconnect.delay_closed [of n] show ?thesis by auto
qed

theorem reconnect_delays_bounded_witness:
  "client_reach fresh_client (connect False fresh_client) \<and> 1000 \<in> set (wc_timers (connect False fresh_client)) \<and>
   (\<exists>n. (1000 :: rat) = min (1000 * 2 ^ n) 30000)"
proof -
  have r: "client_reach fresh_client (connect False fresh_client)" by (rule r_into_rtranclp) (rule Connect)
  have d: "1000 \<in> set (wc_timers (connect False fresh_client))" by (simp add: client_defs fresh_client_def)
  from reconnect_delays_bounded [OF r d] r d show ?thesis by simp
qed

subsection \<open>The client does not give up\<close>

text \<open>While it should reconnect it has a socket or a timer; the socket it has is one of the browser's.\<close>
definition alive_client :: "ws_client \<Rightarrow> bool" where
  "alive_client st \<longleftrightarrow> (wc_listeners st \<noteq> [] \<longrightarrow> wc_shouldReconnect st \<longrightarrow> wc_ws st \<noteq> None \<or> wc_timers st \<noteq> []) \<and>
     (\<forall>k. wc_ws st = Some k \<longrightarrow> k \<in> set (wc_sockets st))"

lemma alive_step: "client_step st st' \<Longrightarrow> alive_client st \<Longrightarrow> alive_client st'"
  by (induction rule: client_step.induct)
    (auto simp: alive_client_def client_defs in_set_insert removeAll_id split: if_splits)

text \<open>C26: A client that has listeners and was not disconnected never stays offline: it holds a socket that
  is not closed, or a timer is running after which it connects again.\<close>
theorem client_never_gives_up:
  assumes "client_reach fresh_client st" and "wc_listeners st \<noteq> []" and "wc_shouldReconnect st"
  shows "(\<exists>k. wc_ws st = Some k \<and> k \<in> set (wc_sockets st)) \<or> wc_timers st \<noteq> []"
proof -
  have "alive_client fresh_client" by (simp add: alive_client_def fresh_client_def)
  with assms(1) have "alive_client st"
    by (induction rule: rtranclp_induct) (auto intro: alive_step)
  with assms(2,3) show ?thesis by (auto simp: alive_client_def)
qed

theorem client_never_gives_up_witness:
  "let st = subscribe False 7 fresh_client in
     client_reach fresh_client st \<and> wc_timers st \<noteq> []"
proof -
  have r: "client_reach fresh_client (subscribe False 7 fresh_client)" by (rule r_into_rtranclp) (rule Subscribe)
  have "wc_listeners (subscribe False 7 fresh_client) \<noteq> []" "wc_shouldReconnect (subscribe False 7 fresh_client)"
    "wc_ws (subscribe False 7 fresh_client) = None"
    by (simp_all add: client_defs fresh_client_def)
  with client_never_gives_up [OF r] r show ?thesis by (simp add: Let_def)
qed

text \<open>A \<open>disconnect\<close> while a reconnect timer runs does not hold: the timer is not cleared, and the
  \<open>connect\<close> it calls switches reconnecting on again and opens a socket.\<close>
theorem disconnect_undone_by_timer:
  "let st = disconnect (onclose 0 (connect True fresh_client)) in
     client_reach fresh_client st \<and> wc_ws st = None \<and> \<not> wc_shouldReconnect st \<and>
     (let st' = timer_fires 1000 True st in wc_ws st' \<noteq> None \<and> wc_shouldReconnect st')"
proof -
  let ?a = "connect True fresh_client"
  have "client_reach fresh_client ?a" by (rule r_into_rtranclp) (rule Connect)
  moreover have "client_step ?a (onclose 0 ?a)" by (rule Closes) (simp add: connect_def fresh_client_def)
  moreover have "client_step (onclose 0 ?a) (disconnect (onclose 0 ?a))" by (rule Disconnect)
  ultimately have "client_reach fresh_client (disconnect (onclose 0 ?a))" by (meson rtranclp.rtrancl_into_rtrancl)
  then show ?thesis by (simp add: Let_def) (simp add: client_defs fresh_client_def)
qed

text \<open>The close of a socket that was given up by \<open>disconnect\<close> is taken for the close of the present
  one: after a new \<open>connect\<close> the client then opens a second socket beside the one it has, and both
  deliver every message.\<close>
theorem late_close_doubles_socket:
  "let st = timer_fires 1000 True (onclose 0 (connect True (disconnect (connect True fresh_client)))) in
     client_reach fresh_client st \<and> length (wc_sockets st) = 2"
proof -
  let ?a = "connect True fresh_client" and ?b = "connect True (disconnect (connect True fresh_client))"
  have "client_step fresh_client ?a" by (rule Connect)
  moreover have "client_step ?a (disconnect ?a)" by (rule Disconnect)
  moreover have "client_step (disconnect ?a) ?b" by (rule Connect)
  moreover have "client_step ?b (onclose 0 ?b)" by (rule Closes) (simp add: client_defs fresh_client_def)
  moreover have "client_step (onclose 0 ?b) (timer_fires 1000 True (onclose 0 ?b))"
    by (rule Timer) (simp add: client_defs fresh_client_def)
  ultimately have "client_reach fresh_client (timer_fires 1000 True (onclose 0 ?b))"
    by (meson rtranclp.rtrancl_into_rtrancl rtranclp.rtrancl_refl)
  then show ?thesis by (simp add: Let_def) (simp add: client_defs fresh_client_def)
qed

end
