(* ===== verification/Url.thy ===== *)
theory Url
  imports Js_Runtime
begin

text \<open>
  The URLs the dashboard builds and how the server takes them apart: \<open>encodeURIComponent\<close>,
  \<open>URLSearchParams\<close>, the path normalisation of the browser, and the decoding Express does.  The
  code under \<^verbatim>\<open>src\<close> only calls these; they are parts of the language and its host.
\<close>

subsection \<open>Percent encoding\<close>

definition hex_char :: "nat \<Rightarrow> char" where
  "hex_char d = ''0123456789ABCDEF'' ! d"

definition hex_val :: "char \<Rightarrow> nat option" where
  "hex_val c = (let k = of_char c :: nat in
     if 48 \<le> k \<and> k \<le> 57 then Some (k - 48)
     else if 65 \<le> k \<and> k \<le> 70 then Some (k - 55)
     else if 97 \<le> k \<and> k \<le> 102 then Some (k - 87) else None)"

lemma hex_val_hex_char: "d < 16 \<Longrightarrow> hex_val (hex_char d) = Some d"
proof -
  have "list_all (\<lambda>d. hex_val (hex_char d) = Some d) [0..<16]" by code_simp
  then show "d < 16 \<Longrightarrow> hex_val (hex_char d) = Some d" by (simp add: list_all_iff)
qed

definition percent :: "char \<Rightarrow> string" where
  "percent c = [CHR ''%'', hex_char (of_char c div 16), hex_char (of_char c mod 16)]"

definition is_alnum :: "char \<Rightarrow> bool" where
  "is_alnum c = (let k = of_char c :: nat in
     48 \<le> k \<and> k \<le> 57 \<or> 65 \<le> k \<and> k \<le> 90 \<or> 97 \<le> k \<and> k \<le> 122)"

text \<open>The characters \<open>encodeURIComponent\<close> leaves as they are.\<close>
definition is_unescaped :: "char \<Rightarrow> bool" where
  "is_unescaped c \<longleftrightarrow> is_alnum c \<or> c \<in> set ''-_.!~*()'' \<or> c = CHR 0x27"

definition encodeURIComponent :: "string \<Rightarrow> string" where
  "encodeURIComponent s = concat (map (\<lambda>c. if is_unescaped c then [c] else percent c) s)"

text \<open>\<open>decodeURIComponent\<close> throws (\<open>None\<close>) where a percent sign is not followed by two digits.\<close>
fun decodeURIComponent :: "string \<Rightarrow> string option" where
  "decodeURIComponent [] = Some []"
| "decodeURIComponent (c # s) =
     (if c \<noteq> CHR ''%'' then map_option ((#) c) (decodeURIComponent s)
      else case s of
          a # b # r \<Rightarrow>
            (case (hex_val a, hex_val b) of
               (Some x, Some y) \<Rightarrow> map_option ((#) (char_of (16 * x + y))) (decodeURIComponent r)
             | _ \<Rightarrow> None)
        | _ \<Rightarrow> None)"

lemma of_char_less_256: "(of_char c :: nat) < 256"
  by (metis of_char_mod_256 mod_less_divisor zero_less_numeral)

lemma decode_percent: "decodeURIComponent (percent c @ s) = map_option ((#) c) (decodeURIComponent s)"
proof -
  have "(of_char c :: nat) div 16 < 16" using of_char_less_256 [of c] by (simp add: less_mult_imp_div_less)
  then show ?thesis by (simp add: percent_def hex_val_hex_char)
qed

lemma unescaped_not_percent [simp]: "is_unescaped c \<Longrightarrow> c \<noteq> CHR ''%''"
  by (auto simp: is_unescaped_def is_alnum_def Let_def)

lemma decode_encode [simp]: "decodeURIComponent (encodeURIComponent s) = Some s"
  by (induction s) (simp_all add: encodeURIComponent_def decode_percent)

lemma encode_inj: "encodeURIComponent s = encodeURIComponent t \<longleftrightarrow> s = t"
  by (metis decode_encode option.inject)

subsection \<open>The characters of an encoded text\<close>

lemma set_percent: "set (percent c) \<subseteq> set ''%0123456789ABCDEF''"
proof -
  have *: "d < 16 \<Longrightarrow> hex_char d \<in> set ''0123456789ABCDEF''" for d
    unfolding hex_char_def by (rule nth_mem) simp
  have "(of_char c :: nat) div 16 < 16" using of_char_less_256 [of c] by (simp add: less_mult_imp_div_less)
  with *[of "of_char c div 16"] *[of "of_char c mod 16"] show ?thesis by (auto simp: percent_def)
qed

lemma encoded_chars: "c \<in> set (encodeURIComponent s) \<Longrightarrow> is_unescaped c \<or> c = CHR ''%''"
proof -
  have hex: "\<forall>c \<in> set ''0123456789ABCDEF''. is_unescaped c" by code_simp
  assume "c \<in> set (encodeURIComponent s)"
  then obtain x where "c \<in> set (if is_unescaped x then [x] else percent x)"
    unfolding encodeURIComponent_def set_concat set_map by blast
  with set_percent [of x] hex show ?thesis by (auto split: if_splits)
qed

lemma encoded_no_separator:
  "CHR ''/'' \<notin> set (encodeURIComponent s)" "CHR ''?'' \<notin> set (encodeURIComponent s)"
  "CHR ''&'' \<notin> set (encodeURIComponent s)" "CHR ''='' \<notin> set (encodeURIComponent s)"
  using encoded_chars by (fastforce simp: is_unescaped_def is_alnum_def Let_def)+

text \<open>A text whose encoding is a dot segment is that segment.\<close>
lemma encode_dots: "encodeURIComponent s = ''.'' \<longleftrightarrow> s = ''.''" "encodeURIComponent s = ''..'' \<longleftrightarrow> s = ''..''"
  "encodeURIComponent s = [] \<longleftrightarrow> s = []"
proof -
  have "encodeURIComponent ''.'' = ''.''" "encodeURIComponent ''..'' = ''..''" "encodeURIComponent [] = []"
    by code_simp+
  then show "encodeURIComponent s = ''.'' \<longleftrightarrow> s = ''.''" "encodeURIComponent s = ''..'' \<longleftrightarrow> s = ''..''"
    "encodeURIComponent s = [] \<longleftrightarrow> s = []"
    using encode_inj by metis+
qed

subsection \<open>Query strings\<close>

text \<open>The \<open>application/x-www-form-urlencoded\<close> serialisation of \<open>URLSearchParams\<close>.\<close>
definition form_char :: "char \<Rightarrow> string" where
  "form_char c = (if c = CHR '' '' then ''+'' else if is_alnum c \<or> c \<in> set ''*-._'' then [c] else percent c)"

definition form_encode :: "string \<Rightarrow> string" where
  "form_encode s = concat (map form_char s)"

definition form_decode :: "string \<Rightarrow> string option" where
  "form_decode s = decodeURIComponent (map (\<lambda>c. if c = CHR ''+'' then CHR '' '' else c) s)"

text \<open>\<open>params.toString()\<close>\<close>
definition join_with :: "char \<Rightarrow> string list \<Rightarrow> string" where
  "join_with sep ws = (case ws of [] \<Rightarrow> [] | w # vs \<Rightarrow> w @ concat (map ((#) sep) vs))"

definition params_toString :: "(string \<times> string) list \<Rightarrow> string" where
  "params_toString ps = join_with (CHR ''&'') (map (\<lambda>(k, v). form_encode k @ CHR ''='' # form_encode v) ps)"

text \<open>How the server reads a query string in which every name is given once; a pair that does not
  decode is dropped.\<close>
definition read_pair :: "string \<Rightarrow> (string \<times> string) option" where
  "read_pair w =
     (case (form_decode (takeWhile (\<lambda>c. c \<noteq> CHR ''='') w), form_decode (drop 1 (dropWhile (\<lambda>c. c \<noteq> CHR ''='') w))) of
        (Some k, Some v) \<Rightarrow> Some (k, v)
      | _ \<Rightarrow> None)"

definition parse_query :: "string \<Rightarrow> (string \<times> string) list" where
  "parse_query s = (if s = [] then [] else List.map_filter read_pair (split_on (CHR ''&'') s))"

lemma form_decode_encode [simp]: "form_decode (form_encode s) = Some s"
proof (induction s)
  case (Cons c s)
  have plus: "map (\<lambda>c. if c = CHR ''+'' then CHR '' '' else c) (percent c) = percent c"
    using set_percent [of c] by (auto intro!: map_idI)
  have "decodeURIComponent (map (\<lambda>c. if c = CHR ''+'' then CHR '' '' else c) (form_char c) @ t) =
      map_option ((#) c) (decodeURIComponent t)" for t
    by (auto simp: form_char_def plus decode_percent is_alnum_def Let_def)
  with Cons show ?case by (simp add: form_decode_def form_encode_def)
qed (simp add: form_decode_def form_encode_def)

lemma form_encoded_chars:
  "CHR ''&'' \<notin> set (form_encode s)" "CHR ''='' \<notin> set (form_encode s)" "CHR ''?'' \<notin> set (form_encode s)"
proof -
  have "x \<notin> set (form_char c)" if "x \<in> {CHR ''&'', CHR ''='', CHR ''?''}" for c x
    using that set_percent [of c] by (auto simp: form_char_def is_alnum_def Let_def split: if_splits)
  then show "CHR ''&'' \<notin> set (form_encode s)" "CHR ''='' \<notin> set (form_encode s)" "CHR ''?'' \<notin> set (form_encode s)"
    by (auto simp: form_encode_def)
qed

lemma split_on_append: "sep \<notin> set w \<Longrightarrow> split_on sep (w @ sep # s) = w # split_on sep s"
  by (induction w) auto

lemma split_on_single: "sep \<notin> set w \<Longrightarrow> split_on sep w = [w]"
  by (induction w) auto

lemma split_join:
  assumes "ws \<noteq> []" and "\<And>w. w \<in> set ws \<Longrightarrow> sep \<notin> set w"
  shows "split_on sep (join_with sep ws) = ws"
proof -
  have "split_on sep (w @ concat (map ((#) sep) vs)) = w # vs" if "\<forall>v \<in> set (w # vs). sep \<notin> set v" for w vs
    using that by (induction vs arbitrary: w) (simp_all add: split_on_append split_on_single)
  with assms show ?thesis by (cases ws) (simp_all add: join_with_def)
qed

lemma read_pair_encoded: "read_pair (form_encode k @ CHR ''='' # form_encode v) = Some (k, v)"
proof -
  have "\<And>c. c \<in> set (form_encode k) \<Longrightarrow> c \<noteq> CHR ''=''" using form_encoded_chars by metis
  then show ?thesis by (simp add: read_pair_def takeWhile_append2 dropWhile_append2)
qed

text \<open>The server reads the parameters the browser wrote.\<close>
lemma parse_query_params [simp]: "parse_query (params_toString ps) = ps"
proof (cases "ps = []")
  case False
  have amp: "CHR ''&'' \<notin> set ((\<lambda>(k, v). form_encode k @ CHR ''='' # form_encode v) p)" for p :: "string \<times> string"
    by (cases p) (simp add: form_encoded_chars)
  have ne: "params_toString ps \<noteq> []"
    using False by (cases ps) (auto simp: params_toString_def join_with_def)
  have "List.map_filter read_pair (map (\<lambda>(k, v). form_encode k @ CHR ''='' # form_encode v) ps) = ps"
    by (induction ps) (auto simp: map_filter_simps read_pair_encoded)
  moreover have "split_on (CHR ''&'') (params_toString ps) = map (\<lambda>(k, v). form_encode k @ CHR ''='' # form_encode v) ps"
    unfolding params_toString_def using False amp by (intro split_join) auto
  ultimately show ?thesis using ne by (simp add: parse_query_def)
qed (simp add: parse_query_def params_toString_def join_with_def)

lemma params_no_question: "CHR ''?'' \<notin> set (params_toString ps)"
proof -
  have "CHR ''?'' \<notin> set (join_with (CHR ''&'') ws)" if "\<forall>w \<in> set ws. CHR ''?'' \<notin> set w" for ws
    using that by (cases ws) (auto simp: join_with_def)
  then show ?thesis by (auto simp: params_toString_def form_encoded_chars)
qed

subsection \<open>Paths\<close>

text \<open>Before a request is sent the browser resolves the segments \<open>.\<close> and \<open>..\<close> of its path.\<close>
fun resolve_dots :: "string list \<Rightarrow> string list \<Rightarrow> string list" where
  "resolve_dots acc [] = rev acc"
| "resolve_dots acc (s # ss) =
     (if s = ''..'' then resolve_dots (tl acc) (if ss = [] then [[]] else ss)
      else if s = ''.'' then resolve_dots acc (if ss = [] then [[]] else ss)
      else resolve_dots (s # acc) ss)"

text \<open>The segments of the path after the host, decoded as Express does; one slash at the end is ignored.\<close>
definition path_segments :: "string \<Rightarrow> string list option" where
  "path_segments p =
     (let ss = resolve_dots [] (tl (split_on (CHR ''/'') p));
          ss' = (if ss \<noteq> [] \<and> last ss = [] then butlast ss else ss)
      in those (map decodeURIComponent ss'))"

lemma resolve_no_dots: "''.'' \<notin> set ss \<Longrightarrow> ''..'' \<notin> set ss \<Longrightarrow> resolve_dots acc ss = rev acc @ ss"
  by (induction ss arbitrary: acc) auto

text \<open>A path of encoded segments arrives as those segments, unless one of them is empty or a dot segment.\<close>
lemma path_segments_encoded:
  assumes "ss \<noteq> []" and "{[], ''.'', ''..''} \<inter> set ss = {}"
  shows "path_segments (concat (map (\<lambda>s. CHR ''/'' # encodeURIComponent s) ss)) = Some ss"
proof -
  have cat: "concat (map (\<lambda>s. CHR ''/'' # f s) ss) = CHR ''/'' # join_with (CHR ''/'') (map f ss)" if "ss \<noteq> []" for f ss
    using that by (cases ss) (simp_all add: join_with_def comp_def)
  let ?es = "map encodeURIComponent ss"
  have "split_on (CHR ''/'') (join_with (CHR ''/'') ?es) = ?es"
    by (rule split_join) (use assms(1) encoded_no_separator in auto)
  then have "split_on (CHR ''/'') (concat (map (\<lambda>s. CHR ''/'' # encodeURIComponent s) ss)) = [] # ?es"
    using assms(1) by (simp add: cat)
  moreover have "resolve_dots [] ?es = ?es"
    using assms(2) by (subst resolve_no_dots) (auto simp: encode_dots dest: sym)
  moreover have "last ?es \<noteq> []"
    using assms by (auto simp: last_map encode_dots dest!: last_in_set)
  moreover have "those (map decodeURIComponent ?es) = Some ss"
    by (induction ss) simp_all
  ultimately show ?thesis by (simp add: path_segments_def Let_def)
qed

end
