(* ===== verification/Dashboard_Api.thy ===== *)
theory Dashboard_Api
  imports Url Json_Roundtrip Routes_Correct
begin

text \<open>
  \<^verbatim>\<open>dashboard/src/api.ts\<close>: the requests the dashboard makes, and what they meet on the server.

  \<open>fetch\<close> is a parameter: from a request to the program that answers it.  \<open>network\<close> is the one of
  the deployment: the browser resolves the path, Express takes URL and body apart, and \<open>serve\<close>
  (theory \<open>Routes\<close>) answers.  The base \<open>API_URL\<close> is an origin; the requests are kept from the
  path on.
\<close>

subsection \<open>The requests\<close>

record api_call =
  ac_method :: string
  ac_target :: string
  ac_headers :: "(string \<times> string) list"
  ac_body :: "string option"

definition get_call :: "string \<Rightarrow> api_call" where
  "get_call t = \<lparr>ac_method = ''get'', ac_target = t, ac_headers = [], ac_body = None\<rparr>"

definition post_call :: "string \<Rightarrow> string option \<Rightarrow> api_call" where
  "post_call t body = \<lparr>ac_method = ''post'', ac_target = t,
     ac_headers = [(''Content-Type'', ''application/json'')], ac_body = body\<rparr>"

record page_opts =
  po_status :: "string option"
  po_limit :: "jsnum option"
  po_offset :: "jsnum option"

text \<open>Lines 15--18: a parameter is set where its option is given, an empty status is none.\<close>
definition page_params :: "page_opts \<Rightarrow> (string \<times> string) list" where
  "page_params opts =
     (if truthy (po_status opts) then [(''status'', nullish (po_status opts) '''')] else []) @
     (case po_limit opts of None \<Rightarrow> [] | Some n \<Rightarrow> [(''limit'', js_String n)]) @
     (case po_offset opts of None \<Rightarrow> [] | Some n \<Rightarrow> [(''offset'', js_String n)])"

definition queues_call :: api_call where
  "queues_call = get_call ''/queues''"

definition jobs_call :: "string \<Rightarrow> page_opts \<Rightarrow> api_call" where
  "jobs_call name opts =
     (let qs = params_toString (page_params opts)
      in get_call (''/queues/'' @ encodeURIComponent name @ ''/jobs'' @ (if qs = [] then [] else CHR ''?'' # qs)))"

definition job_call :: "string \<Rightarrow> api_call" where
  "job_call i = get_call (''/jobs/'' @ encodeURIComponent i)"

definition retry_call :: "string \<Rightarrow> api_call" where
  "retry_call i = post_call (''/jobs/'' @ encodeURIComponent i @ ''/retry'') None"

definition workers_call :: api_call where
  "workers_call = get_call ''/workers''"

definition dlq_call :: "string \<Rightarrow> api_call" where
  "dlq_call queueName = get_call (''/queues/'' @ encodeURIComponent queueName @ ''/dlq'')"

definition requeue_json :: "string list option \<Rightarrow> json" where
  "requeue_json jobIds = (case jobIds of
     Some is \<Rightarrow> JObj [(''jobIds'', JArr (map JStr is))] | None \<Rightarrow> JObj [(''all'', JBool True)])"

definition requeue_call :: "string \<Rightarrow> string list option \<Rightarrow> api_call" where
  "requeue_call queueName jobIds =
     post_call (''/queues/'' @ encodeURIComponent queueName @ ''/dlq/requeue'') (Some (json_stringify (requeue_json jobIds)))"

subsection \<open>The functions of the module\<close>

type_synonym fetch = "api_call \<Rightarrow> response prog"

text \<open>\<open>if (!res.ok) throw new Error(...); return res.json();\<close>\<close>
definition api_fetch :: "fetch \<Rightarrow> string \<Rightarrow> api_call \<Rightarrow> json prog" where
  "api_fetch fetch msg c = await (fetch c) (\<lambda>res. case res of Reply status body \<Rightarrow>
     if 200 \<le> status \<and> status \<le> 299 then Ret body else Throw (JsError (msg @ int_str status)))"

definition getQueues :: "fetch \<Rightarrow> json prog" where
  "getQueues fetch = api_fetch fetch ''Failed to fetch queues: '' queues_call"

definition getQueueJobs :: "fetch \<Rightarrow> string \<Rightarrow> page_opts \<Rightarrow> json prog" where
  "getQueueJobs fetch name opts = api_fetch fetch ''Failed to fetch jobs: '' (jobs_call name opts)"

definition getJob_api :: "fetch \<Rightarrow> string \<Rightarrow> json prog" where
  "getJob_api fetch i = api_fetch fetch ''Failed to fetch job: '' (job_call i)"

definition retryJob :: "fetch \<Rightarrow> string \<Rightarrow> json prog" where
  "retryJob fetch i = api_fetch fetch ''Failed to retry job: '' (retry_call i)"

definition getWorkers :: "fetch \<Rightarrow> json prog" where
  "getWorkers fetch = api_fetch fetch ''Failed to fetch workers: '' workers_call"

definition getDlqJobs :: "fetch \<Rightarrow> string \<Rightarrow> json prog" where
  "getDlqJobs fetch queueName = api_fetch fetch ''Failed to fetch DLQ jobs: '' (dlq_call queueName)"

definition requeueDlq :: "fetch \<Rightarrow> string \<Rightarrow> string list option \<Rightarrow> json prog" where
  "requeueDlq fetch queueName jobIds = api_fetch fetch ''Failed to requeue DLQ jobs: '' (requeue_call queueName jobIds)"

lemmas call_defs = queues_call_def jobs_call_def job_call_def retry_call_def workers_call_def dlq_call_def
  requeue_call_def get_call_def post_call_def Let_def

subsection \<open>From the browser to a handler\<close>

definition url_path :: "string \<Rightarrow> string" where
  "url_path t = takeWhile (\<lambda>c. c \<noteq> CHR ''?'') t"

definition url_query :: "string \<Rightarrow> string" where
  "url_query t = drop 1 (dropWhile (\<lambda>c. c \<noteq> CHR ''?'') t)"

text \<open>The request as the server sees it; \<open>express.json()\<close> leaves an empty object where there is no body.\<close>
definition arriving_request :: "api_call \<Rightarrow> request" where
  "arriving_request c = \<lparr>rq_authorization = map_of (ac_headers c) ''Authorization'',
     rq_xApiKey = map_of (ac_headers c) ''X-API-Key'',
     rq_query = map_of (parse_query (url_query (ac_target c))),
     rq_body = (case ac_body c of None \<Rightarrow> JObj [] | Some t \<Rightarrow> nullish (json_parse t) (JObj []))\<rparr>"

definition network :: "router_deps \<Rightarrow> process_env \<Rightarrow> fetch" where
  "network deps env c = (case path_segments (url_path (ac_target c)) of
     None \<Rightarrow> Ret (error_handler (JsError ''URI malformed''))
   | Some path \<Rightarrow> serve deps env (arriving_request c) (ac_method c) path)"

definition route_of :: "bool \<Rightarrow> api_call \<Rightarrow> (guard \<times> endpoint \<times> (string \<times> string) list) option" where
  "route_of redis c = Option.bind (path_segments (url_path (ac_target c))) (\<lambda>path. find_route (ac_method c) path (buildRouter redis))"

lemma url_split:
  assumes "CHR ''?'' \<notin> set p"
  shows "url_path p = p" and "url_query p = []" and "url_path (p @ CHR ''?'' # q) = p" and "url_query (p @ CHR ''?'' # q) = q"
proof -
  have *: "\<And>c. c \<in> set p \<Longrightarrow> c \<noteq> CHR ''?''" using assms by metis
  then have t: "takeWhile (\<lambda>c. c \<noteq> CHR ''?'') p = p" and d: "dropWhile (\<lambda>c. c \<noteq> CHR ''?'') p = []"
    by (simp_all only: takeWhile_eq_all_conv dropWhile_eq_Nil_conv) auto
  show "url_path p = p" and "url_query p = []"
    unfolding url_path_def url_query_def t d by simp_all
  show "url_path (p @ CHR ''?'' # q) = p" and "url_query (p @ CHR ''?'' # q) = q"
    using * by (simp_all add: url_path_def url_query_def takeWhile_append2 dropWhile_append2)
qed

abbreviation plain_name :: "string \<Rightarrow> bool" where
  "plain_name s \<equiv> s \<notin> {[], ''.'', ''..''}"

text \<open>A path of literal segments and one encoded name.\<close>
lemma name_path:
  assumes "plain_name s"
  shows "path_segments (''/jobs/'' @ encodeURIComponent s) = Some [''jobs'', s]"
    and "path_segments (''/jobs/'' @ encodeURIComponent s @ ''/retry'') = Some [''jobs'', s, ''retry'']"
    and "path_segments (''/queues/'' @ encodeURIComponent s @ ''/jobs'') = Some [''queues'', s, ''jobs'']"
    and "path_segments (''/queues/'' @ encodeURIComponent s @ ''/dlq'') = Some [''queues'', s, ''dlq'']"
    and "path_segments (''/queues/'' @ encodeURIComponent s @ ''/dlq/requeue'') = Some [''queues'', s, ''dlq'', ''requeue'']"
proof -
  have lit: "encodeURIComponent ''jobs'' = ''jobs''" "encodeURIComponent ''retry'' = ''retry''"
    "encodeURIComponent ''queues'' = ''queues''" "encodeURIComponent ''dlq'' = ''dlq''"
    "encodeURIComponent ''requeue'' = ''requeue''"
    by code_simp+
  show "path_segments (''/jobs/'' @ encodeURIComponent s) = Some [''jobs'', s]"
    using path_segments_encoded [of "[''jobs'', s]"] assms by (auto simp: lit)
  show "path_segments (''/jobs/'' @ encodeURIComponent s @ ''/retry'') = Some [''jobs'', s, ''retry'']"
    using path_segments_encoded [of "[''jobs'', s, ''retry'']"] assms by (auto simp: lit)
  show "path_segments (''/queues/'' @ encodeURIComponent s @ ''/jobs'') = Some [''queues'', s, ''jobs'']"
    using path_segments_encoded [of "[''queues'', s, ''jobs'']"] assms by (auto simp: lit)
  show "path_segments (''/queues/'' @ encodeURIComponent s @ ''/dlq'') = Some [''queues'', s, ''dlq'']"
    using path_segments_encoded [of "[''queues'', s, ''dlq'']"] assms by (auto simp: lit)
  show "path_segments (''/queues/'' @ encodeURIComponent s @ ''/dlq/requeue'') = Some [''queues'', s, ''dlq'', ''requeue'']"
    using path_segments_encoded [of "[''queues'', s, ''dlq'', ''requeue'']"] assms by (auto simp: lit)
qed

lemma fixed_paths:
  "path_segments ''/queues'' = Some [''queues'']" "path_segments ''/workers'' = Some [''workers'']"
  by code_simp+

text \<open>What \<open>JSON.stringify\<close> wrote into a body is what \<open>express.json()\<close> reads.\<close>
lemma requeue_body_read: "nullish (json_parse (json_stringify (requeue_json is))) (JObj []) = requeue_json is"
proof -
  have "json_ok (requeue_json is)" by (cases "is") (auto simp: requeue_json_def)
  then show ?thesis by (simp add: json_roundtrip)
qed

lemma jobs_target:
  "\<exists>t. ac_target (jobs_call name opts) = (''/queues/'' @ encodeURIComponent name @ ''/jobs'') @ t \<and>
     url_path (ac_target (jobs_call name opts)) = ''/queues/'' @ encodeURIComponent name @ ''/jobs'' \<and>
     url_query (ac_target (jobs_call name opts)) = params_toString (page_params opts)"
proof -
  let ?p = "''/queues/'' @ encodeURIComponent name @ ''/jobs''"
  have q: "CHR ''?'' \<notin> set ?p" using encoded_no_separator(2) [of name] by simp
  show ?thesis
  proof (cases "params_toString (page_params opts) = []")
    case True
    then have "ac_target (jobs_call name opts) = ?p" by (simp add: call_defs)
    with url_split(1,2) [OF q] True show ?thesis by (intro exI [of _ "[]"]) simp
  next
    case False
    let ?qs = "params_toString (page_params opts)"
    have "ac_target (jobs_call name opts) = ?p @ CHR ''?'' # ?qs" using False by (simp add: call_defs)
    with url_split(3,4) [OF q, of ?qs] show ?thesis by (intro exI [of _ "CHR ''?'' # ?qs"]) simp
  qed
qed

lemma encoded_path: "CHR ''?'' \<notin> set a \<Longrightarrow> CHR ''?'' \<notin> set b \<Longrightarrow> url_path (a @ encodeURIComponent s @ b) = a @ encodeURIComponent s @ b"
  using encoded_no_separator(2) [of s] by (intro url_split(1)) simp

lemma call_paths:
  "url_path (ac_target queues_call) = ''/queues''" "url_path (ac_target workers_call) = ''/workers''"
  "url_path (ac_target (job_call i)) = ''/jobs/'' @ encodeURIComponent i"
  "url_path (ac_target (retry_call i)) = ''/jobs/'' @ encodeURIComponent i @ ''/retry''"
  "url_path (ac_target (dlq_call q)) = ''/queues/'' @ encodeURIComponent q @ ''/dlq''"
  "url_path (ac_target (requeue_call q is)) = ''/queues/'' @ encodeURIComponent q @ ''/dlq/requeue''"
  using encoded_path [of "''/jobs/''" "[]" i] encoded_path [of "''/jobs/''" "''/retry''" i]
    encoded_path [of "''/queues/''" "''/dlq''" q] encoded_path [of "''/queues/''" "''/dlq/requeue''" q]
  by (simp_all add: call_defs url_path_def)

lemma jobs_path: "url_path (ac_target (jobs_call name opts)) = ''/queues/'' @ encodeURIComponent name @ ''/jobs''"
  and jobs_query: "rq_query (arriving_request (jobs_call name opts)) = map_of (page_params opts)"
  using jobs_target [of name opts] by (auto simp: arriving_request_def)

lemma call_methods [simp]:
  "ac_method queues_call = ''get''" "ac_method workers_call = ''get''" "ac_method (job_call i) = ''get''"
  "ac_method (jobs_call q opts) = ''get''" "ac_method (dlq_call q) = ''get''"
  "ac_method (retry_call i) = ''post''" "ac_method (requeue_call q is) = ''post''"
  by (simp_all add: call_defs)

text \<open>Where each request goes, the names in it being neither empty nor a dot segment.\<close>
lemma call_routes:
  "route_of True queues_call = Some (Jwt, QueuesE, [])"
  "route_of True workers_call = Some (Jwt, WorkersE, [])"
  "plain_name i \<Longrightarrow> route_of redis (job_call i) = Some (Open, GetJobE, [(''id'', i)])"
  "plain_name i \<Longrightarrow> route_of True (retry_call i) = Some (Jwt, RetryE, [(''id'', i)])"
  "plain_name q \<Longrightarrow> route_of True (jobs_call q opts) = Some (Jwt, QueueJobsE, [(''name'', q)])"
  "plain_name q \<Longrightarrow> route_of True (dlq_call q) = Some (Jwt, DlqE, [(''name'', q)])"
  "plain_name q \<Longrightarrow> route_of True (requeue_call q is) = Some (Jwt, RequeueE, [(''name'', q)])"
proof -
  show "route_of True queues_call = Some (Jwt, QueuesE, [])" "route_of True workers_call = Some (Jwt, WorkersE, [])"
    unfolding route_of_def call_paths fixed_paths by (simp_all add: buildRouter_def)
next
  assume i: "plain_name i"
  show "route_of redis (job_call i) = Some (Open, GetJobE, [(''id'', i)])"
    "route_of True (retry_call i) = Some (Jwt, RetryE, [(''id'', i)])"
    unfolding route_of_def call_paths name_path [OF i] using i by (simp_all add: buildRouter_def)
next
  assume q: "plain_name q"
  show "route_of True (jobs_call q opts) = Some (Jwt, QueueJobsE, [(''name'', q)])"
    "route_of True (dlq_call q) = Some (Jwt, DlqE, [(''name'', q)])"
    "route_of True (requeue_call q is) = Some (Jwt, RequeueE, [(''name'', q)])"
    unfolding route_of_def call_paths jobs_path name_path [OF q] using q by (simp_all add: buildRouter_def)
qed

text \<open>C27: Every request of the dashboard reaches the route it is meant for, with the queue or job as its
  parameter, the page parameters and the body as they were given, whatever characters they hold;
  only the empty name and the dot segments, which no path can carry, are excepted.\<close>
theorem api_reaches_route:
  assumes "plain_name q" and "plain_name i"
  shows "route_of True queues_call = Some (Jwt, QueuesE, []) \<and>
    route_of True workers_call = Some (Jwt, WorkersE, []) \<and>
    route_of True (job_call i) = Some (Open, GetJobE, [(''id'', i)]) \<and>
    route_of True (retry_call i) = Some (Jwt, RetryE, [(''id'', i)]) \<and>
    route_of True (jobs_call q opts) = Some (Jwt, QueueJobsE, [(''name'', q)]) \<and>
    (\<forall>k. rq_query (arriving_request (jobs_call q opts)) k = map_of (page_params opts) k) \<and>
    route_of True (dlq_call q) = Some (Jwt, DlqE, [(''name'', q)]) \<and>
    route_of True (requeue_call q ids) = Some (Jwt, RequeueE, [(''name'', q)]) \<and>
    read_requeue_body (rq_body (arriving_request (requeue_call q ids))) = \<lparr>rb_jobIds = ids, rb_all = (ids = None)\<rparr>"
proof -
  have "rq_body (arriving_request (requeue_call q ids)) = requeue_json ids"
    by (simp add: arriving_request_def requeue_call_def post_call_def requeue_body_read)
  then have "read_requeue_body (rq_body (arriving_request (requeue_call q ids))) = \<lparr>rb_jobIds = ids, rb_all = (ids = None)\<rparr>"
    by (cases ids) (simp_all add: read_requeue_body_def requeue_json_def member_truthy_def comp_def)
  with assms show ?thesis by (simp add: call_routes jobs_query)
qed

theorem api_reaches_route_witness:
  "read_requeue_body (rq_body (arriving_request (requeue_call ''e-mails & more'' (Some [''a/b''])))) =
     \<lparr>rb_jobIds = Some [''a/b''], rb_all = False\<rparr> \<and>
   ac_target (job_call ''a/b?'') = ''/jobs/a%2Fb%3F'' \<and> route_of True (job_call ''a/b?'') = Some (Open, GetJobE, [(''id'', ''a/b?'')])"
proof -
  have "ac_target (job_call ''a/b?'') = ''/jobs/a%2Fb%3F''" by code_simp
  with api_reaches_route [of "''e-mails & more''" "''a/b?''" undefined "Some [''a/b'']"] show ?thesis by simp
qed

subsection \<open>The dashboard has no token\<close>

lemma no_credentials: "rq_authorization (arriving_request c) = map_of (ac_headers c) ''Authorization''"
  by (simp add: arriving_request_def)

lemma call_headers [simp]:
  "map_of (ac_headers queues_call) ''Authorization'' = None" "map_of (ac_headers workers_call) ''Authorization'' = None"
  "map_of (ac_headers (retry_call i)) ''Authorization'' = None" "map_of (ac_headers (jobs_call q opts)) ''Authorization'' = None"
  "map_of (ac_headers (dlq_call q)) ''Authorization'' = None" "map_of (ac_headers (requeue_call q ids)) ''Authorization'' = None"
  by (simp_all add: call_defs)

lemma network_route:
  "route_of (rd_redis deps) c = Some (g, e, ps) \<Longrightarrow> network deps env c =
     await (run_guard deps env (arriving_request c) g) (\<lambda>a. case a of
         Respond r \<Rightarrow> Ret r | Next \<Rightarrow> handler deps env (arriving_request c) e ps)"
  by (auto simp: route_of_def network_def serve_def split: option.splits bind_splits)

text \<open>What an api function makes of the answer.\<close>
definition api_result :: "string \<Rightarrow> response \<Rightarrow> err + json" where
  "api_result msg r = (case r of Reply status body \<Rightarrow>
     if 200 \<le> status \<and> status \<le> 299 then Inr body else Inl (JsError (msg @ int_str status)))"

lemma vwp_api_fetch:
  "vwp I (fetch c) (\<lambda>r w. case r of Inl e \<Rightarrow> Q (Inl e) w | Inr resp \<Rightarrow> Q (api_result msg resp) w) v \<Longrightarrow>
   vwp I (api_fetch fetch msg c) Q v"
  unfolding api_fetch_def vwp_await
  by (erule vwp_mono) (auto simp: then_post_def api_result_def split: sum.splits response.splits)

lemma vwp_locked_out:
  assumes "route_of (rd_redis deps) c = Some (Jwt, e, ps)" and "map_of (ac_headers c) ''Authorization'' = None"
    and "truthy (env ''JWT_SECRET'')"
  shows "vwp any_state (api_fetch (network deps env) msg c)
     (\<lambda>r w. (\<exists>msg. r = Inl (JsError (msg @ ''401''))) \<and> job_data w = job_data v) v"
proof (rule vwp_api_fetch)
  have "int_str 401 = ''401''" by code_simp
  then have "api_result msg (Reply 401 b) = Inl (JsError (msg @ ''401''))" for b
    by (simp add: api_result_def)
  with assms(2,3) show "vwp any_state (network deps env c)
      (\<lambda>r w. case r of Inl e \<Rightarrow> (\<exists>msg. Inl e = (Inl (JsError (msg @ ''401'')) :: err + json)) \<and> job_data w = job_data v
        | Inr resp \<Rightarrow> (\<exists>m. api_result msg resp = Inl (JsError (m @ ''401''))) \<and> job_data w = job_data v) v"
    by (simp add: network_route [OF assms(1)] run_guard_def vwp_rules jwtMiddleware_def no_credentials error_body_def) 
qed

text \<open>C28: Once a JWT secret is configured, every function of the dashboard but the one that reads a single
  job fails with status 401 and changes nothing: the dashboard never sends a token.\<close>
theorem dashboard_locked_out:
  assumes "backend exec view" and "rd_redis deps" and "truthy (env ''JWT_SECRET'')" and "plain_name q" and "plain_name i"
    and "p \<in> {getQueues (network deps env), getQueueJobs (network deps env) q opts, retryJob (network deps env) i,
      getWorkers (network deps env), getDlqJobs (network deps env) q, requeueDlq (network deps env) q ids}"
    and "run exec p s = (r, s')"
  shows "(\<exists>msg. r = Inl (JsError (msg @ ''401''))) \<and> job_data (view s') = job_data (view s)"
proof -
  have "vwp any_state p (\<lambda>r w. (\<exists>msg. r = Inl (JsError (msg @ ''401''))) \<and> job_data w = job_data (view s)) (view s)"
    using assms(2,3,4,5,6) unfolding getQueues_def getQueueJobs_def retryJob_def getWorkers_def getDlqJobs_def requeueDlq_def
    by (auto intro!: vwp_locked_out simp: call_routes)
  from backend.run_post [OF assms(1,7) this] show ?thesis by auto
qed

theorem dashboard_locked_out_witness:
  "\<exists>r m msg. run (mem_exec no_faults) (requeueDlq (network no_deps admin_env) ''q'' None) mem_dead = (r, m) \<and>
     r = Inl (JsError (msg @ ''401'')) \<and> job_data (mem_view m) = job_data (mem_view mem_dead)"
proof -
  obtain r m where rm: "run (mem_exec no_faults) (requeueDlq (network no_deps admin_env) ''q'' None) mem_dead = (r, m)"
    by fastforce
  have "truthy (admin_env ''JWT_SECRET'')" "rd_redis no_deps" by (simp_all add: admin_env_def no_deps_def)
  from dashboard_locked_out [where env = admin_env and q = "''q''" and i = "''i''" and ids = None, OF mem_backend this(2,1) _ _ _ rm] rm
  show ?thesis by auto
qed

end
