(* ===== verification/Queue_Page.thy ===== *)
theory Queue_Page
  imports Dashboard_Api
begin

text \<open>
  \<^verbatim>\<open>dashboard/src/pages/QueueDetail.tsx\<close>: the page of one queue, with its status filter and its
  pager, over the server's listing of jobs.

  React is the host: a component is its state, the handlers that change it and the effect that
  loads data when the name, the status or the offset has changed.
\<close>

subsection \<open>State and handlers\<close>

definition STATUSES :: "string list" where
  "STATUSES = [''all'', ''pending'', ''active'', ''completed'', ''failed'', ''dlq'']"

definition PAGE_SIZE :: int where
  "PAGE_SIZE = 20"

record queue_detail =
  qd_jobs :: "json list"
  qd_total :: int
  qd_status :: string
  qd_offset :: int
  qd_selected :: "string option"

definition fresh_page :: queue_detail where
  "fresh_page = \<lparr>qd_jobs = [], qd_total = 0, qd_status = ''all'', qd_offset = 0, qd_selected = None\<rparr>"

definition page_query :: "queue_detail \<Rightarrow> page_opts" where
  "page_query st = \<lparr>po_status = (if qd_status st = ''all'' then None else Some (qd_status st)),
     po_limit = Some (Num (of_int PAGE_SIZE)), po_offset = Some (Num (of_int (qd_offset st)))\<rparr>"

text \<open>The answer of the declared type \<open>{ jobs: Job[]; total: number }\<close>.\<close>
fun page_loaded :: "json \<Rightarrow> queue_detail \<Rightarrow> queue_detail" where
  "page_loaded d st = (case (member ''jobs'' d, member ''total'' d) of
     (Some (JArr js), Some (JNum n)) \<Rightarrow> st\<lparr>qd_jobs := js, qd_total := \<lfloor>n\<rfloor>\<rparr>
   | _ \<Rightarrow> st)"

definition fetch_page :: "fetch \<Rightarrow> string \<Rightarrow> queue_detail \<Rightarrow> queue_detail prog" where
  "fetch_page fetch name st = await (getQueueJobs fetch name (page_query st)) (\<lambda>d. Ret (page_loaded d st))"

text \<open>The effect: \<open>.catch(() => {})\<close> leaves what is shown.\<close>
definition load_page :: "fetch \<Rightarrow> string \<Rightarrow> queue_detail \<Rightarrow> queue_detail prog" where
  "load_page fetch name st =
     (if name = [] then Ret st else try_catch (fetch_page fetch name st) (\<lambda>_. Ret st))"

definition totalPages :: "queue_detail \<Rightarrow> int" where
  "totalPages st = \<lceil>(of_int (qd_total st) :: rat) / of_int PAGE_SIZE\<rceil>"

definition currentPage :: "queue_detail \<Rightarrow> int" where
  "currentPage st = \<lfloor>(of_int (qd_offset st) :: rat) / of_int PAGE_SIZE\<rfloor> + 1"

definition select_status :: "string \<Rightarrow> queue_detail \<Rightarrow> queue_detail" where
  "select_status s st = st\<lparr>qd_status := s, qd_offset := 0\<rparr>"

text \<open>The pager is shown where there is more than one page; its buttons are disabled at the ends.\<close>
definition previous_enabled :: "queue_detail \<Rightarrow> bool" where
  "previous_enabled st \<longleftrightarrow> totalPages st > 1 \<and> qd_offset st \<noteq> 0"

definition press_previous :: "queue_detail \<Rightarrow> queue_detail" where
  "press_previous st = st\<lparr>qd_offset := max 0 (qd_offset st - PAGE_SIZE)\<rparr>"

definition next_enabled :: "queue_detail \<Rightarrow> bool" where
  "next_enabled st \<longleftrightarrow> totalPages st > 1 \<and> \<not> currentPage st \<ge> totalPages st"

definition press_next :: "queue_detail \<Rightarrow> queue_detail" where
  "press_next st = st\<lparr>qd_offset := qd_offset st + PAGE_SIZE\<rparr>"

definition select_job :: "string option \<Rightarrow> queue_detail \<Rightarrow> queue_detail" where
  "select_job i st = st\<lparr>qd_selected := i\<rparr>"

lemmas page_defs = select_status_def previous_enabled_def press_previous_def next_enabled_def press_next_def
  select_job_def fresh_page_def PAGE_SIZE_def

subsection \<open>The pager\<close>

text \<open>Offsets are whole pages.\<close>
definition whole_pages :: "queue_detail \<Rightarrow> bool" where
  "whole_pages st \<longleftrightarrow> 0 \<le> qd_offset st \<and> PAGE_SIZE dvd qd_offset st"

lemma currentPage_whole: "whole_pages st \<Longrightarrow> currentPage st = qd_offset st div 20 + 1"
  using floor_divide_of_int_eq [of "qd_offset st" 20, where ?'a = rat]
  by (simp add: currentPage_def PAGE_SIZE_def)

lemma totalPages_ceiling: "totalPages st = (qd_total st + 19) div 20"
proof -
  have "\<lceil>(of_int (qd_total st) :: rat) / of_int 20\<rceil> = - (- qd_total st div 20)"
    using ceiling_divide_eq_div [of "qd_total st" 20, where ?'a = rat] by simp
  then show ?thesis by (simp add: totalPages_def PAGE_SIZE_def)
qed

text \<open>The next page exists exactly where a row lies behind the present one.\<close>
lemma next_enabled_iff: "whole_pages st \<Longrightarrow> next_enabled st \<longleftrightarrow> qd_offset st + 20 < qd_total st"
  by (auto simp: next_enabled_def currentPage_whole totalPages_ceiling whole_pages_def PAGE_SIZE_def)

text \<open>What the user and the network do to the page; a button works only where it is enabled.\<close>
inductive page_step :: "queue_detail \<Rightarrow> queue_detail \<Rightarrow> bool" where
  Status: "s \<in> set STATUSES \<Longrightarrow> page_step st (select_status s st)"
| Previous: "previous_enabled st \<Longrightarrow> page_step st (press_previous st)"
| NextPage: "next_enabled st \<Longrightarrow> page_step st (press_next st)"
| Loaded: "page_step st (page_loaded d st)"
| Select: "page_step st (select_job i st)"

lemma page_loaded_frame [simp]:
  "qd_offset (page_loaded d st) = qd_offset st" "qd_status (page_loaded d st) = qd_status st"
  by (auto split: option.splits json.splits)

lemma page_step_whole: "page_step st st' \<Longrightarrow> whole_pages st \<and> qd_status st \<in> set STATUSES \<Longrightarrow> whole_pages st' \<and> qd_status st' \<in> set STATUSES"
  by (induction rule: page_step.induct) (auto simp: whole_pages_def page_defs max_def simp del: page_loaded.simps)

lemma page_query_accepted:
  assumes "page_step\<^sup>*\<^sup>* fresh_page st"
  shows "whole_pages st \<and> qd_status st \<in> set STATUSES"
  using assms
  by (induction rule: rtranclp_induct)
    (auto simp: whole_pages_def page_defs STATUSES_def dest!: page_step_whole)

subsection \<open>The pages together\<close>

text \<open>The request of a page as the server reads it.\<close>
lemma page_request:
  fixes st
  assumes "plain_name q"
  defines "req \<equiv> arriving_request (jobs_call q (page_query st))"
  shows "page_limit req = Num 20" and "page_offset req = Num (of_int (qd_offset st))"
    and "rq_query req ''status'' = (if truthy (po_status (page_query st)) then po_status (page_query st) else None)"
proof -
  have "int_str 20 = ''20''" by code_simp
  then have t: "js_String (Num 20) = ''20''" and n: "js_Number ''20'' = Num 20"
    using js_Number_int_str [of 20] by simp_all
  have q: "rq_query req = map_of (page_params (page_query st))" by (simp add: req_def jobs_query)
  show "page_limit req = Num 20"
    by (simp add: page_limit_def q page_params_def page_query_def number_or_def PAGE_SIZE_def n t)
  show "page_offset req = Num (of_int (qd_offset st))"
    by (simp add: page_offset_def q page_params_def page_query_def number_or_def)
  show "rq_query req ''status'' = (if truthy (po_status (page_query st)) then po_status (page_query st) else None)"
    by (cases "po_status (page_query st)") (simp_all add: q page_params_def page_query_def)
qed

text \<open>The rows a status of the page stands for.\<close>
definition status_of_page :: "queue_detail \<Rightarrow> job_status option" where
  "status_of_page st = (if qd_status st = ''all'' then None else status_of_str (qd_status st))"

lemma statuses_valid:
  "s \<in> set STATUSES \<Longrightarrow> s \<noteq> [] \<and> (s = ''all'' \<or> status_of_str s \<noteq> None)"
  by (auto simp: STATUSES_def)

lemma page_filter:
  assumes "plain_name q" and "qd_status st \<in> set STATUSES"
  shows "status_filter (arriving_request (jobs_call q (page_query st))) = status_of_page st"
    and "\<not> (truthy (rq_query (arriving_request (jobs_call q (page_query st))) ''status'') \<and>
      status_filter (arriving_request (jobs_call q (page_query st))) = None)"
proof -
  let ?req = "arriving_request (jobs_call q (page_query st))"
  have ne: "qd_status st \<noteq> []" and ok: "qd_status st \<noteq> ''all'' \<Longrightarrow> status_of_str (qd_status st) \<noteq> None"
    using statuses_valid [OF assms(2)] by blast+
  have "rq_query ?req ''status'' = (if qd_status st = ''all'' then None else Some (qd_status st))"
    using page_request(3) [OF assms(1), of st] ne by (simp add: page_query_def del: status_of_str.simps)
  with ne ok show "status_filter ?req = status_of_page st" and "\<not> (truthy (rq_query ?req ''status'') \<and> status_filter ?req = None)"
    by (simp_all add: status_filter_def status_of_page_def del: status_of_str.simps)
qed

lemma newest_first_cong: "s_rows u = s_rows v \<Longrightarrow> newest_first u q st all \<longleftrightarrow> newest_first v q st all"
  by (simp add: newest_first_def)

lemma job_data_rows: "job_data u = job_data v \<Longrightarrow> s_rows u = s_rows v"
  by (simp add: job_data_def)

lemma job_data_clock [simp]: "job_data (v\<lparr>s_clock := t\<rparr>) = job_data v"
  by (simp add: job_data_def)

text \<open>One page, where no JWT secret is configured.\<close>
lemma vwp_fetch_page:
  assumes "rd_redis deps" and "\<not> truthy (env ''JWT_SECRET'')" and "plain_name q"
    and "whole_pages st" and "qd_status st \<in> set STATUSES"
  shows "vwp any_state (fetch_page (network deps env) q st)
     (\<lambda>r u. job_data u = job_data v \<and> (\<forall>st'. r = Inr st' \<longrightarrow> (\<exists>all. newest_first v q (status_of_page st) all \<and>
        st' = st\<lparr>qd_jobs := map row_json (take 20 (drop (nat (qd_offset st)) all)), qd_total := int (length all)\<rparr>))) v"
    (is "vwp _ _ ?Q _")
proof -
  let ?req = "arriving_request (jobs_call q (page_query st))"
  have route: "route_of (rd_redis deps) (jobs_call q (page_query st)) = Some (Jwt, QueueJobsE, [(''name'', q)])"
    using assms(1,3) by (simp add: call_routes)
  have answer: "then_post any_state (\<lambda>d. Ret (page_loaded d st)) ?Q (api_result msg resp) u"
    if "jobs_answer (v\<lparr>s_clock := t\<rparr>) q ?req (Inr resp) u" for t resp u msg
  proof (cases "reply_status resp = 200")
    case True
    with that page_request(1,2) [OF assms(3), of st] obtain all where
      "newest_first v q (status_of_page st) all" and
      "resp = Reply 200 (JObj [(''jobs'', JArr (map row_json (take 20 (drop (nat (qd_offset st)) all)))),
         (''total'', JNum (of_nat (length all)))])" and "u = v\<lparr>s_clock := t\<rparr>"
      unfolding jobs_answer_def page_filter(1) [OF assms(3,5)] by (auto simp: newest_first_def)
    then show ?thesis by (auto simp: api_result_def)
  next
    case False
    from that have "reply_status resp \<in> {200, 400, 500}" and u: "u = v\<lparr>s_clock := t\<rparr>"
      unfolding jobs_answer_def by blast+
    with False obtain b where "resp = Reply 400 b \<or> resp = Reply 500 b" by (cases resp) auto
    moreover note u
    ultimately show ?thesis by (auto simp: api_result_def)
  qed
  have is_resp: "\<exists>resp. r = Inr resp" if "jobs_answer w q ?req r u" for w r u
    using that unfolding jobs_answer_def by blast
  show ?thesis
    unfolding fetch_page_def vwp_await getQueueJobs_def
    apply (rule vwp_api_fetch)
    apply (simp add: network_route [OF route] run_guard_def vwp_rules jwtMiddleware_def assms(2) handler_def)
    apply (intro allI impI vwp_mono [OF vwp_get_queue_jobs])
     apply simp
    subgoal for t r u
      using is_resp [of "v\<lparr>s_clock := t\<rparr>" r u] answer [of t _ u] by (cases r) (simp_all del: page_loaded.simps)
    done
qed

text \<open>The user presses \<open>Next\<close> until it is disabled, at most \<open>n\<close> pages: the jobs seen.\<close>
primrec browse :: "nat \<Rightarrow> fetch \<Rightarrow> string \<Rightarrow> queue_detail \<Rightarrow> (queue_detail \<times> json list) prog" where
  "browse 0 fetch name st = Ret (st, [])"
| "browse (Suc n) fetch name st = await (fetch_page fetch name st) (\<lambda>st1.
     if next_enabled st1
     then await (browse n fetch name (press_next st1)) (\<lambda>(st2, js). Ret (st2, qd_jobs st1 @ js))
     else Ret (st1, qd_jobs st1))"

definition distinct_times :: "store \<Rightarrow> string \<Rightarrow> job_status option \<Rightarrow> bool" where
  "distinct_times v q f \<longleftrightarrow> (\<forall>i j w x. s_rows v i = Some w \<longrightarrow> s_rows v j = Some x \<longrightarrow>
     i \<in> rows_matching v q f \<longrightarrow> j \<in> rows_matching v q f \<longrightarrow> r_created_at w = r_created_at x \<longrightarrow> i = j)"

text \<open>The listing is then determined by the table.\<close>
lemma newest_first_unique:
  assumes "distinct_times v q f" and "newest_first v q f all" and "newest_first v q f all'"
  shows "all = all'"
proof -
  let ?t = "\<lambda>x. r_created_at (snd x)" and ?X = "{(i, w). s_rows v i = Some w \<and> r_queue_name w = q \<and> (f = None \<or> f = Some (r_status w))}"
  have inj: "inj_on ?t ?X"
  proof (rule inj_onI)
    fix x y assume xy: "x \<in> ?X" "y \<in> ?X" "?t x = ?t y"
    then have "fst x \<in> rows_matching v q f" "fst y \<in> rows_matching v q f"
      by (auto simp: rows_matching_def split: option.splits)
    moreover have rows: "s_rows v (fst x) = Some (snd x)" "s_rows v (fst y) = Some (snd y)" using xy by auto
    ultimately have "fst x = fst y" using xy(3) assms(1) unfolding distinct_times_def by blast
    with rows show "x = y" by (simp add: prod_eq_iff)
  qed
  have "set all = ?X" "set all' = ?X" and d: "distinct all" "distinct all'"
    and s: "sorted (map ?t (rev all))" "sorted (map ?t (rev all'))"
    using assms(2,3) by (simp_all add: newest_first_def rev_map distinct_map)
  with inj have "rev all = rev all'"
    by (intro map_sorted_distinct_set_unique [of ?t]) (simp_all add: distinct_map)
  then show ?thesis by simp
qed

lemma distinct_times_cong: "s_rows u = s_rows v \<Longrightarrow> distinct_times u q f \<longleftrightarrow> distinct_times v q f"
  by (simp add: distinct_times_def rows_matching_def)

lemma vwp_browse:
  assumes "rd_redis deps" and "\<not> truthy (env ''JWT_SECRET'')" and "plain_name q"
    and "whole_pages st" and "qd_status st \<in> set STATUSES"
    and "newest_first v q (status_of_page st) all" and "distinct_times v q (status_of_page st)"
    and "0 < n" and "length all \<le> nat (qd_offset st) + 20 * n"
  shows "vwp any_state (browse n (network deps env) q st)
     (\<lambda>r u. job_data u = job_data v \<and> (\<forall>st' js. r = Inr (st', js) \<longrightarrow>
        js = map row_json (drop (nat (qd_offset st)) all) \<and> \<not> next_enabled st')) v"
  using assms(4-)
proof (induction n arbitrary: st v)
  case (Suc n)
  let ?k = "nat (qd_offset st)"
  have step: "vwp any_state
        (if next_enabled st1
         then await (browse n (network deps env) q (press_next st1)) (\<lambda>(st2, js). Ret (st2, qd_jobs st1 @ js))
         else Ret (st1, qd_jobs st1))
        (\<lambda>r u. job_data u = job_data v \<and> (\<forall>st' js. r = Inr (st', js) \<longrightarrow>
           js = map row_json (drop ?k all) \<and> \<not> next_enabled st')) u"
    if u: "job_data u = job_data v"
      and st1: "st1 = st\<lparr>qd_jobs := map row_json (take 20 (drop ?k all)), qd_total := int (length all)\<rparr>" for st1 u
  proof (cases "next_enabled st1")
    case True
    have k: "?k + 20 < length all"
      using True Suc.prems(1) next_enabled_iff [of st1] by (simp add: st1 whole_pages_def) arith
    have rows: "s_rows u = s_rows v" using u by (rule job_data_rows)
    have "vwp any_state (browse n (network deps env) q (press_next st1))
       (\<lambda>r w. job_data w = job_data u \<and> (\<forall>st' js. r = Inr (st', js) \<longrightarrow>
          js = map row_json (drop (nat (qd_offset (press_next st1))) all) \<and> \<not> next_enabled st')) u"
    proof (rule Suc.IH)
      have same: "status_of_page (press_next st1) = status_of_page st"
        by (simp add: st1 press_next_def status_of_page_def del: status_of_str.simps)
      show "whole_pages (press_next st1)" "qd_status (press_next st1) \<in> set STATUSES"
        using Suc.prems(1,2) by (simp_all add: st1 press_next_def whole_pages_def PAGE_SIZE_def)
      show "newest_first u q (status_of_page (press_next st1)) all" "distinct_times u q (status_of_page (press_next st1))"
        unfolding same newest_first_cong [OF rows] distinct_times_cong [OF rows] by (rule Suc.prems)+
      show "0 < n" using k Suc.prems(6) by (cases n) simp_all
      show "length all \<le> nat (qd_offset (press_next st1)) + 20 * n"
        using Suc.prems(1,6) by (simp add: st1 press_next_def PAGE_SIZE_def whole_pages_def nat_add_distrib)
    qed
    moreover have "map row_json (drop ?k all) = qd_jobs st1 @ map row_json (drop (nat (qd_offset (press_next st1))) all)"
      using Suc.prems(1) append_take_drop_id [of 20 "drop ?k all"]
      by (simp add: st1 press_next_def PAGE_SIZE_def whole_pages_def nat_add_distrib add.commute flip: map_append)
    ultimately show ?thesis using True u
      apply simp
      apply (erule vwp_mono)
       apply simp
      subgoal for r w by (cases r) auto
      done
  next
    case False
    then have "length all \<le> ?k + 20" using Suc.prems(1) by (simp add: next_enabled_iff st1 whole_pages_def)
    with False u show ?thesis by (simp add: st1)
  qed
  show ?case
    unfolding browse.simps vwp_await
    apply (rule vwp_mono [OF vwp_fetch_page [where env = env and v = v, OF assms(1-3) Suc.prems(1,2)]])
     apply simp
    subgoal for r u
    proof (cases r)
      case (Inr st1)
      assume r: "job_data u = job_data v \<and> (\<forall>st'. r = Inr st' \<longrightarrow> (\<exists>all. newest_first v q (status_of_page st) all \<and>
          st' = st\<lparr>qd_jobs := map row_json (take 20 (drop ?k all)), qd_total := int (length all)\<rparr>))"
      with Inr newest_first_unique [OF Suc.prems(4,3)] have
        "st1 = st\<lparr>qd_jobs := map row_json (take 20 (drop ?k all)), qd_total := int (length all)\<rparr>" by blast
      with r Inr show ?thesis using step [of u st1] by (simp only: post_simps)
    qed simp
    done
qed simp

text \<open>C29: Where no rows of a queue were created at the same time and the table does not change meanwhile,
  a user who opens the page of the queue under a status and presses \<open>Next\<close> until the button is
  disabled has been shown every job of that status exactly once, newest first.\<close>
theorem pages_show_every_job:
  assumes "backend exec view" and "rd_redis deps" and "\<not> truthy (env ''JWT_SECRET'')" and "plain_name q"
    and "c \<in> set STATUSES" and "distinct_times (view s) q (status_of_page (select_status c st))"
    and "n = Suc (card (rows_matching (view s) q (status_of_page (select_status c st))))"
    and "run exec (browse n (network deps env) q (select_status c st)) s = (Inr (st', js), s')"
  shows "\<exists>all. newest_first (view s) q (status_of_page (select_status c st)) all \<and>
     js = map row_json all \<and> \<not> next_enabled st'"
proof -
  let ?st = "select_status c st"
  have st: "whole_pages ?st" "qd_status ?st \<in> set STATUSES" "qd_offset ?st = 0"
    using assms(5) by (simp_all add: select_status_def whole_pages_def)
  show ?thesis
  proof (cases "\<exists>all. newest_first (view s) q (status_of_page ?st) all")
    case True
    then obtain all where all: "newest_first (view s) q (status_of_page ?st) all" ..
    have "length all \<le> nat (qd_offset ?st) + 20 * n" using newest_first_count [OF all] assms(7) by simp
    from vwp_browse [where n = n and env = env, OF assms(2-4) st(1,2) all assms(6)] this assms(7)
    have "vwp any_state (browse n (network deps env) q ?st) (\<lambda>r u. job_data u = job_data (view s) \<and>
        (\<forall>st' js. r = Inr (st', js) \<longrightarrow> js = map row_json (drop (nat (qd_offset ?st)) all) \<and> \<not> next_enabled st')) (view s)"
      by simp
    from backend.run_post [OF assms(1,8) this] all st(3) show ?thesis by auto
  next
    case False
    have "vwp any_state (browse n (network deps env) q ?st) (\<lambda>r u. \<forall>x. r \<noteq> Inr x) (view s)"
      unfolding assms(7) browse.simps vwp_await
      by (rule vwp_mono [OF vwp_fetch_page [where env = env and v = "view s", OF assms(2-4) st(1,2)]])
        (use False in \<open>auto simp: then_post_def split: sum.splits\<close>)
    from backend.run_post [OF assms(1,8) this] show ?thesis by simp
  qed
qed

subsection \<open>An example\<close>

lemma page_call_here:
  "network no_deps Map.empty (jobs_call ''q'' opts) =
     await (await now (\<lambda>_. Ret Next)) (case_middleware_result (get_queue_jobs ''q'' (arriving_request (jobs_call ''q'' opts))) Ret)"
  by (subst network_route [where e = QueueJobsE and ps = "[(''name'', ''q'')]" and g = Jwt])
    (simp_all add: no_deps_def call_routes run_guard_def jwtMiddleware_def handler_def)

lemma js_20: "js_String (Num 20) = ''20''" "js_Number ''20'' = Num 20" "js_String (Num 0) = ''0''"
proof -
  have "int_str 20 = ''20''" "int_str 0 = ''0''" by code_simp+
  then show "js_String (Num 20) = ''20''" "js_Number ''20'' = Num 20" "js_String (Num 0) = ''0''"
    using js_Number_int_str [of 20] by simp_all
qed

lemmas page_eval = run_eval fetch_page_def getQueueJobs_def api_fetch_def page_call_here get_queue_jobs_def or_next_def
  jobs_query page_params_def page_limit_def page_offset_def number_or_def js_20 page_query_def page_defs mem_dead_def as_integer_def
  validStatuses_def

lemma browse_example:
  "\<exists>st' m. run (mem_exec no_faults) (browse 2 (network no_deps Map.empty) ''q'' (select_status ''dlq'' fresh_page)) mem_dead =
    (Inr (st', [row_json (''j'', snd (hd (m_rows mem_dead)))]), m)"
  apply (simp add: numeral_2_eq_2 page_eval cong: run_congs)
  done

lemma dead_rows: "rows_matching (mem_view mem_dead) ''q'' (Some Dlq) = {''j''}"
  by (auto simp: rows_matching_def mem_dead_def mem_view_def mem_empty_def default_row_def split: if_splits)

theorem pages_show_every_job_witness:
  "\<exists>st' js m all. run (mem_exec no_faults) (browse 2 (network no_deps Map.empty) ''q'' (select_status ''dlq'' fresh_page)) mem_dead =
     (Inr (st', js), m) \<and> newest_first (mem_view mem_dead) ''q'' (Some Dlq) all \<and> js = map row_json all \<and> \<not> next_enabled st'"
proof -
  obtain st' js m where rm: "run (mem_exec no_faults) (browse 2 (network no_deps Map.empty) ''q'' (select_status ''dlq'' fresh_page)) mem_dead =
      (Inr (st', js), m)"
    using browse_example by blast
  have f: "status_of_page (select_status ''dlq'' fresh_page) = Some Dlq"
    by (simp add: status_of_page_def select_status_def)
  have "distinct_times (mem_view mem_dead) ''q'' (Some Dlq)"
    by (simp add: distinct_times_def dead_rows)
  with pages_show_every_job [OF mem_backend _ _ _ _ _ _ rm] rm show ?thesis
    by (auto simp: f dead_rows no_deps_def STATUSES_def)
qed

end
