(* ===== verification/Job_Views.thy ===== *)
theory Job_Views
  imports Queue_Page
begin

text \<open>
  \<^verbatim>\<open>dashboard/src/components/JobDetail.tsx\<close> and \<^verbatim>\<open>DlqInspector.tsx\<close>: one job with its retry button,
  and the dead letters of a queue.
\<close>

subsection \<open>One job\<close>

record job_detail =
  jd_job :: "json option"
  jd_error :: "string option"
  jd_retrying :: bool

text \<open>\<open>err instanceof Error ? err.message : d\<close>\<close>
definition message_or :: "string \<Rightarrow> err \<Rightarrow> string" where
  "message_or d e = (case e of JsError m \<Rightarrow> m | OtherThrown _ \<Rightarrow> d)"

text \<open>The effect of a new job id.\<close>
definition load_job :: "fetch \<Rightarrow> string \<Rightarrow> job_detail \<Rightarrow> job_detail prog" where
  "load_job fetch i st =
     try_catch (await (getJob_api fetch i) (\<lambda>j. Ret (st\<lparr>jd_error := None, jd_job := Some j\<rparr>)))
       (\<lambda>e. Ret (st\<lparr>jd_error := Some (err_message e)\<rparr>))"

definition retry_shown :: "fetch \<Rightarrow> string \<Rightarrow> job_detail \<Rightarrow> job_detail prog" where
  "retry_shown fetch i st =
     (let st1 = st\<lparr>jd_retrying := True\<rparr>
      in await (try_catch
            (await (retryJob fetch i) (\<lambda>_. await (getJob_api fetch i) (\<lambda>updated. Ret (st1\<lparr>jd_job := Some updated\<rparr>))))
            (\<lambda>e. Ret (st1\<lparr>jd_error := Some (message_or ''Retry failed'' e)\<rparr>)))
          (\<lambda>st2. Ret (st2\<lparr>jd_retrying := False\<rparr>)))"

definition canRetry :: "json \<Rightarrow> bool" where
  "canRetry job \<longleftrightarrow> member ''status'' job = Some (JStr ''failed'') \<or> member ''status'' job = Some (JStr ''dlq'')"

text \<open>What is rendered: an error, a placeholder, or the job and its retry button (whether it is there, and enabled).\<close>
datatype shown = ShownError string | ShownLoading | ShownJob json bool bool

definition shown_detail :: "job_detail \<Rightarrow> shown" where
  "shown_detail st =
     (if truthy (jd_error st) then ShownError (nullish (jd_error st) '''')
      else case jd_job st of None \<Rightarrow> ShownLoading
        | Some job \<Rightarrow> ShownJob job (canRetry job) (\<not> jd_retrying st))"

lemma canRetry_row: "canRetry (job_json (job_of_row i w)) \<longleftrightarrow> r_status w \<in> {Failed, Dlq}"
  by (cases "r_status w") (simp_all add: canRetry_def job_json_def job_of_row_def)

lemma vwp_getJob_api:
  assumes "plain_name i"
  shows "vwp any_state (getJob_api (network deps env) i)
     (\<lambda>r u. u = v \<and> (\<forall>j. r = Inr j \<longrightarrow> (\<exists>w. s_rows v i = Some w \<and> j = job_json (job_of_row i w)))) v"
proof -
  have "i \<noteq> []" using assms by simp
  show ?thesis
    unfolding getJob_api_def
    apply (rule vwp_api_fetch)
    apply (subst network_route [OF call_routes(3) [OF assms]])
    using \<open>i \<noteq> []\<close> by (auto simp: run_guard_def handler_def get_job_route_def or_next_def vwp_rules api_result_def
        error_handler_def split: option.splits)
qed

lemma vwp_retryJob:
  assumes "rd_redis deps" and "\<not> truthy (env ''JWT_SECRET'')" and "plain_name i"
  shows "vwp any_state (retryJob (network deps env) i)
     (\<lambda>r u. \<exists>t resp. retry_answer (v\<lparr>s_clock := t\<rparr>) i (Inr resp) u \<and> r = api_result ''Failed to retry job: '' resp) v"
proof -
  have route: "route_of (rd_redis deps) (retry_call i) = Some (Jwt, RetryE, [(''id'', i)])"
    using assms(1,3) by (simp add: call_routes)
  have is_resp: "\<exists>resp. r = Inr resp" if "retry_answer w i r u" for w r u
    using that unfolding retry_answer_def by blast
  show ?thesis
    unfolding retryJob_def
    apply (rule vwp_api_fetch)
    apply (simp add: network_route [OF route] run_guard_def vwp_rules jwtMiddleware_def assms(2) handler_def)
    apply (intro allI impI vwp_mono [OF vwp_retry_job])
     apply simp
    subgoal for t r u using is_resp [of "v\<lparr>s_clock := t\<rparr>" r u] by (cases r) auto
    done
qed

text \<open>What a retry through the page does to the data.\<close>
lemma retry_result:
  assumes "retry_answer (v\<lparr>s_clock := t\<rparr>) i (Inr resp) u" and "s_rows v i = Some w"
  shows "if r_status w \<in> {Failed, Dlq}
    then api_result msg resp \<noteq> Inl (JsError (msg @ ''400'')) \<and>
      (\<forall>d. api_result msg resp = Inr d \<longrightarrow> job_data u = job_data (spec_requeued (r_queue_name w) 0 i v))
    else (\<exists>e. api_result msg resp = Inl e) \<and> job_data u = job_data v"
proof (cases resp)
  case (Reply c b)
  have "int_str 500 = ''500''" by code_simp
  with assms Reply show ?thesis
    by (auto simp: retry_answer_def api_result_def job_data_requeued Let_def split: if_splits)
qed

text \<open>C30: The retry button is offered for exactly the jobs the server takes for a retry: pressed on a job
  that was shown without a button the request fails and changes nothing, and on one that was shown
  with it the answer is never \<open>job_not_retriable\<close>, and success means the job was reset and moved to
  the list of its priority.\<close>
theorem canRetry_agrees:
  assumes "backend exec view" and "rd_redis deps" and "\<not> truthy (env ''JWT_SECRET'')" and "plain_name i"
    and "run exec (getJob_api (network deps env) i) s = (Inr job, s1)"
    and "run exec (retryJob (network deps env) i) s1 = (r, s2)"
  shows "\<exists>w. s_rows (view s) i = Some w \<and> job = job_json (job_of_row i w) \<and>
    (if canRetry job
     then r \<noteq> Inl (JsError ''Failed to retry job: 400'') \<and>
       (\<forall>d. r = Inr d \<longrightarrow> job_data (view s2) = job_data (spec_requeued (r_queue_name w) 0 i (view s)))
     else (\<exists>e. r = Inl e) \<and> job_data (view s2) = job_data (view s))"
proof -
  from backend.run_post [OF assms(1,5) vwp_getJob_api [OF assms(4)]]
  obtain w where v: "view s1 = view s" and w: "s_rows (view s) i = Some w" and job: "job = job_json (job_of_row i w)" by auto
  from backend.run_post [OF assms(1,6) vwp_retryJob [where env = env, OF assms(2-4)]] v
  obtain t resp where "retry_answer ((view s)\<lparr>s_clock := t\<rparr>) i (Inr resp) (view s2)"
    and r: "r = api_result ''Failed to retry job: '' resp" by auto
  from retry_result [OF this(1) w, of "''Failed to retry job: ''"] w job r show ?thesis
    by (auto simp: canRetry_row split: if_splits)
qed

text \<open>When the retry of a shown job goes through, the page shows the job as the table has it then, pending and
  without the button; in any case the button is enabled again.\<close>
theorem retry_shown_pending:
  assumes "backend exec view" and "rd_redis deps" and "\<not> truthy (env ''JWT_SECRET'')" and "plain_name i"
    and "jd_error st = None" and "run exec (retry_shown (network deps env) i st) s = (r, s')"
  shows "\<exists>st'. r = Inr st' \<and> \<not> jd_retrying st' \<and>
    (jd_error st' = None \<longrightarrow> (\<exists>w. s_rows (view s') i = Some w \<and> r_status w = Pending \<and>
       shown_detail st' = ShownJob (job_json (job_of_row i w)) False True))"
proof -
  have pending: "vwp any_state (await (getJob_api (network deps env) i) (\<lambda>updated. Ret (st\<lparr>jd_retrying := True, jd_job := Some updated\<rparr>)))
      (\<lambda>r u. \<forall>x. r = Inr x \<longrightarrow> (\<exists>w. s_rows u i = Some w \<and> r_status w = Pending \<and>
        x = st\<lparr>jd_retrying := True, jd_job := Some (job_json (job_of_row i w))\<rparr>)) u"
    if "s_rows u i = Some w" "r_status w = Pending" for u w
    unfolding vwp_await
    by (rule vwp_mono [OF vwp_getJob_api [OF assms(4)]])
      (use that in \<open>auto simp: then_post_def split: sum.splits\<close>)
  have row: "\<exists>w. s_rows u i = Some w \<and> r_status w = Pending"
    if "retry_answer (v\<lparr>s_clock := t\<rparr>) i (Inr resp) u" "api_result msg resp = Inr d" for v t resp u msg d
  proof (cases "s_rows v i")
    case None
    with that show ?thesis by (cases resp) (auto simp: retry_answer_def api_result_def split: if_splits)
  next
    case (Some w)
    from retry_result [OF that(1) Some, of msg] that(2)
    have "job_data u = job_data (spec_requeued (r_queue_name w) 0 i v)" by (auto split: if_splits)
    from job_data_rows [OF this] Some show ?thesis
      by (simp add: spec_requeued_def move_from_dlq_def reset_hash_def upd_row_def row_waiting_def Let_def)
  qed
  have "vwp any_state (await (retryJob (network deps env) i)
        (\<lambda>_. await (getJob_api (network deps env) i) (\<lambda>updated. Ret (st\<lparr>jd_retrying := True, jd_job := Some updated\<rparr>))))
      (\<lambda>r u. \<forall>x. r = Inr x \<longrightarrow> (\<exists>w. s_rows u i = Some w \<and> r_status w = Pending \<and>
        x = st\<lparr>jd_retrying := True, jd_job := Some (job_json (job_of_row i w))\<rparr>)) (view s)"
    unfolding vwp_await [of _ "retryJob (network deps env) i"]
    apply (rule vwp_mono [OF vwp_retryJob [where env = env, OF assms(2-4)]])
     apply simp
    subgoal for r u
    proof (cases r)
      case (Inr d)
      assume "\<exists>t resp. retry_answer ((view s)\<lparr>s_clock := t\<rparr>) i (Inr resp) u \<and> r = api_result ''Failed to retry job: '' resp"
      with Inr row obtain w where "s_rows u i = Some w" "r_status w = Pending" by metis
      with Inr pending show ?thesis by (simp only: post_simps)
    qed simp
    done
  then have "vwp any_state (retry_shown (network deps env) i st)
      (\<lambda>r u. \<exists>st'. r = Inr st' \<and> \<not> jd_retrying st' \<and> (jd_error st' = None \<longrightarrow> (\<exists>w. s_rows u i = Some w \<and> r_status w = Pending \<and>
       shown_detail st' = ShownJob (job_json (job_of_row i w)) False True))) (view s)"
    unfolding retry_shown_def Let_def vwp_await [of _ "try_catch _ _"] vwp_try_catch
    by (elim vwp_mono)
      (auto simp: catch_post_def shown_detail_def canRetry_row assms(5) split: sum.splits)
  from backend.run_post [OF assms(1,6) this] show ?thesis .
qed


subsection \<open>The dead letters of a queue\<close>

record dlq_view =
  dv_jobs :: "json list"
  dv_loading :: bool
  dv_error :: "string option"

definition fetchJobs :: "fetch \<Rightarrow> string \<Rightarrow> dlq_view \<Rightarrow> dlq_view prog" where
  "fetchJobs fetch queueName st =
     await (try_catch
         (await (getDlqJobs fetch queueName) (\<lambda>d.
            Ret (st\<lparr>dv_jobs := (case member ''jobs'' d of Some (JArr js) \<Rightarrow> js | _ \<Rightarrow> []), dv_error := None\<rparr>)))
         (\<lambda>e. Ret (st\<lparr>dv_error := Some (message_or ''Failed to load DLQ'' e)\<rparr>)))
       (\<lambda>st1. Ret (st1\<lparr>dv_loading := False\<rparr>))"

definition handleRequeueAll :: "fetch \<Rightarrow> string \<Rightarrow> dlq_view \<Rightarrow> dlq_view prog" where
  "handleRequeueAll fetch queueName st =
     try_catch (await (requeueDlq fetch queueName None) (\<lambda>_. fetchJobs fetch queueName st))
       (\<lambda>e. Ret (st\<lparr>dv_error := Some (message_or ''Requeue failed'' e)\<rparr>))"

definition handleRetry :: "fetch \<Rightarrow> string \<Rightarrow> string \<Rightarrow> dlq_view \<Rightarrow> dlq_view prog" where
  "handleRetry fetch queueName i st =
     try_catch (await (retryJob fetch i) (\<lambda>_. fetchJobs fetch queueName st))
       (\<lambda>e. Ret (st\<lparr>dv_error := Some (message_or ''Retry failed'' e)\<rparr>))"

lemma vwp_any [simp]: "vwp any_state p (\<lambda>_ _. True) v"
  by (induction p arbitrary: v) simp_all

text \<open>The view agrees with the store: no error is shown, and the first fifty entries of the list are.\<close>
definition shows_dead_letters :: "string \<Rightarrow> store \<Rightarrow> dlq_view \<Rightarrow> bool" where
  "shows_dead_letters q v st \<longleftrightarrow> \<not> dv_loading st \<and>
     list_all2 (\<lambda>i j. \<exists>p. dlq_payload (s_hashes v (job_key i)) = Some p \<and> j = dlq_entry_json q i (s_hashes v (job_key i)) p)
       (take 50 (s_lists v (dlq_key q))) (dv_jobs st)"

lemma dlq_request: "page_limit (arriving_request (dlq_call q)) = Num 50" "page_offset (arriving_request (dlq_call q)) = Num 0"
proof -
  have "CHR ''?'' \<notin> set (''/queues/'' @ encodeURIComponent q @ ''/dlq'')" using encoded_no_separator(2) [of q] by simp
  then have "rq_query (arriving_request (dlq_call q)) = Map.empty"
    by (simp add: arriving_request_def dlq_call_def get_call_def url_split(2) parse_query_def)
  then show "page_limit (arriving_request (dlq_call q)) = Num 50" "page_offset (arriving_request (dlq_call q)) = Num 0"
    by (simp_all add: page_limit_def page_offset_def number_or_def)
qed

lemma vwp_fetchJobs:
  assumes "rd_redis deps" and "\<not> truthy (env ''JWT_SECRET'')" and "plain_name q"
  shows "vwp any_state (fetchJobs (network deps env) q st)
    (\<lambda>r u. \<exists>st'. r = Inr st' \<and> (dv_error st' = None \<longrightarrow> shows_dead_letters q u st')) v"
proof -
  let ?req = "arriving_request (dlq_call q)"
  have route: "route_of (rd_redis deps) (dlq_call q) = Some (Jwt, DlqE, [(''name'', q)])"
    using assms(1,3) by (simp add: call_routes)
  have get: "vwp any_state (getDlqJobs (network deps env) q)
      (\<lambda>r u. \<forall>d. r = Inr d \<longrightarrow> (\<exists>js n. d = JObj [(''jobs'', JArr js), (''total'', n)] \<and>
         shows_dead_letters q u \<lparr>dv_jobs = js, dv_loading = False, dv_error = None\<rparr>)) v"
    unfolding getDlqJobs_def
    apply (rule vwp_api_fetch)
    apply (simp add: network_route [OF route] run_guard_def vwp_rules jwtMiddleware_def assms(2) handler_def)
    apply (intro allI impI vwp_mono [OF vwp_get_dlq])
     apply simp
    subgoal for t r u
      by (auto simp: dlq_answer_def dlq_request api_result_def shows_dead_letters_def split: response.splits if_splits)
    done
  show ?thesis
    unfolding fetchJobs_def vwp_await vwp_try_catch
    by (rule vwp_mono [OF get]) (auto simp: then_post_def catch_post_def shows_dead_letters_def split: sum.splits)
qed

text \<open>Whenever the inspector shows no error after it has loaded, requeued all or retried one, it shows
  the first fifty entries of the dead letter list as the store holds them.\<close>
theorem inspector_truthful:
  assumes "backend exec view" and "rd_redis deps" and "\<not> truthy (env ''JWT_SECRET'')" and "plain_name q"
    and "p \<in> {fetchJobs (network deps env) q st, handleRequeueAll (network deps env) q st, handleRetry (network deps env) q i st}"
    and "run exec p s = (r, s')"
  shows "\<exists>st'. r = Inr st' \<and> (dv_error st' = None \<longrightarrow> shows_dead_letters q (view s') st')"
proof -
  note fetch = vwp_fetchJobs [where env = env, OF assms(2-4)]
  have after: "vwp any_state (try_catch (await p' (\<lambda>_. fetchJobs (network deps env) q st)) (\<lambda>e. Ret (st\<lparr>dv_error := Some (f e)\<rparr>)))
      (\<lambda>r u. \<exists>st'. r = Inr st' \<and> (dv_error st' = None \<longrightarrow> shows_dead_letters q u st')) v" for p' :: "json prog" and f v
    unfolding vwp_await vwp_try_catch
    apply (rule vwp_mono [OF vwp_any])
     apply simp
    subgoal for r u
      by (cases r) (auto simp: catch_post_def split: sum.splits intro!: vwp_mono [OF fetch])
    done
  have "vwp any_state p (\<lambda>r u. \<exists>st'. r = Inr st' \<and> (dv_error st' = None \<longrightarrow> shows_dead_letters q u st')) (view s)"
    using assms(5) fetch after unfolding handleRequeueAll_def handleRetry_def by auto
  from backend.run_post [OF assms(1,6) this] show ?thesis .
qed

subsection \<open>Examples\<close>

lemma dead_job_shown:
  "\<exists>m. run (mem_exec no_faults) (getJob_api (network no_deps Map.empty) ''j'') mem_dead =
     (Inr (job_json (job_of_row ''j'' (snd (hd (m_rows mem_dead))))), m)"
proof -
  have "network no_deps Map.empty (job_call ''j'') = await (Ret Next) (case_middleware_result (get_job_route ''j'') Ret)"
    by (subst network_route [where e = GetJobE and ps = "[(''id'', ''j'')]" and g = Open])
      (simp_all add: no_deps_def call_routes run_guard_def handler_def)
  then show ?thesis
    by (simp add: run_eval getJob_api_def api_fetch_def get_job_route_def or_next_def getJob_def mem_dead_def cong: run_congs)
qed

theorem canRetry_agrees_witness:
  "\<exists>m r m2. run (mem_exec no_faults) (retryJob (network no_deps Map.empty) ''j'') m = (r, m2) \<and> r \<noteq> Inl (JsError ''Failed to retry job: 400'')"
proof -
  obtain m where m: "run (mem_exec no_faults) (getJob_api (network no_deps Map.empty) ''j'') mem_dead =
     (Inr (job_json (job_of_row ''j'' (snd (hd (m_rows mem_dead))))), m)" using dead_job_shown by blast
  obtain r m2 where r: "run (mem_exec no_faults) (retryJob (network no_deps Map.empty) ''j'') m = (r, m2)" by fastforce
  have "canRetry (job_json (job_of_row ''j'' (snd (hd (m_rows mem_dead)))))" "rd_redis no_deps"
    by (simp_all add: canRetry_row mem_dead_def default_row_def no_deps_def)
  with canRetry_agrees [where env = Map.empty, OF mem_backend this(2) _ _ m r] r show ?thesis by auto
qed

theorem retry_shown_pending_witness:
  "\<exists>r m st'. run (mem_exec no_faults) (retry_shown (network no_deps Map.empty) ''j'' \<lparr>jd_job = None, jd_error = None, jd_retrying = False\<rparr>) mem_dead = (r, m) \<and>
     r = Inr st' \<and> \<not> jd_retrying st'"
proof -
  let ?st = "\<lparr>jd_job = None, jd_error = None, jd_retrying = False\<rparr>"
  obtain r m where rm: "run (mem_exec no_faults) (retry_shown (network no_deps Map.empty) ''j'' ?st) mem_dead = (r, m)" by fastforce
  have "rd_redis no_deps" by (simp add: no_deps_def)
  from retry_shown_pending [where env = Map.empty, OF mem_backend this _ _ _ rm] rm show ?thesis by auto
qed

theorem inspector_truthful_witness:
  "\<exists>r m st'. run (mem_exec no_faults) (handleRequeueAll (network no_deps Map.empty) ''q'' \<lparr>dv_jobs = [], dv_loading = True, dv_error = None\<rparr>) mem_dead = (r, m) \<and>
     r = Inr st' \<and> (dv_error st' = None \<longrightarrow> shows_dead_letters ''q'' (mem_view m) st')"
proof -
  let ?st = "\<lparr>dv_jobs = [], dv_loading = True, dv_error = None\<rparr>"
  obtain r m where rm: "run (mem_exec no_faults) (handleRequeueAll (network no_deps Map.empty) ''q'' ?st) mem_dead = (r, m)" by fastforce
  have "rd_redis no_deps" by (simp add: no_deps_def)
  from inspector_truthful [where env = Map.empty and q = "''q''" and st = ?st and i = "''j''", OF mem_backend this _ _ _ rm] rm
  show ?thesis by simp
qed

end
