(* ===== verification/Live_Views.thy ===== *)
theory Live_Views
  imports Ws_Client Json_Roundtrip Producer Http
begin

text \<open>
  From a published event to what the dashboard shows: the bus of \<^verbatim>\<open>server/src/websocket.ts\<close>, which
  hands every message of the Redis channel to the open sockets, and the two components that
  listen, \<^verbatim>\<open>dashboard/src/components/JobTable.tsx\<close> and \<^verbatim>\<open>ThroughputChart.tsx\<close>; and the age that
  \<^verbatim>\<open>WorkersPanel.tsx\<close> shows.
\<close>

subsection \<open>The event bus of the server\<close>

text \<open>The clients of the WebSocket server with whether each is \<open>OPEN\<close>, and what was sent to whom.\<close>
record event_bus =
  eb_subscribed :: bool
  eb_awaits_ready :: bool
  eb_clients :: "(nat \<times> bool) list"
  eb_sent :: "(nat \<times> string) list"

text \<open>The constructor subscribes at once where the subscriber is ready, else once it is.\<close>
definition new_bus :: "bool \<Rightarrow> event_bus" where
  "new_bus ready = \<lparr>eb_subscribed = ready, eb_awaits_ready = \<not> ready, eb_clients = [], eb_sent = []\<rparr>"

definition bus_ready :: "event_bus \<Rightarrow> event_bus" where
  "bus_ready b = (if eb_awaits_ready b then b\<lparr>eb_subscribed := True, eb_awaits_ready := False\<rparr> else b)"

fun broadcast :: "string \<Rightarrow> (nat \<times> bool) list \<Rightarrow> (nat \<times> string) list" where
  "broadcast message [] = []"
| "broadcast message ((client, is_open) # cs) =
     (if is_open then (client, message) # broadcast message cs else broadcast message cs)"

text \<open>Redis delivers a message to the subscribers of its channel.\<close>
definition bus_message :: "string \<Rightarrow> string \<Rightarrow> event_bus \<Rightarrow> event_bus" where
  "bus_message channel message b =
     (if eb_subscribed b \<and> channel = events_channel
      then b\<lparr>eb_sent := eb_sent b @ broadcast message (eb_clients b)\<rparr> else b)"

lemma set_broadcast: "(c, m) \<in> set (broadcast message cs) \<longleftrightarrow> m = message \<and> (c, True) \<in> set cs"
  by (induction message cs rule: broadcast.induct) auto

subsection \<open>The table of events\<close>

text \<open>\<open>[...new Set(xs)]\<close>: the first occurrences.\<close>
definition uniq :: "'a list \<Rightarrow> 'a list" where
  "uniq xs = rev (remdups (rev xs))"

lemma set_uniq [simp]: "set (uniq xs) = set xs" and distinct_uniq [simp]: "distinct (uniq xs)"
  by (simp_all add: uniq_def)

record job_table =
  jt_events :: "json list"
  jt_filterQueue :: string
  jt_filterStatus :: string

definition fresh_table :: job_table where
  "fresh_table = \<lparr>jt_events = [], jt_filterQueue = '''', jt_filterStatus = ''''\<rparr>"

definition table_receive :: "json \<Rightarrow> job_table \<Rightarrow> job_table" where
  "table_receive event t = t\<lparr>jt_events := take 100 (event # jt_events t)\<rparr>"

definition table_queues :: "job_table \<Rightarrow> json option list" where
  "table_queues t = uniq (map (member ''queueName'') (jt_events t))"

definition table_statuses :: "job_table \<Rightarrow> json option list" where
  "table_statuses t = uniq (map (member ''type'') (jt_events t))"

definition table_filtered :: "job_table \<Rightarrow> json list" where
  "table_filtered t = filter (\<lambda>e.
     if jt_filterQueue t \<noteq> [] \<and> member ''queueName'' e \<noteq> Some (JStr (jt_filterQueue t)) then False
     else if jt_filterStatus t \<noteq> [] \<and> member ''type'' e \<noteq> Some (JStr (jt_filterStatus t)) then False
     else True) (jt_events t)"

lemma table_events: "jt_events (fold table_receive es fresh_table) = take 100 (rev es)"
proof (induction es rule: rev_induct)
  case (snoc e es)
  then show ?case by (simp add: table_receive_def take_Cons' take_take [symmetric] del: take_take) (simp add: min_def)
qed (simp add: fresh_table_def)

text \<open>Filters as the two selection boxes set them.\<close>
definition with_filters :: "string \<Rightarrow> string \<Rightarrow> job_table \<Rightarrow> job_table" where
  "with_filters q s t = t\<lparr>jt_filterQueue := q, jt_filterStatus := s\<rparr>"

definition passes :: "string \<Rightarrow> string \<Rightarrow> json \<Rightarrow> bool" where
  "passes q s e \<longleftrightarrow> (q = [] \<or> member ''queueName'' e = Some (JStr q)) \<and> (s = [] \<or> member ''type'' e = Some (JStr s))"

lemma table_filtered_passes: "table_filtered t = filter (passes (jt_filterQueue t) (jt_filterStatus t)) (jt_events t)"
  unfolding table_filtered_def by (rule filter_cong) (auto simp: passes_def)

text \<open>The live table holds the last hundred events, newest first, under any filters exactly those that
  match them in that order, and a queue or status picked alone from its selection box always shows
  at least one event.\<close>
theorem job_table_correct:
  fixes es
  defines "t \<equiv> fold table_receive es fresh_table"
  shows "table_filtered (with_filters q s t) = filter (passes q s) (take 100 (rev es)) \<and>
    (\<forall>q. q \<noteq> [] \<longrightarrow> Some (JStr q) \<in> set (table_queues t) \<longrightarrow> table_filtered (with_filters q [] t) \<noteq> []) \<and>
    (\<forall>s. s \<noteq> [] \<longrightarrow> Some (JStr s) \<in> set (table_statuses t) \<longrightarrow> table_filtered (with_filters [] s t) \<noteq> [])"
  by (auto simp: t_def with_filters_def table_filtered_passes table_events table_queues_def table_statuses_def
      filter_empty_conv passes_def)

subsection \<open>The throughput chart\<close>

datatype chart_event = Received json | Second string

record chart =
  ch_data :: "(string \<times> int) list"
  ch_counter :: int

definition fresh_chart :: chart where
  "fresh_chart = \<lparr>ch_data = [], ch_counter = 0\<rparr>"

definition is_completed :: "json \<Rightarrow> bool" where
  "is_completed e \<longleftrightarrow> member ''type'' e = Some (JStr ''job.completed'')"

text \<open>\<open>xs.slice(-n)\<close>\<close>
definition last_n :: "nat \<Rightarrow> 'a list \<Rightarrow> 'a list" where
  "last_n n xs = drop (length xs - n) xs"

fun chart_step :: "chart_event \<Rightarrow> chart \<Rightarrow> chart" where
  "chart_step (Received e) c = (if is_completed e then c\<lparr>ch_counter := ch_counter c + 1\<rparr> else c)"
| "chart_step (Second time) c =
     c\<lparr>ch_data := last_n 300 (ch_data c @ [(time, ch_counter c)]), ch_counter := 0\<rparr>"

text \<open>The reference: a point for every second, with the completions since the one before.\<close>
fun points :: "int \<Rightarrow> chart_event list \<Rightarrow> (string \<times> int) list" where
  "points n [] = []"
| "points n (Received e # es) = points (if is_completed e then n + 1 else n) es"
| "points n (Second time # es) = (time, n) # points 0 es"

fun completions :: "chart_event list \<Rightarrow> nat" where
  "completions [] = 0"
| "completions (Received e # es) = (if is_completed e then 1 else 0) + completions es"
| "completions (Second time # es) = completions es"

lemma last_n_last_n: "last_n n (last_n n xs @ [y]) = last_n n (xs @ [y])"
  by (cases "length xs \<le> n") (auto simp: last_n_def Suc_diff_le)

lemma last_n_append: "last_n n (last_n n xs @ ys) = last_n n (xs @ ys)"
proof (induction ys rule: rev_induct)
  case Nil
  show ?case by (cases "length xs \<le> n") (auto simp: last_n_def)
next
  case (snoc y ys)
  have "last_n n (last_n n xs @ ys @ [y]) = last_n n (last_n n (last_n n xs @ ys) @ [y])"
    by (simp add: last_n_last_n)
  then show ?case using snoc by (simp add: last_n_last_n)
qed

lemma chart_data:
  "length (ch_data c) \<le> 300 \<Longrightarrow> ch_data (fold chart_step es c) = last_n 300 (ch_data c @ points (ch_counter c) es)"
proof (induction es arbitrary: c)
  case Nil
  then show ?case by (simp add: last_n_def)
next
  case (Cons e es)
  show ?case
  proof (cases e)
    case (Second t)
    have "length (last_n 300 (ch_data c @ [(t, ch_counter c)])) \<le> 300" by (simp add: last_n_def)
    with Cons.IH [of "chart_step e c"] show ?thesis
      using last_n_append [of 300 "ch_data c @ [(t, ch_counter c)]" "points 0 es"] by (simp add: Second)
  qed (use Cons in auto)
qed

lemma points_completions: "sum_list (map snd (points n es)) + ch_counter (fold chart_step es \<lparr>ch_data = d, ch_counter = n\<rparr>) = n + int (completions es)"
  by (induction es arbitrary: n d rule: completions.induct) auto

text \<open>The chart shows, for each of the last three hundred seconds, the number of jobs completed since the
  second before: no completion is dropped or counted twice, and up to three hundred seconds the
  points together with the running count are all completions.\<close>
theorem chart_correct:
  fixes es
  defines "c \<equiv> fold chart_step es fresh_chart"
  shows "ch_data c = last_n 300 (points 0 es) \<and>
    sum_list (map snd (points 0 es)) + ch_counter c = int (completions es) \<and>
    (length (points 0 es) \<le> 300 \<longrightarrow> sum_list (map snd (ch_data c)) + ch_counter c = int (completions es))"
  using chart_data [of fresh_chart es] points_completions [of 0 es "[]"]
  by (auto simp: c_def fresh_chart_def last_n_def)

theorem chart_correct_witness:
  "let c = fold chart_step [Received (JObj [(''type'', JStr ''job.completed'')]), Second ''12:00:01'', Second ''12:00:02''] fresh_chart
   in ch_data c = [(''12:00:01'', 1), (''12:00:02'', 0)] \<and> sum_list (map snd (ch_data c)) + ch_counter c = 1"
  using chart_correct [of "[Received (JObj [(''type'', JStr ''job.completed'')]), Second ''12:00:01'', Second ''12:00:02'']"]
  by (simp add: is_completed_def last_n_def Let_def)

theorem job_table_correct_witness:
  "table_filtered (with_filters ''q'' [] (fold table_receive [JObj [(''queueName'', JStr ''q'')], JObj []] fresh_table)) =
     [JObj [(''queueName'', JStr ''q'')]]"
  using job_table_correct [of "''q''" "[]" "[JObj [(''queueName'', JStr ''q'')], JObj []]"]
  by (simp add: passes_def)

subsection \<open>From the publisher to the listeners\<close>

definition event_value :: "job_event \<Rightarrow> json" where
  "event_value ev = JObj
     ([(''type'', JStr (e_type ev)), (''jobId'', JStr (e_jobId ev)), (''jobName'', JStr (e_jobName ev)),
       (''queueName'', JStr (e_queueName ev)), (''timestamp'', JNum (of_int (e_timestamp ev)))] @ e_extra ev)"

lemma event_text_read:
  assumes "\<forall>m \<in> set (e_extra ev). json_ok (snd m)"
  shows "json_parse (event_text ev) = Some (event_value ev)"
proof -
  have "json_ok (event_value ev)" using assms by (auto simp: event_value_def is_decimal_of_int)
  from json_roundtrip [OF this] show ?thesis by (simp add: event_text_def event_value_def)
qed

lemma deliver_all: "(\<And>l. l \<in> set ls \<Longrightarrow> \<not> throws l d) \<Longrightarrow> deliver throws d ls = map (\<lambda>l. (l, d)) ls"
  by (induction ls) simp_all

text \<open>An event that any process publishes is sent once to every open client of a bus that has subscribed,
  and every listener of such a client gets the event as it was published; a bus that is not
  subscribed, and a client that is not open, get nothing.\<close>
theorem published_event_delivered:
  assumes "\<forall>m \<in> set (e_extra ev). json_ok (snd m)" and "\<And>l. l \<in> set (wc_listeners st) \<Longrightarrow> \<not> throws l (event_value ev)"
  shows "eb_sent (bus_message events_channel (event_text ev) b) = eb_sent b @
      (if eb_subscribed b then map (\<lambda>(c, _). (c, event_text ev)) (filter snd (eb_clients b)) else []) \<and>
    onmessage throws (event_text ev) st = map (\<lambda>l. (l, event_value ev)) (wc_listeners st)"
proof -
  have "broadcast m cs = map (\<lambda>(c, _). (c, m)) (filter snd cs)" for m cs
    by (induction m cs rule: broadcast.induct) auto
  with assms show ?thesis by (simp add: bus_message_def onmessage_def event_text_read deliver_all)
qed

theorem published_event_delivered_witness:
  "let ev = \<lparr>e_type = ''job.completed'', e_jobId = ''j'', e_jobName = ''greet'', e_queueName = ''q'', e_timestamp = 5, e_extra = []\<rparr>
   in eb_sent (bus_message events_channel (event_text ev) ((bus_ready (new_bus False))\<lparr>eb_clients := [(1, True), (2, False)]\<rparr>)) = [(1, event_text ev)] \<and>
      onmessage (\<lambda>_ _. False) (event_text ev) (subscribe True 7 fresh_client) = [(7, event_value ev)]"
  using published_event_delivered [of "\<lparr>e_type = ''job.completed'', e_jobId = ''j'', e_jobName = ''greet'', e_queueName = ''q'', e_timestamp = 5, e_extra = []\<rparr>"
      "subscribe True 7 fresh_client" "\<lambda>_ _. False" "(bus_ready (new_bus False))\<lparr>eb_clients := [(1, True), (2, False)]\<rparr>"]
  by (simp add: new_bus_def bus_ready_def subscribe_def connect_def fresh_client_def Let_def)

subsection \<open>The age of a heartbeat\<close>

text \<open>\<open>relativeTime(timestamp)\<close> of \<^verbatim>\<open>WorkersPanel.tsx\<close> at the time \<open>clock\<close>.\<close>
definition relativeTime :: "int \<Rightarrow> rat option \<Rightarrow> string" where
  "relativeTime clock timestamp = (case timestamp of None \<Rightarrow> ''-'' | Some t \<Rightarrow>
     let diff = \<lfloor>(of_int clock - t) / 1000\<rfloor>
     in if diff < 60 then int_str diff @ ''s ago''
        else if diff < 3600 then int_str \<lfloor>(of_int diff :: rat) / 60\<rfloor> @ ''m ago''
        else int_str \<lfloor>(of_int diff :: rat) / 3600\<rfloor> @ ''h ago'')"

end
