(* ===== verification/Dashboard_Home.thy ===== *)
theory Dashboard_Home
  imports Dashboard_Api
begin

text \<open>
  The overview: the cards of \<^verbatim>\<open>pages/Dashboard.tsx\<close> and the table of \<^verbatim>\<open>components/WorkersPanel.tsx\<close>.  Each
  asks the server when it is mounted and every five seconds until it is unmounted; an answer
  replaces what is shown, a failure leaves it.
\<close>

record overview =
  ov_queues :: "json list"
  ov_workers :: "json list"

definition fresh_overview :: overview where
  "fresh_overview = \<lparr>ov_queues = [], ov_workers = []\<rparr>"

text \<open>The member of an answer of the declared type.\<close>
definition listed_in :: "string \<Rightarrow> json \<Rightarrow> json list option" where
  "listed_in k d = (case member k d of Some (JArr js) \<Rightarrow> Some js | _ \<Rightarrow> None)"

definition fetchQueues :: "fetch \<Rightarrow> overview \<Rightarrow> overview prog" where
  "fetchQueues fetch st =
     try_catch (await (getQueues fetch) (\<lambda>d. Ret (st\<lparr>ov_queues := nullish (listed_in ''queues'' d) (ov_queues st)\<rparr>)))
       (\<lambda>_. Ret st)"

definition fetchWorkers :: "fetch \<Rightarrow> overview \<Rightarrow> overview prog" where
  "fetchWorkers fetch st =
     try_catch (await (getWorkers fetch) (\<lambda>d. Ret (st\<lparr>ov_workers := nullish (listed_in ''workers'' d) (ov_workers st)\<rparr>)))
       (\<lambda>_. Ret st)"

text \<open>The overview shows the store as it is.\<close>
definition shows_queues :: "store \<Rightarrow> overview \<Rightarrow> bool" where
  "shows_queues v st \<longleftrightarrow> (\<exists>names. distinct names \<and> set names = s_sets v queueRegistry_key \<and>
     ov_queues st = map (\<lambda>q. queue_stats_json (stats_of v q)) names)"

definition shows_workers :: "store \<Rightarrow> overview \<Rightarrow> bool" where
  "shows_workers v st \<longleftrightarrow> (\<exists>names. distinct names \<and> set names = s_sets v workerRegistry_key \<and>
     ov_workers st = map (\<lambda>i. worker_info_json (info_of v i)) names)"

lemma vwp_overview_call:
  assumes "route_of (rd_redis deps) c = Some (Jwt, e, [])" and "\<not> truthy (env ''JWT_SECRET'')"
    and "\<And>v. vwp any_state (handler deps env (arriving_request c) e []) (\<lambda>r u. u = v \<and> (\<exists>resp. r = Inr resp \<and> A v resp)) v"
  shows "vwp any_state (api_fetch (network deps env) msg c)
     (\<lambda>r u. job_data u = job_data v \<and> (\<forall>d. r = Inr d \<longrightarrow> (\<exists>resp. A u resp \<and> api_result msg resp = Inr d))) v"
proof (rule vwp_api_fetch)
  show "vwp any_state (network deps env c)
     (\<lambda>r w. case r of Inl e \<Rightarrow> job_data w = job_data v \<and> (\<forall>d. (Inl e :: err + json) = Inr d \<longrightarrow> (\<exists>resp. A w resp \<and> api_result msg resp = Inr d))
        | Inr resp \<Rightarrow> job_data w = job_data v \<and> (\<forall>d. api_result msg resp = Inr d \<longrightarrow> (\<exists>resp. A w resp \<and> api_result msg resp = Inr d))) v"
    by (simp add: network_route [OF assms(1)] run_guard_def vwp_rules jwtMiddleware_def assms(2))
      (intro allI impI vwp_mono [OF assms(3)]; auto)
qed

lemma int_500 [simp]: "int_str 500 = ''500''"
  by code_simp

lemma answer_listed:
  "queues_answer v resp \<Longrightarrow> api_result msg resp = Inr d \<Longrightarrow> \<exists>names. distinct names \<and>
     set names = s_sets v queueRegistry_key \<and> listed_in ''queues'' d = Some (map (\<lambda>q. queue_stats_json (stats_of v q)) names)"
  "workers_answer v resp \<Longrightarrow> api_result msg resp = Inr d \<Longrightarrow> \<exists>names. distinct names \<and>
     set names = s_sets v workerRegistry_key \<and> listed_in ''workers'' d = Some (map (\<lambda>i. worker_info_json (info_of v i)) names)"
  by (cases resp; auto simp: queues_answer_def workers_answer_def api_result_def listed_in_def split: if_splits)+

lemma vwp_fetchQueues:
  assumes "rd_redis deps" and "\<not> truthy (env ''JWT_SECRET'')"
  shows "vwp any_state (fetchQueues (network deps env) st) (\<lambda>r u. job_data u = job_data v \<and>
     (\<exists>st'. r = Inr st' \<and> (st' = st \<or> ov_workers st' = ov_workers st \<and> shows_queues u st'))) v"
proof -
  have route: "route_of (rd_redis deps) queues_call = Some (Jwt, QueuesE, [])"
    using assms(1) by (simp add: call_routes)
  show ?thesis
    unfolding fetchQueues_def getQueues_def vwp_await vwp_try_catch
    apply (rule vwp_mono [OF vwp_overview_call [where env = env, OF route assms(2), where A = queues_answer]])
      apply (simp add: handler_def vwp_get_queues)
     apply simp
    subgoal for r u
      using answer_listed(1) [of u]
      by (cases r) (fastforce simp: then_post_def catch_post_def shows_queues_def)+
    done
qed

lemma vwp_fetchWorkers:
  assumes "rd_redis deps" and "\<not> truthy (env ''JWT_SECRET'')"
  shows "vwp any_state (fetchWorkers (network deps env) st) (\<lambda>r u. job_data u = job_data v \<and>
     (\<exists>st'. r = Inr st' \<and> (st' = st \<or> ov_queues st' = ov_queues st \<and> shows_workers u st'))) v"
proof -
  have route: "route_of (rd_redis deps) workers_call = Some (Jwt, WorkersE, [])"
    using assms(1) by (simp add: call_routes)
  show ?thesis
    unfolding fetchWorkers_def getWorkers_def vwp_await vwp_try_catch
    apply (rule vwp_mono [OF vwp_overview_call [where env = env, OF route assms(2), where A = workers_answer]])
      apply (simp add: handler_def vwp_get_workers)
     apply simp
    subgoal for r u
      using answer_listed(2) [of u]
      by (cases r) (fastforce simp: then_post_def catch_post_def shows_workers_def)+
    done
qed

text \<open>A load of the overview never fails and changes nothing; either it leaves what is shown, or the cards
  are those of the registered queues with their list lengths and row counts, and the table is that
  of the registered workers.\<close>
theorem overview_truthful:
  assumes "backend exec view" and "rd_redis deps" and "\<not> truthy (env ''JWT_SECRET'')"
    and "run exec (await (fetchQueues (network deps env) st) (fetchWorkers (network deps env))) s = (r, s')"
  shows "job_data (view s') = job_data (view s) \<and> (\<exists>st'. r = Inr st' \<and>
     (ov_queues st' = ov_queues st \<or> shows_queues (view s') st') \<and> (ov_workers st' = ov_workers st \<or> shows_workers (view s') st'))"
proof -
  have cards: "shows_queues u st' = shows_queues v st''" if "job_data u = job_data v" "ov_queues st' = ov_queues st''" for u v st' st''
    using that by (simp add: shows_queues_def stats_of_def count_rows_def rows_matching_def job_data_def)
  have "vwp any_state (await (fetchQueues (network deps env) st) (fetchWorkers (network deps env)))
      (\<lambda>r u. job_data u = job_data (view s) \<and> (\<exists>st'. r = Inr st' \<and>
         (ov_queues st' = ov_queues st \<or> shows_queues u st') \<and> (ov_workers st' = ov_workers st \<or> shows_workers u st'))) (view s)"
    unfolding vwp_await
    apply (rule vwp_mono [OF vwp_fetchQueues [where env = env, OF assms(2,3)]])
     apply simp
    apply clarsimp
    apply (rule vwp_mono [OF vwp_fetchWorkers [where env = env, OF assms(2,3)]])
     apply simp
    apply (auto dest: cards)
    done
  from backend.run_post [OF assms(1,4) this] show ?thesis .
qed

theorem overview_truthful_witness:
  "\<exists>r m st'. run (mem_exec no_faults) (await (fetchQueues (network no_deps Map.empty) fresh_overview) (fetchWorkers (network no_deps Map.empty))) mem_dead = (r, m) \<and>
     r = Inr st' \<and> (ov_queues st' = [] \<or> shows_queues (mem_view m) st')"
proof -
  obtain r m where rm: "run (mem_exec no_faults) (await (fetchQueues (network no_deps Map.empty) fresh_overview) (fetchWorkers (network no_deps Map.empty))) mem_dead = (r, m)"
    by fastforce
  have "rd_redis no_deps" by (simp add: no_deps_def)
  from overview_truthful [where env = Map.empty, OF mem_backend this _ rm] rm show ?thesis by (auto simp: fresh_overview_def)
qed

end
