(* ===== verification/Openapi.thy ===== *)
theory Openapi
  imports Routes_Correct
begin

text \<open>
  \<^verbatim>\<open>server/src/openapi.ts\<close>: the published description of the REST surface, as the JSON value the
  server hands out under \<^verbatim>\<open>/docs/json\<close>, and how far the routes keep to it: operations, guards,
  the schema of a submitted job and that of a returned one.
\<close>

subsection \<open>The document\<close>

definition Job_schema :: json where
  "Job_schema =
     JObj [
      (''type'', JStr ''object''),
      (''properties'', JObj [
        (''id'', JObj [(''type'', JStr ''string''), (''format'', JStr ''uuid'')]),
        (''queueName'', JObj [(''type'', JStr ''string'')]),
        (''jobName'', JObj [(''type'', JStr ''string'')]),
        (''payload'', JObj []),
        (''status'', JObj [
          (''type'', JStr ''string''),
          (''enum'', JArr [
            JStr ''pending'',
            JStr ''active'',
            JStr ''completed'',
            JStr ''failed'',
            JStr ''dlq'',
            JStr ''delayed''])]),
        (''attempts'', JObj [(''type'', JStr ''integer'')]),
        (''maxAttempts'', JObj [(''type'', JStr ''integer'')]),
        (''errorMessage'', JObj [(''type'', JStr ''string''), (''nullable'', JBool True)]),
        (''createdAt'', JObj [(''type'', JStr ''string''), (''format'', JStr ''date-time'')]),
        (''startedAt'', JObj [(''type'', JStr ''string''), (''format'', JStr ''date-time''), (''nullable'', JBool True)]),
        (''completedAt'', JObj [(''type'', JStr ''string''), (''format'', JStr ''date-time''), (''nullable'', JBool True)])])]"

definition EnqueueRequest_schema :: json where
  "EnqueueRequest_schema =
     JObj [
      (''type'', JStr ''object''),
      (''required'', JArr [JStr ''jobName'', JStr ''payload'']),
      (''properties'', JObj [
        (''jobName'', JObj [(''type'', JStr ''string''), (''minLength'', JNum 1)]),
        (''payload'', JObj []),
        (''queue'', JObj [(''type'', JStr ''string'')]),
        (''maxAttempts'', JObj [(''type'', JStr ''integer''), (''minimum'', JNum 1)]),
        (''idempotencyKey'', JObj [(''type'', JStr ''string'')]),
        (''delay'', JObj [(''type'', JStr ''integer''), (''minimum'', JNum 0)]),
        (''priority'', JObj [(''type'', JStr ''string''), (''enum'', JArr [JStr ''high'', JStr ''normal'', JStr ''low''])])])]"

definition LoginRequest_schema :: json where
  "LoginRequest_schema =
     JObj [
      (''type'', JStr ''object''),
      (''required'', JArr [JStr ''username'', JStr ''password'']),
      (''properties'', JObj [
        (''username'', JObj [(''type'', JStr ''string'')]),
        (''password'', JObj [(''type'', JStr ''string'')])])]"

definition doc_health :: json where
  "doc_health =
     JObj [
      (''get'', JObj [
        (''summary'', JStr ''Health check''),
        (''tags'', JArr [JStr ''System'']),
        (''responses'', JObj [
          (''200'', JObj [
            (''description'', JStr ''OK''),
            (''content'', JObj [
              (''application/json'', JObj [
                (''schema'', JObj [
                  (''type'', JStr ''object''),
                  (''properties'', JObj [(''status'', JObj [(''type'', JStr ''string'')])])])])])])])])]"

definition doc_metrics :: json where
  "doc_metrics =
     JObj [
      (''get'', JObj [
        (''summary'', JStr ''Prometheus metrics''),
        (''tags'', JArr [JStr ''System'']),
        (''responses'', JObj [
          (''200'', JObj [
            (''description'', JStr ''Prometheus text format metrics''),
            (''content'', JObj [(''text/plain'', JObj [(''schema'', JObj [(''type'', JStr ''string'')])])])])])])]"

definition doc_jobs :: json where
  "doc_jobs =
     JObj [
      (''post'', JObj [
        (''summary'', JStr ''Enqueue a new job''),
        (''tags'', JArr [JStr ''Jobs'']),
        (''security'', JArr [JObj [(''ApiKeyAuth'', JArr [])]]),
        (''requestBody'', JObj [
          (''required'', JBool True),
          (''content'', JObj [
            (''application/json'', JObj [(''schema'', JObj [(''$ref'', JStr ''#/components/schemas/EnqueueRequest'')])])])]),
        (''responses'', JObj [
          (''201'', JObj [
            (''description'', JStr ''Job created''),
            (''content'', JObj [
              (''application/json'', JObj [
                (''schema'', JObj [
                  (''type'', JStr ''object''),
                  (''properties'', JObj [(''jobId'', JObj [(''type'', JStr ''string'')])])])])])]),
          (''400'', JObj [(''description'', JStr ''Validation error'')]),
          (''401'', JObj [(''description'', JStr ''Unauthorized'')])])])]"

definition doc_jobs_id :: json where
  "doc_jobs_id =
     JObj [
      (''get'', JObj [
        (''summary'', JStr ''Get job by ID''),
        (''tags'', JArr [JStr ''Jobs'']),
        (''parameters'', JArr [
          JObj [
           (''name'', JStr ''id''),
           (''in'', JStr ''path''),
           (''required'', JBool True),
           (''schema'', JObj [(''type'', JStr ''string'')])]]),
        (''responses'', JObj [
          (''200'', JObj [
            (''description'', JStr ''Job details''),
            (''content'', JObj [
              (''application/json'', JObj [(''schema'', JObj [(''$ref'', JStr ''#/components/schemas/Job'')])])])]),
          (''404'', JObj [(''description'', JStr ''Not found'')])])])]"

definition doc_jobs_id_retry :: json where
  "doc_jobs_id_retry =
     JObj [
      (''post'', JObj [
        (''summary'', JStr ''Retry a failed or DLQ job''),
        (''tags'', JArr [JStr ''Jobs'']),
        (''security'', JArr [JObj [(''BearerAuth'', JArr [])]]),
        (''parameters'', JArr [
          JObj [
           (''name'', JStr ''id''),
           (''in'', JStr ''path''),
           (''required'', JBool True),
           (''schema'', JObj [(''type'', JStr ''string'')])]]),
        (''responses'', JObj [
          (''200'', JObj [
            (''description'', JStr ''Job retried''),
            (''content'', JObj [
              (''application/json'', JObj [
                (''schema'', JObj [
                  (''type'', JStr ''object''),
                  (''properties'', JObj [(''success'', JObj [(''type'', JStr ''boolean'')])])])])])]),
          (''400'', JObj [(''description'', JStr ''Job not retriable'')]),
          (''404'', JObj [(''description'', JStr ''Not found'')])])])]"

definition doc_queues :: json where
  "doc_queues =
     JObj [
      (''get'', JObj [
        (''summary'', JStr ''List queues with stats''),
        (''tags'', JArr [JStr ''Queues'']),
        (''security'', JArr [JObj [(''BearerAuth'', JArr [])]]),
        (''responses'', JObj [
          (''200'', JObj [
            (''description'', JStr ''Queue list''),
            (''content'', JObj [
              (''application/json'', JObj [
                (''schema'', JObj [
                  (''type'', JStr ''object''),
                  (''properties'', JObj [
                    (''queues'', JObj [(''type'', JStr ''array''), (''items'', JObj [(''type'', JStr ''object'')])])])])])])])])])]"

definition doc_queues_name_jobs :: json where
  "doc_queues_name_jobs =
     JObj [
      (''get'', JObj [
        (''summary'', JStr ''List jobs for a queue''),
        (''tags'', JArr [JStr ''Queues'']),
        (''security'', JArr [JObj [(''BearerAuth'', JArr [])]]),
        (''parameters'', JArr [
          JObj [
           (''name'', JStr ''name''),
           (''in'', JStr ''path''),
           (''required'', JBool True),
           (''schema'', JObj [(''type'', JStr ''string'')])],
          JObj [
           (''name'', JStr ''status''),
           (''in'', JStr ''query''),
           (''schema'', JObj [
             (''type'', JStr ''string''),
             (''enum'', JArr [
               JStr ''pending'',
               JStr ''active'',
               JStr ''completed'',
               JStr ''failed'',
               JStr ''dlq'',
               JStr ''delayed''])])],
          JObj [
           (''name'', JStr ''limit''),
           (''in'', JStr ''query''),
           (''schema'', JObj [(''type'', JStr ''integer''), (''maximum'', JNum 200)])],
          JObj [
           (''name'', JStr ''offset''),
           (''in'', JStr ''query''),
           (''schema'', JObj [(''type'', JStr ''integer'')])]]),
        (''responses'', JObj [
          (''200'', JObj [
            (''description'', JStr ''Job list''),
            (''content'', JObj [
              (''application/json'', JObj [
                (''schema'', JObj [
                  (''type'', JStr ''object''),
                  (''properties'', JObj [
                    (''jobs'', JObj [
                      (''type'', JStr ''array''),
                      (''items'', JObj [(''$ref'', JStr ''#/components/schemas/Job'')])]),
                    (''total'', JObj [(''type'', JStr ''integer'')])])])])])])])])]"

definition doc_workers :: json where
  "doc_workers =
     JObj [
      (''get'', JObj [
        (''summary'', JStr ''List active workers''),
        (''tags'', JArr [JStr ''Workers'']),
        (''security'', JArr [JObj [(''BearerAuth'', JArr [])]]),
        (''responses'', JObj [
          (''200'', JObj [
            (''description'', JStr ''Worker list''),
            (''content'', JObj [
              (''application/json'', JObj [
                (''schema'', JObj [
                  (''type'', JStr ''object''),
                  (''properties'', JObj [
                    (''workers'', JObj [(''type'', JStr ''array''), (''items'', JObj [(''type'', JStr ''object'')])])])])])])])])])]"

definition doc_queues_name_dlq :: json where
  "doc_queues_name_dlq =
     JObj [
      (''get'', JObj [
        (''summary'', JStr ''List DLQ jobs for a queue''),
        (''tags'', JArr [JStr ''Queues'']),
        (''security'', JArr [JObj [(''BearerAuth'', JArr [])]]),
        (''parameters'', JArr [
          JObj [
           (''name'', JStr ''name''),
           (''in'', JStr ''path''),
           (''required'', JBool True),
           (''schema'', JObj [(''type'', JStr ''string'')])],
          JObj [
           (''name'', JStr ''limit''),
           (''in'', JStr ''query''),
           (''schema'', JObj [(''type'', JStr ''integer'')])],
          JObj [
           (''name'', JStr ''offset''),
           (''in'', JStr ''query''),
           (''schema'', JObj [(''type'', JStr ''integer'')])]]),
        (''responses'', JObj [(''200'', JObj [(''description'', JStr ''DLQ job list'')])])])]"

definition doc_queues_name_dlq_requeue :: json where
  "doc_queues_name_dlq_requeue =
     JObj [
      (''post'', JObj [
        (''summary'', JStr ''Bulk requeue DLQ jobs''),
        (''tags'', JArr [JStr ''Queues'']),
        (''security'', JArr [JObj [(''BearerAuth'', JArr [])]]),
        (''parameters'', JArr [
          JObj [
           (''name'', JStr ''name''),
           (''in'', JStr ''path''),
           (''required'', JBool True),
           (''schema'', JObj [(''type'', JStr ''string'')])]]),
        (''requestBody'', JObj [
          (''content'', JObj [
            (''application/json'', JObj [
              (''schema'', JObj [
                (''type'', JStr ''object''),
                (''properties'', JObj [
                  (''jobIds'', JObj [(''type'', JStr ''array''), (''items'', JObj [(''type'', JStr ''string'')])]),
                  (''all'', JObj [(''type'', JStr ''boolean'')])])])])])]),
        (''responses'', JObj [
          (''200'', JObj [
            (''description'', JStr ''Requeue result''),
            (''content'', JObj [
              (''application/json'', JObj [
                (''schema'', JObj [
                  (''type'', JStr ''object''),
                  (''properties'', JObj [
                    (''requeued'', JObj [(''type'', JStr ''integer'')]),
                    (''failed'', JObj [(''type'', JStr ''integer'')])])])])])])])])]"

definition doc_auth_login :: json where
  "doc_auth_login =
     JObj [
      (''post'', JObj [
        (''summary'', JStr ''Login and get JWT token''),
        (''tags'', JArr [JStr ''Auth'']),
        (''requestBody'', JObj [
          (''required'', JBool True),
          (''content'', JObj [
            (''application/json'', JObj [(''schema'', JObj [(''$ref'', JStr ''#/components/schemas/LoginRequest'')])])])]),
        (''responses'', JObj [
          (''200'', JObj [
            (''description'', JStr ''JWT token''),
            (''content'', JObj [
              (''application/json'', JObj [
                (''schema'', JObj [
                  (''type'', JStr ''object''),
                  (''properties'', JObj [(''token'', JObj [(''type'', JStr ''string'')])])])])])]),
          (''401'', JObj [(''description'', JStr ''Invalid credentials'')]),
          (''501'', JObj [(''description'', JStr ''Auth not configured'')])])])]"

definition openapiSpec :: json where
  "openapiSpec = JObj
     [(''openapi'', JStr ''3.0.3''),
      (''info'', JObj [(''title'', JStr ''NexusQueue API''), (''version'', JStr ''0.1.0''), (''description'', JStr ''Distributed task queue engine REST API'')]),
      (''servers'', JArr [JObj [(''url'', JStr ''/'')]]),
      (''components'', JObj
        [(''securitySchemes'', JObj [
          (''ApiKeyAuth'', JObj [(''type'', JStr ''apiKey''), (''in'', JStr ''header''), (''name'', JStr ''X-API-Key'')]),
          (''BearerAuth'', JObj [(''type'', JStr ''http''), (''scheme'', JStr ''bearer''), (''bearerFormat'', JStr ''JWT'')])]),
         (''schemas'', JObj [(''Job'', Job_schema), (''EnqueueRequest'', EnqueueRequest_schema), (''LoginRequest'', LoginRequest_schema)])]),
      (''paths'', JObj
        [(''/health'', doc_health),
         (''/metrics'', doc_metrics),
         (''/jobs'', doc_jobs),
         (''/jobs/{id}'', doc_jobs_id),
         (''/jobs/{id}/retry'', doc_jobs_id_retry),
         (''/queues'', doc_queues),
         (''/queues/{name}/jobs'', doc_queues_name_jobs),
         (''/workers'', doc_workers),
         (''/queues/{name}/dlq'', doc_queues_name_dlq),
         (''/queues/{name}/dlq/requeue'', doc_queues_name_dlq_requeue),
         (''/auth/login'', doc_auth_login)])]"

subsection \<open>Reading the document\<close>

definition members :: "json \<Rightarrow> (string \<times> json) list" where
  "members v = (case v of JObj ms \<Rightarrow> ms | _ \<Rightarrow> [])"

definition json_items :: "json option \<Rightarrow> json list" where
  "json_items v = (case v of Some (JArr xs) \<Rightarrow> xs | _ \<Rightarrow> [])"

text \<open>A path template: \<open>{x}\<close> is a parameter.\<close>
definition read_segment :: "string \<Rightarrow> segment" where
  "read_segment w = (case w of [] \<Rightarrow> Lit [] | c # cs \<Rightarrow> if c = CHR ''{'' then Param (butlast cs) else Lit w)"

definition read_path :: "string \<Rightarrow> segment list" where
  "read_path p = map read_segment (tl (split_on (CHR ''/'') p))"

text \<open>The \<open>security\<close> of an operation: the schemes it names.\<close>
definition read_security :: "json \<Rightarrow> guard" where
  "read_security operation =
     (case json_items (member ''security'' operation) of
        [] \<Rightarrow> Open
      | x # xs \<Rightarrow> if member ''ApiKeyAuth'' x \<noteq> None then ApiKey else if member ''BearerAuth'' x \<noteq> None then Jwt else Open)"

definition documented_routes :: "json \<Rightarrow> (string \<times> segment list \<times> guard) list" where
  "documented_routes doc =
     concat (map (\<lambda>(path, item). map (\<lambda>(meth, operation). (meth, read_path path, read_security operation)) (members item))
       (case member ''paths'' doc of Some ps \<Rightarrow> members ps | None \<Rightarrow> []))"

lemmas doc_path_defs = doc_health_def doc_metrics_def doc_jobs_def doc_jobs_id_def doc_jobs_id_retry_def doc_queues_def
  doc_queues_name_jobs_def doc_workers_def doc_queues_name_dlq_def doc_queues_name_dlq_requeue_def doc_auth_login_def

text \<open>The document lists exactly the operations the router registers, with the same paths, parameters
  and guards.\<close>
theorem openapi_documents_routes:
  "set (documented_routes openapiSpec) = (\<lambda>(meth, path, g, e). (meth, path, g)) ` set (buildRouter True)"
  by (simp add: documented_routes_def openapiSpec_def doc_path_defs members_def read_path_def read_segment_def
      read_security_def json_items_def buildRouter_def) auto

subsection \<open>Schemas\<close>

text \<open>The keywords of JSON Schema the document uses; \<open>format\<close> is an annotation.\<close>
definition type_ok :: "json \<Rightarrow> json \<Rightarrow> bool" where
  "type_ok schema v = (case member ''type'' schema of
     Some (JStr t) \<Rightarrow>
       (case v of
          JStr _ \<Rightarrow> t = ''string'' | JNum x \<Rightarrow> t = ''integer'' \<and> of_int \<lfloor>x\<rfloor> = x | JBool _ \<Rightarrow> t = ''boolean''
        | JObj _ \<Rightarrow> t = ''object'' | JArr _ \<Rightarrow> t = ''array'' | JNull \<Rightarrow> False)
   | _ \<Rightarrow> True)"

definition minLength_ok :: "json \<Rightarrow> json \<Rightarrow> bool" where
  "minLength_ok schema v = (case (member ''minLength'' schema, v) of (Some (JNum n), JStr s) \<Rightarrow> n \<le> of_nat (length s) | _ \<Rightarrow> True)"

definition minimum_ok :: "json \<Rightarrow> json \<Rightarrow> bool" where
  "minimum_ok schema v = (case (member ''minimum'' schema, v) of (Some (JNum n), JNum x) \<Rightarrow> n \<le> x | _ \<Rightarrow> True)"

definition enum_ok :: "json \<Rightarrow> json \<Rightarrow> bool" where
  "enum_ok schema v = (case member ''enum'' schema of Some (JArr xs) \<Rightarrow> v \<in> set xs | _ \<Rightarrow> True)"

definition member_ok :: "json \<Rightarrow> json \<Rightarrow> bool" where
  "member_ok schema v \<longleftrightarrow> v = JNull \<and> member ''nullable'' schema = Some (JBool True) \<or>
     type_ok schema v \<and> minLength_ok schema v \<and> minimum_ok schema v \<and> enum_ok schema v"

text \<open>An object of members: the required ones are there, and each member there is keeps its schema.\<close>
definition conforms :: "json \<Rightarrow> json \<Rightarrow> bool" where
  "conforms schema v \<longleftrightarrow> type_ok schema v \<and>
     list_all (\<lambda>k. case k of JStr k \<Rightarrow> member k v \<noteq> None | _ \<Rightarrow> True) (json_items (member ''required'' schema)) \<and>
     list_all (\<lambda>(k, sch). case member k v of None \<Rightarrow> True | Some x \<Rightarrow> member_ok sch x)
       (case member ''properties'' schema of Some ps \<Rightarrow> members ps | None \<Rightarrow> [])"

lemmas conforms_defs = conforms_def member_ok_def type_ok_def minLength_ok_def minimum_ok_def enum_ok_def members_def json_items_def

text \<open>C31: Every job the server returns, from the table by its id or in a page of a queue, conforms to the
  documented schema of a job.\<close>
theorem job_json_conforms:
  "conforms Job_schema (job_json j) \<and> conforms Job_schema (row_json (i, w))"
proof -
  have st: "status_str x \<in> {''pending'', ''active'', ''completed'', ''failed'', ''dlq'', ''delayed''}" for x
    by (cases x) simp_all
  have "conforms Job_schema (job_json j)"
    using st [of "j_status j"] by (auto simp: Job_schema_def job_json_def conforms_defs opt_json_def split: option.splits json.splits)
  moreover have "conforms Job_schema (row_json (i, w))"
    using st [of "r_status w"] by (auto simp: Job_schema_def row_json_def conforms_defs opt_json_def split: option.splits json.splits)
  ultimately show ?thesis ..
qed

text \<open>Each documented member against the schema of the route.\<close>
lemma member_ok_fields:
  "member_ok (JObj [(''type'', JStr ''string''), (''minLength'', JNum 1)]) x \<longleftrightarrow> field_ok (ZString 1) (Some x)"
  "member_ok (JObj [(''type'', JStr ''string'')]) x \<and> x \<noteq> JStr [] \<longleftrightarrow> field_ok (ZString 1) (Some x)"
  "member_ok (JObj [(''type'', JStr ''integer''), (''minimum'', JNum (of_int n))]) x \<longleftrightarrow> field_ok (ZInt n) (Some x)"
  "member_ok (JObj [(''type'', JStr ''string''), (''enum'', JArr (map JStr ws))]) x \<longleftrightarrow> field_ok (ZEnum ws) (Some x)"
  "member_ok (JObj []) x"
  by (cases x; auto simp: conforms_defs Suc_le_eq; fail)+

lemma conforms_request:
  "conforms EnqueueRequest_schema (JObj ms) \<longleftrightarrow>
     (let m = (\<lambda>k. member k (JObj ms)); opt = (\<lambda>k P. case m k of None \<Rightarrow> True | Some x \<Rightarrow> P x)
      in m ''jobName'' \<noteq> None \<and> m ''payload'' \<noteq> None \<and>
        opt ''jobName'' (\<lambda>x. field_ok (ZString 1) (Some x)) \<and>
        opt ''queue'' (member_ok (JObj [(''type'', JStr ''string'')])) \<and>
        opt ''maxAttempts'' (\<lambda>x. field_ok (ZInt 1) (Some x)) \<and>
        opt ''idempotencyKey'' (member_ok (JObj [(''type'', JStr ''string'')])) \<and>
        opt ''delay'' (\<lambda>x. field_ok (ZInt 0) (Some x)) \<and>
        opt ''priority'' (\<lambda>x. field_ok (ZEnum [''high'', ''normal'', ''low'']) (Some x)))"
  using member_ok_fields(3) [of 1] member_ok_fields(3) [of 0] member_ok_fields(4) [of "[''high'', ''normal'', ''low'']"]
  by (cases "member ''payload'' (JObj ms)") (simp_all add: conforms_def EnqueueRequest_schema_def type_ok_def json_items_def members_def member_ok_fields Let_def del: field_ok.simps One_nat_def
      cong: option.case_cong)

text \<open>A body is accepted by \<open>POST /jobs\<close> and has a payload exactly when it conforms to the documented
  request and neither its queue nor its idempotency key is the empty string, which the document
  allows and the route refuses.\<close>
theorem documented_requests_accepted:
  "schema_accepts enqueueBodySchema body \<and> member ''payload'' body \<noteq> None \<longleftrightarrow>
     conforms EnqueueRequest_schema body \<and> member ''queue'' body \<noteq> Some (JStr []) \<and> member ''idempotencyKey'' body \<noteq> Some (JStr [])"
proof (cases body)
  case (JObj ms)
  have opt: "(m = None \<or> field_ok f m) \<longleftrightarrow> (case m of None \<Rightarrow> True | Some x \<Rightarrow> field_ok f (Some x))" for m f
    by (cases m) simp_all
  have str: "(case m of None \<Rightarrow> True | Some x \<Rightarrow> member_ok (JObj [(''type'', JStr ''string'')]) x) \<and> m \<noteq> Some (JStr []) \<longleftrightarrow>
      (case m of None \<Rightarrow> True | Some x \<Rightarrow> field_ok (ZString 1) (Some x))" for m
    using member_ok_fields(2) by (cases m) auto
  have req: "field_ok (ZString 1) m \<longleftrightarrow> m \<noteq> None \<and> (case m of None \<Rightarrow> True | Some x \<Rightarrow> field_ok (ZString 1) (Some x))" for m
    by (cases m) simp_all
  have unknown: "field_ok ZUnknown m" for m by simp
  show ?thesis
    unfolding JObj conforms_request Let_def schema_accepts_def enqueueBodySchema_def
    using str [of "member ''queue'' (JObj ms)"] str [of "member ''idempotencyKey'' (JObj ms)"] req [of "member ''jobName'' (JObj ms)"]
      unknown
    by (simp add: opt del: field_ok.simps member.simps One_nat_def) argo
qed (simp_all add: schema_accepts_def conforms_def type_ok_def EnqueueRequest_schema_def)

end
