(* ===== verification/Server_App.thy ===== *)
theory Server_App
  imports Dashboard_Api Openapi
begin

text \<open>
  The application of \<^verbatim>\<open>server/src/index.ts\<close>: what a request passes through before its route, namely \<open>cors()\<close>,
  \<open>express.json({ limit: '1mb' })\<close> and the documentation, and the error handler behind the routes.

  \<open>cors\<close>, the body parser and Swagger UI are third-party code; the model has their documented
  behaviour: a preflight is answered 204, a JSON body is an object or an array within the limit,
  anything else is an error that goes to the error handler.
\<close>

record raw_request =
  rr_method :: string
  rr_target :: string
  rr_headers :: "(string \<times> string) list"
  rr_body :: string

definition body_limit :: nat where
  "body_limit = 1048576"

definition express_json :: "raw_request \<Rightarrow> err + json" where
  "express_json raw =
     (if rr_body raw = [] \<or> map_of (rr_headers raw) ''Content-Type'' \<noteq> Some ''application/json'' then Inr (JObj [])
      else if body_limit < length (rr_body raw) then Inl (JsError ''request entity too large'')
      else case json_parse (rr_body raw) of
             Some (JObj ms) \<Rightarrow> Inr (JObj ms)
           | Some (JArr xs) \<Rightarrow> Inr (JArr xs)
           | _ \<Rightarrow> Inl (JsError ''Unexpected token in JSON''))"

definition parsed_request :: "raw_request \<Rightarrow> json \<Rightarrow> request" where
  "parsed_request raw body = \<lparr>rq_authorization = map_of (rr_headers raw) ''Authorization'',
     rq_xApiKey = map_of (rr_headers raw) ''X-API-Key'',
     rq_query = map_of (parse_query (url_query (rr_target raw))), rq_body = body\<rparr>"

text \<open>The document, and everything else under \<open>/docs\<close>, which \<open>swagger\<close> answers.\<close>
definition setupSwagger :: "(string list \<Rightarrow> response) \<Rightarrow> string \<Rightarrow> string list \<Rightarrow> response option" where
  "setupSwagger swagger meth path =
     (if meth = ''get'' \<and> path = [''docs'', ''json''] then Some (Reply 200 openapiSpec)
      else if take 1 path = [''docs''] then Some (swagger path)
      else None)"

definition app :: "router_deps \<Rightarrow> process_env \<Rightarrow> (string list \<Rightarrow> response) \<Rightarrow> raw_request \<Rightarrow> response prog" where
  "app deps env swagger raw =
     (if rr_method raw = ''options'' then Ret (Reply 204 JNull)
      else case express_json raw of
        Inl e \<Rightarrow> Ret (error_handler e)
      | Inr body \<Rightarrow>
          (case path_segments (url_path (rr_target raw)) of
             None \<Rightarrow> Ret (error_handler (JsError ''URI malformed''))
           | Some path \<Rightarrow>
               (case setupSwagger swagger (rr_method raw) path of
                  Some r \<Rightarrow> Ret r
                | None \<Rightarrow> serve deps env (parsed_request raw body) (rr_method raw) path)))"

text \<open>A body that is not JSON, or too long, is answered 500 on every route, before its guard, where the
  document has 400.\<close>
lemma app_bad_body:
  assumes "rr_method raw \<noteq> ''options''" and "rr_body raw \<noteq> []" and "map_of (rr_headers raw) ''Content-Type'' = Some ''application/json''"
    and "body_limit < length (rr_body raw) \<or> json_parse (rr_body raw) = None"
  shows "app deps env swagger raw = Ret (Reply 500 (JObj [(''error'', JStr ''internal_error'')]))"
  using assms by (auto simp: app_def express_json_def error_handler_def)

subsection \<open>The requests of the dashboard\<close>

text \<open>A call of the dashboard on the wire.\<close>
definition raw_of :: "api_call \<Rightarrow> raw_request" where
  "raw_of c = \<lparr>rr_method = ac_method c, rr_target = ac_target c, rr_headers = ac_headers c, rr_body = nullish (ac_body c) []\<rparr>"

lemma stringify_nonempty: "json_stringify (requeue_json ids) \<noteq> []"
proof
  assume "json_stringify (requeue_json ids) = []"
  then have "json_parse [] = Some (requeue_json ids)"
    using json_roundtrip [of "requeue_json ids"] by (cases ids) (auto simp: requeue_json_def)
  moreover have "json_parse [] = None" by code_simp
  ultimately show False by simp
qed

lemma docs_unrouted: "find_route meth (''docs'' # path) (buildRouter redis) = None"
  by (cases redis) (simp_all add: buildRouter_def)

text \<open>Every call of the dashboard is served as the network model has it, if its body is within the limit.\<close>
lemma network_is_app:
  assumes "plain_name q" and "plain_name i" and "length (nullish (ac_body c) []) \<le> body_limit"
    and "c \<in> {queues_call, jobs_call q opts, job_call i, retry_call i, workers_call, dlq_call q, requeue_call q ids}"
  shows "network deps env c = app deps env swagger (raw_of c)"
proof -
  have json: "express_json (raw_of c) = Inr (rq_body (arriving_request c))"
    using assms(3,4) stringify_nonempty [of ids] json_roundtrip [of "requeue_json ids"]
    by (cases ids) (auto simp: express_json_def raw_of_def arriving_request_def call_defs requeue_json_def)
  have req: "parsed_request (raw_of c) (rq_body (arriving_request c)) = arriving_request c"
    by (simp add: parsed_request_def raw_of_def arriving_request_def)
  have meth: "ac_method c \<noteq> ''options''" using assms(4) by auto
  have "\<exists>path. path_segments (url_path (ac_target c)) = Some path \<and> take 1 path \<noteq> [''docs'']"
  proof -
    from assms(1,2,4) obtain r where "route_of True c = Some r" by (auto simp: call_routes)
    then obtain path where "path_segments (url_path (ac_target c)) = Some path" "find_route (ac_method c) path (buildRouter True) = Some r"
      by (auto simp: route_of_def bind_eq_Some_conv)
    moreover from this(2) have "take 1 path \<noteq> [''docs'']" using docs_unrouted by (cases path) auto
    ultimately show ?thesis by blast
  qed
  then show ?thesis using json req meth by (auto simp: network_def app_def setupSwagger_def raw_of_def)
qed

end
