(* ===== verification/Load_Test.thy ===== *)
theory Load_Test
  imports Server_App
begin

text \<open>
  The load test of \<^verbatim>\<open>k6\<close>: the bodies its scenarios make up from the rolls of \<open>Math.random()\<close> and the clock,
  and the request they are sent in.  The k6 runtime, its rates and thresholds are not modelled.
\<close>

definition QUEUE_NAMES :: "string list" where
  "QUEUE_NAMES = [''default'', ''emails'', ''notifications'', ''reports'', ''analytics'']"

definition JOB_NAMES :: "string list" where
  "JOB_NAMES = [''processOrder'', ''sendEmail'', ''generateReport'', ''syncData'', ''resizeImage'']"

text \<open>\<open>Math.floor(Math.random() * n)\<close> and the member of a list at that index.\<close>
definition floor_of :: "rat \<Rightarrow> nat \<Rightarrow> int" where
  "floor_of roll n = \<lfloor>roll * of_nat n\<rfloor>"

definition pick :: "string list \<Rightarrow> rat \<Rightarrow> string" where
  "pick xs roll = xs ! nat (floor_of roll (length xs))"

text \<open>The rolls of one iteration, in the order of their use.\<close>
record rolls =
  rl_priority :: rat
  rl_userId :: rat
  rl_action :: rat
  rl_value :: rat
  rl_flag :: rat
  rl_tag :: rat
  rl_queue :: rat

definition randomPayload :: "int \<Rightarrow> rolls \<Rightarrow> json" where
  "randomPayload clock r = JObj
     [(''userId'', JNum (of_int (floor_of (rl_userId r) 10000))),
      (''action'', JStr (pick JOB_NAMES (rl_action r))),
      (''timestamp'', JNum (of_int clock)),
      (''data'', JObj [(''value'', JNum (rl_value r * 1000)), (''flag'', JBool (rl_flag r > 1 / 2)),
         (''tags'', JArr [JStr ''load-test'', JStr (''batch-'' @ int_str (floor_of (rl_tag r) 100))])])]"

definition randomQueueName :: "rat \<Rightarrow> string" where
  "randomQueueName roll = pick QUEUE_NAMES roll"

definition randomPriority :: "rat \<Rightarrow> string" where
  "randomPriority roll = (if roll < 6 / 10 then ''normal'' else if roll < 9 / 10 then ''high'' else ''low'')"

definition load_body :: "string \<Rightarrow> json \<Rightarrow> string \<Rightarrow> string \<Rightarrow> json" where
  "load_body jobName payload q prio =
     JObj [(''jobName'', JStr jobName), (''payload'', payload), (''queue'', JStr q), (''priority'', JStr prio)]"

definition burst :: "int \<Rightarrow> rolls \<Rightarrow> json" where
  "burst clock r = load_body (''burst-'' @ int_str clock) (randomPayload clock r) (randomQueueName (rl_queue r)) ''normal''"

definition sustained :: "int \<Rightarrow> rolls \<Rightarrow> json" where
  "sustained clock r = load_body (''sustained-'' @ int_str clock) (randomPayload clock r) (randomQueueName (rl_queue r)) ''normal''"

definition mixedPriorities :: "int \<Rightarrow> rolls \<Rightarrow> json" where
  "mixedPriorities clock r =
     (let prio = randomPriority (rl_priority r)
      in load_body (''mixed-'' @ prio @ CHR ''-'' # int_str clock) (randomPayload clock r) (randomQueueName (rl_queue r)) prio)"

definition enqueue_load :: "int \<Rightarrow> rolls \<Rightarrow> json" where
  "enqueue_load clock r = load_body (''load-test-'' @ int_str clock) (randomPayload clock r) (randomQueueName (rl_queue r))
     (randomPriority (rl_priority r))"

definition load_headers :: "string option \<Rightarrow> (string \<times> string) list" where
  "load_headers key = (''Content-Type'', ''application/json'') # (if truthy key then [(''X-API-Key'', nullish key [])] else [])"

definition load_request :: "string option \<Rightarrow> json \<Rightarrow> raw_request" where
  "load_request key body = \<lparr>rr_method = ''post'', rr_target = ''/jobs'', rr_headers = load_headers key, rr_body = json_stringify body\<rparr>"

subsection \<open>The requests are the ones the server takes\<close>

text \<open>\<open>Math.random()\<close> is at least 0 and less than 1; the value is one that is written exactly.\<close>
definition random_rolls :: "rolls \<Rightarrow> bool" where
  "random_rolls r \<longleftrightarrow> (\<forall>x \<in> {rl_priority r, rl_userId r, rl_action r, rl_value r, rl_flag r, rl_tag r, rl_queue r}. 0 \<le> x \<and> x < 1) \<and>
     is_decimal (rl_value r * 1000)"

definition load_bodies :: "int \<Rightarrow> rolls \<Rightarrow> json set" where
  "load_bodies clock r = {burst clock r, sustained clock r, mixedPriorities clock r, enqueue_load clock r}"

lemma pick_member:
  assumes "0 \<le> roll" and "roll < 1" and "xs \<noteq> []"
  shows "pick xs roll \<in> set xs"
proof -
  have "roll * of_nat (length xs) < 1 * of_nat (length xs)" using assms by (intro mult_strict_right_mono) auto
  then have "\<lfloor>roll * of_nat (length xs)\<rfloor> < int (length xs)" by (simp add: floor_less_iff)
  moreover have "0 \<le> \<lfloor>roll * of_nat (length xs)\<rfloor>" using assms by simp
  ultimately have "nat \<lfloor>roll * of_nat (length xs)\<rfloor> < length xs" by linarith
  then show ?thesis unfolding pick_def floor_of_def by (rule nth_mem)
qed

lemma priority_member: "randomPriority roll \<in> {''high'', ''normal'', ''low''}"
  by (simp add: randomPriority_def)

text \<open>Of rolls spread evenly six in ten are normal, three high and one low.\<close>
lemma priority_weights:
  "map randomPriority (map (\<lambda>k. of_nat k / 10) [0..<10]) = replicate 6 ''normal'' @ replicate 3 ''high'' @ [''low'']"
  by (simp add: randomPriority_def upt_rec numeral_eq_Suc del: upt_Suc)

lemma load_body_form:
  assumes "random_rolls r" and "b \<in> load_bodies clock r"
  obtains n q p where "b = load_body n (randomPayload clock r) q p" and "n \<noteq> []" and "q \<in> set QUEUE_NAMES"
    and "p \<in> {''high'', ''normal'', ''low''}"
proof -
  have "randomQueueName (rl_queue r) \<in> set QUEUE_NAMES"
    using assms(1) pick_member [of "rl_queue r" QUEUE_NAMES] by (simp add: random_rolls_def randomQueueName_def QUEUE_NAMES_def)
  with assms(2) priority_member [of "rl_priority r"] that show thesis
    by (auto simp: load_bodies_def burst_def sustained_def mixedPriorities_def enqueue_load_def Let_def)
qed

lemma load_body_ok:
  assumes "random_rolls r" and "b \<in> load_bodies clock r"
  shows "json_ok b" and "schema_accepts enqueueBodySchema b" and "\<exists>ms. b = JObj ms"
    and "json_string (member ''queue'' b) \<in> Some ` set QUEUE_NAMES" and "json_string (member ''idempotencyKey'' b) = None"
    and "json_int (member ''delay'' b) = None"
proof -
  obtain n q p where b: "b = load_body n (randomPayload clock r) q p" and n: "n \<noteq> []" and q: "q \<in> set QUEUE_NAMES"
    and p: "p \<in> {''high'', ''normal'', ''low''}" using load_body_form [OF assms] .
  have "q \<noteq> []" using q by (auto simp: QUEUE_NAMES_def)
  have "json_ok (randomPayload clock r)" using assms(1) by (simp add: randomPayload_def random_rolls_def)
  then show "json_ok b" by (simp add: b load_body_def)
  show "schema_accepts enqueueBodySchema b"
    using n \<open>q \<noteq> []\<close> p by (auto simp: b load_body_def schema_accepts_def enqueueBodySchema_def Suc_le_eq)
  show "json_string (member ''queue'' b) \<in> Some ` set QUEUE_NAMES" "json_string (member ''idempotencyKey'' b) = None"
      "json_int (member ''delay'' b) = None" "\<exists>ms. b = JObj ms"
    using q by (simp_all add: b load_body_def)
qed


text \<open>With a key the server accepts, and a body within its limit, the request reaches the route for jobs.\<close>
lemma load_request_served:
  assumes "random_rolls r" and "b \<in> load_bodies clock r" and "length (json_stringify b) \<le> body_limit"
    and "apiKeyMiddleware env (parsed_request (load_request key b) b) = Next"
  shows "app deps env swagger (load_request key b) = post_jobs (rd_zod deps) (rd_eventBus deps) (parsed_request (load_request key b) b)"
proof -
  from load_body_ok [OF assms(1,2)] obtain ms where b: "b = JObj ms" and ok: "json_ok b" by blast
  have "express_json (load_request key b) = Inr b"
    using assms(3) json_roundtrip [OF ok] b by (auto simp: express_json_def load_request_def load_headers_def)
  moreover have "path_segments (url_path (rr_target (load_request key b))) = Some [''jobs'']"
    by (simp add: load_request_def) code_simp
  moreover have "find_route ''post'' [''jobs''] (buildRouter (rd_redis deps)) = Some (ApiKey, EnqueueE, [])"
    by (simp add: buildRouter_def)
  moreover have "rr_method (load_request key b) = ''post''" by (simp add: load_request_def)
  ultimately show ?thesis using assms(4)
    by (simp add: app_def setupSwagger_def serve_def run_guard_def handler_def)
qed

text \<open>Every request of the load test is answered 201 with the id of a new job, pending in one of the five
  queues, unless a service fails: none is refused by the schema of the route.\<close>
theorem load_requests_accepted:
  assumes "backend exec view" and "zod_contract (rd_zod deps)" and "random_rolls r" and "b \<in> load_bodies clock r"
    and "length (json_stringify b) \<le> body_limit" and "apiKeyMiddleware env (parsed_request (load_request key b) b) = Next"
    and "run exec (app deps env swagger (load_request key b)) s = (x, s')"
  shows "\<exists>resp. x = Inr resp \<and> (reply_status resp = 500 \<or>
     (\<exists>i q p. q \<in> set QUEUE_NAMES \<and> p \<in> {''high'', ''normal'', ''low''} \<and> resp = Reply 201 (JObj [(''jobId'', JStr i)]) \<and>
        s_rows (view s) i = None \<and> map_option r_status (s_rows (view s') i) = Some Pending \<and>
        s_lists (view s') (targetList q p) = i # s_lists (view s) (targetList q p)))"
proof -
  let ?req = "parsed_request (load_request key b) b"
  note ok = load_body_ok [OF assms(3,4)]
  have body: "rq_body ?req = b" by (simp add: parsed_request_def)
  have run: "run exec (post_jobs (rd_zod deps) (rd_eventBus deps) ?req) s = (x, s')"
    using assms(7) by (simp add: load_request_served [OF assms(3-6)])
  obtain q where q: "q \<in> set QUEUE_NAMES" "o_queue (body_options b) = Some q" using ok(4) by (auto simp: body_options_def)
  have opts: "opt_delay (body_options b) = None" "opt_queue (body_options b) = q" "\<not> key_known (view s) (body_options b)"
    using ok(5,6) q by (simp_all add: body_options_def opt_delay_def opt_queue_def key_known_def)
  have prio: "opt_priority (body_options b) \<in> {''high'', ''normal'', ''low''}"
    by (cases "nullish (o_priority (body_options b)) Normal") (simp_all add: opt_priority_def)
  from post_jobs_correct [OF assms(1,2) run, unfolded body] ok(2) opts
  obtain resp where "x = Inr resp" and resp: "reply_status resp = 500 \<or> (\<exists>i p t. resp = Reply 201 (JObj [(''jobId'', JStr i)]) \<and>
      s_rows (view s) i = None \<and>
      job_data (view s') = job_data (spec_immediate i (nullish (json_string (member ''jobName'' b)) []) p (body_options b) t (view s)))"
    by auto
  from resp show ?thesis
  proof (elim disjE exE conjE)
    fix i p t
    assume i: "resp = Reply 201 (JObj [(''jobId'', JStr i)])" "s_rows (view s) i = None"
      and d: "job_data (view s') = job_data (spec_immediate i (nullish (json_string (member ''jobName'' b)) []) p (body_options b) t (view s))"
    have "map_option r_status (s_rows (view s') i) = Some Pending"
      "s_lists (view s') (targetList q (opt_priority (body_options b))) = i # s_lists (view s) (targetList q (opt_priority (body_options b)))"
      using job_dataD [OF d] opts(2) by (simp_all add: spec_immediate_def Let_def pending_row_def default_row_def)
    with \<open>x = Inr resp\<close> i q(1) prio show ?thesis by blast
  qed (use \<open>x = Inr resp\<close> in blast)
qed

definition some_rolls :: rolls where
  "some_rolls = \<lparr>rl_priority = 1 / 2, rl_userId = 0, rl_action = 1 / 2, rl_value = 0, rl_flag = 1 / 2, rl_tag = 1 / 2, rl_queue = 1 / 2\<rparr>"

lemma some_body:
  "burst 5 some_rolls = JObj [(''jobName'', JStr ''burst-5''),
     (''payload'', JObj [(''userId'', JNum (of_int 0)), (''action'', JStr ''generateReport''), (''timestamp'', JNum (of_int 5)),
        (''data'', JObj [(''value'', JNum (of_int 0)), (''flag'', JBool False), (''tags'', JArr [JStr ''load-test'', JStr ''batch-50''])])]),
     (''queue'', JStr ''notifications''), (''priority'', JStr ''normal'')]"
proof -
  have "int_str 5 = ''5''" "int_str 50 = ''50''" by code_simp+
  moreover have "floor_of 0 10000 = 0" "floor_of (1 / 2) 100 = 50" "floor_of (1 / 2) (Suc (Suc (Suc (Suc (Suc 0))))) = 2"
    by (simp_all add: floor_of_def)
  ultimately show ?thesis
    by (simp add: burst_def load_body_def randomPayload_def randomQueueName_def pick_def some_rolls_def JOB_NAMES_def QUEUE_NAMES_def)
qed

lemma some_body_short: "length (json_stringify (burst 5 some_rolls)) \<le> body_limit"
proof -
  have "int_str 5 = ''5''" "int_str 0 = ''0''" by code_simp+
  then have "length (json_stringify (burst 5 some_rolls)) \<le> 300"
    unfolding some_body by (simp add: quote_str_def esc_char_def)
  then show ?thesis by (simp add: body_limit_def)
qed

theorem load_requests_accepted_witness:
  "\<exists>x m resp. run (mem_exec no_faults) (app no_deps Map.empty (\<lambda>_. Reply 200 JNull) (load_request None (burst 5 some_rolls))) (mem_empty 5000) = (x, m) \<and>
     x = Inr resp \<and> (reply_status resp = 500 \<or> (\<exists>i. resp = Reply 201 (JObj [(''jobId'', JStr i)]) \<and> s_rows (mem_view m) i \<noteq> None))"
proof -
  obtain x m where run: "run (mem_exec no_faults) (app no_deps Map.empty (\<lambda>_. Reply 200 JNull) (load_request None (burst 5 some_rolls))) (mem_empty 5000) = (x, m)"
    by fastforce
  have "zod_contract (rd_zod no_deps)" by (simp add: no_deps_def demo_zod_ok)
  moreover have "random_rolls some_rolls" using is_decimal_of_int [of 0] by (simp add: random_rolls_def some_rolls_def)
  moreover have "apiKeyMiddleware Map.empty (parsed_request (load_request None (burst 5 some_rolls)) (burst 5 some_rolls)) = Next"
    by (simp add: apiKeyMiddleware_correct)
  moreover have "burst 5 some_rolls \<in> load_bodies 5 some_rolls" by (simp add: load_bodies_def)
  ultimately show ?thesis
    using load_requests_accepted [where env = Map.empty, OF mem_backend _ _ _ some_body_short _ run] run by fastforce
qed

end
