(* ===== verification/Worker_Process.thy ===== *)
theory Worker_Process
  imports Scheduler Janitor Config
begin

text \<open>
  The timers of a worker process: \<open>start\<close> and \<open>stop\<close> of \<^verbatim>\<open>worker/src/scheduler.ts\<close> and
  \<^verbatim>\<open>worker/src/janitor.ts\<close>, and how \<open>main\<close> and \<open>shutdown\<close> of \<^verbatim>\<open>worker/src/index.ts\<close> call them.

  The host fires a live interval any number of times; a tick it starts ends later, by itself.  What
  a tick does to the stores is \<open>scheduler_tick\<close> and \<open>janitor_tick\<close>; here only whether it runs counts.
\<close>

subsection \<open>Intervals of the host\<close>

record host =
  h_live :: "nat list"
  h_next :: nat

definition fresh_host :: host where
  "fresh_host = \<lparr>h_live = [], h_next = 0\<rparr>"

definition setInterval :: "host \<Rightarrow> nat \<times> host" where
  "setInterval h = (h_next h, h\<lparr>h_live := h_next h # h_live h, h_next := h_next h + 1\<rparr>)"

definition clearInterval :: "nat \<Rightarrow> host \<Rightarrow> host" where
  "clearInterval i h = h\<lparr>h_live := removeAll i (h_live h)\<rparr>"

lemmas interval_defs = fresh_host_def setInterval_def clearInterval_def

subsection \<open>The scheduler\<close>

record scheduler =
  sch_timer :: "nat option"
  sch_running :: bool
  sch_host :: host
  sch_ticks :: nat

definition fresh_scheduler :: scheduler where
  "fresh_scheduler = \<lparr>sch_timer = None, sch_running = False, sch_host = fresh_host, sch_ticks = 0\<rparr>"

definition scheduler_start :: "scheduler \<Rightarrow> scheduler" where
  "scheduler_start st =
     (if sch_running st then st
      else case setInterval (sch_host st) of (i, h) \<Rightarrow>
        st\<lparr>sch_running := True, sch_timer := Some i, sch_host := h\<rparr>)"

definition scheduler_stop :: "scheduler \<Rightarrow> scheduler" where
  "scheduler_stop st =
     (let st1 = st\<lparr>sch_running := False\<rparr>
      in case sch_timer st1 of
           None \<Rightarrow> st1
         | Some i \<Rightarrow> st1\<lparr>sch_host := clearInterval i (sch_host st1), sch_timer := None\<rparr>)"

text \<open>The callback: \<open>void this.tick()\<close>, whether or not a tick is under way.\<close>
definition scheduler_fires :: "scheduler \<Rightarrow> scheduler" where
  "scheduler_fires st = st\<lparr>sch_ticks := sch_ticks st + 1\<rparr>"

definition scheduler_tick_ends :: "scheduler \<Rightarrow> scheduler" where
  "scheduler_tick_ends st = st\<lparr>sch_ticks := sch_ticks st - 1\<rparr>"

inductive scheduler_step :: "scheduler \<Rightarrow> scheduler \<Rightarrow> bool" where
  SStart: "scheduler_step st (scheduler_start st)"
| SStop: "scheduler_step st (scheduler_stop st)"
| SFires: "h_live (sch_host st) \<noteq> [] \<Longrightarrow> scheduler_step st (scheduler_fires st)"
| SEnds: "0 < sch_ticks st \<Longrightarrow> scheduler_step st (scheduler_tick_ends st)"

lemmas scheduler_timer_defs = scheduler_start_def scheduler_stop_def scheduler_fires_def scheduler_tick_ends_def
  fresh_scheduler_def interval_defs Let_def

definition one_interval :: "scheduler \<Rightarrow> bool" where
  "one_interval st \<longleftrightarrow> (case sch_timer st of
     None \<Rightarrow> \<not> sch_running st \<and> h_live (sch_host st) = []
   | Some i \<Rightarrow> sch_running st \<and> h_live (sch_host st) = [i])"

lemma one_interval_step: "scheduler_step st st' \<Longrightarrow> one_interval st \<Longrightarrow> one_interval st'"
  by (induction rule: scheduler_step.induct) (auto simp: one_interval_def scheduler_timer_defs split: option.splits)

lemma one_interval_reach: "scheduler_step\<^sup>*\<^sup>* fresh_scheduler st \<Longrightarrow> one_interval st"
proof (induction rule: rtranclp_induct)
  case base
  show ?case by (simp add: one_interval_def fresh_scheduler_def fresh_host_def)
qed (rule one_interval_step)

text \<open>However often it is started and stopped, a scheduler has exactly one live interval while it is
  running and none while it is not; but its ticks are not exclusive: with a tick that takes longer
  than the interval any number of them is under way at once.\<close>
theorem scheduler_interval:
  assumes "scheduler_step\<^sup>*\<^sup>* fresh_scheduler st"
  shows "length (h_live (sch_host st)) = (if sch_running st then 1 else 0) \<and>
    h_live (sch_host (scheduler_stop st)) = [] \<and>
    (\<exists>st'. scheduler_step\<^sup>*\<^sup>* fresh_scheduler st' \<and> sch_ticks st' = n)"
proof -
  let ?s = "\<lambda>n. (scheduler_fires ^^ n) (scheduler_start fresh_scheduler)"
  have live: "h_live (sch_host (?s n)) \<noteq> []" and ticks: "sch_ticks (?s n) = n" for n
    by (induction n) (simp_all add: scheduler_timer_defs)
  have "scheduler_step\<^sup>*\<^sup>* fresh_scheduler (?s n)" for n
  proof (induction n)
    case 0
    show ?case using SStart [of fresh_scheduler] by simp
  next
    case (Suc n)
    from Suc SFires [OF live [of n]] show ?case by (simp add: rtranclp.rtrancl_into_rtrancl)
  qed
  then have "\<exists>st'. scheduler_step\<^sup>*\<^sup>* fresh_scheduler st' \<and> sch_ticks st' = n" using ticks by blast
  with one_interval_reach [OF assms] show ?thesis
    by (auto simp: one_interval_def scheduler_stop_def clearInterval_def Let_def split: option.splits)
qed

theorem scheduler_interval_witness:
  "length (h_live (sch_host (scheduler_start (scheduler_start fresh_scheduler)))) = 1 \<and>
   (\<exists>st'. scheduler_step\<^sup>*\<^sup>* fresh_scheduler st' \<and> sch_ticks st' = 7)"
proof -
  have "scheduler_step fresh_scheduler (scheduler_start fresh_scheduler)"
    "scheduler_step (scheduler_start fresh_scheduler) (scheduler_start (scheduler_start fresh_scheduler))"
    by (rule SStart)+
  then have "scheduler_step\<^sup>*\<^sup>* fresh_scheduler (scheduler_start (scheduler_start fresh_scheduler))"
    by (meson rtranclp.rtrancl_into_rtrancl rtranclp.rtrancl_refl)
  from scheduler_interval [OF this, of 7] show ?thesis by (simp add: scheduler_timer_defs)
qed

subsection \<open>The janitor\<close>

record janitor =
  jn_interval :: "nat option"
  jn_ticking :: bool
  jn_host :: host
  jn_ticks :: nat

definition fresh_janitor :: janitor where
  "fresh_janitor = \<lparr>jn_interval = None, jn_ticking = False, jn_host = fresh_host, jn_ticks = 0\<rparr>"

definition janitor_start :: "janitor \<Rightarrow> janitor" where
  "janitor_start st = (case setInterval (jn_host st) of (i, h) \<Rightarrow> st\<lparr>jn_interval := Some i, jn_host := h\<rparr>)"

definition janitor_stop :: "janitor \<Rightarrow> janitor" where
  "janitor_stop st = (case jn_interval st of
     None \<Rightarrow> st
   | Some i \<Rightarrow> st\<lparr>jn_host := clearInterval i (jn_host st), jn_interval := None\<rparr>)"

definition janitor_fires :: "janitor \<Rightarrow> janitor" where
  "janitor_fires st = (if jn_ticking st then st else st\<lparr>jn_ticking := True, jn_ticks := jn_ticks st + 1\<rparr>)"

text \<open>\<open>.catch(...).finally(...)\<close>: however the tick ends.\<close>
definition janitor_tick_ends :: "janitor \<Rightarrow> janitor" where
  "janitor_tick_ends st = st\<lparr>jn_ticking := False, jn_ticks := jn_ticks st - 1\<rparr>"

inductive janitor_event :: "janitor \<Rightarrow> janitor \<Rightarrow> bool" where
  JStart: "janitor_event st (janitor_start st)"
| JStop: "janitor_event st (janitor_stop st)"
| JFires: "h_live (jn_host st) \<noteq> [] \<Longrightarrow> janitor_event st (janitor_fires st)"
| JEnds: "0 < jn_ticks st \<Longrightarrow> janitor_event st (janitor_tick_ends st)"

lemmas janitor_timer_defs = janitor_start_def janitor_stop_def janitor_fires_def janitor_tick_ends_def
  fresh_janitor_def interval_defs

definition exclusive_tick :: "janitor \<Rightarrow> bool" where
  "exclusive_tick st \<longleftrightarrow> jn_ticks st = (if jn_ticking st then 1 else 0)"

lemma exclusive_step: "janitor_event st st' \<Longrightarrow> exclusive_tick st \<Longrightarrow> exclusive_tick st'"
  by (induction rule: janitor_event.induct) (auto simp: exclusive_tick_def janitor_timer_defs split: option.splits)

lemma leaked_interval:
  assumes "i \<in> set (h_live (jn_host st))" and "jn_interval st \<noteq> Some i"
  shows "i \<in> set (h_live (jn_host ((janitor_stop ^^ n) st)))"
proof -
  have "i \<in> set (h_live (jn_host ((janitor_stop ^^ n) st))) \<and> jn_interval ((janitor_stop ^^ n) st) \<noteq> Some i"
    using assms by (induction n) (auto simp: janitor_stop_def clearInterval_def split: option.splits)
  then show ?thesis ..
qed

text \<open>A janitor never has two ticks under way, however its interval fires; but a second \<open>start\<close> without
  \<open>stop\<close> leaves an interval that no number of stops clears.\<close>
theorem janitor_ticks_exclusive:
  assumes "janitor_event\<^sup>*\<^sup>* fresh_janitor st"
  shows "jn_ticks st \<le> 1 \<and> (jn_ticking st \<longleftrightarrow> jn_ticks st = 1) \<and>
    h_live (jn_host ((janitor_stop ^^ n) (janitor_start (janitor_start fresh_janitor)))) \<noteq> []"
proof -
  from assms have "exclusive_tick st"
  proof (induction rule: rtranclp_induct)
    case base
    show ?case by (simp add: exclusive_tick_def fresh_janitor_def)
  qed (rule exclusive_step)
  moreover have "0 \<in> set (h_live (jn_host ((janitor_stop ^^ n) (janitor_start (janitor_start fresh_janitor)))))"
    by (rule leaked_interval) (simp_all add: janitor_timer_defs)
  ultimately show ?thesis by (auto simp: exclusive_tick_def)
qed

theorem janitor_ticks_exclusive_witness:
  "janitor_event\<^sup>*\<^sup>* fresh_janitor (janitor_start fresh_janitor) \<and>
   h_live (jn_host (janitor_stop (janitor_start (janitor_start fresh_janitor)))) \<noteq> []"
proof -
  have "janitor_event\<^sup>*\<^sup>* fresh_janitor (janitor_start fresh_janitor)" by (rule r_into_rtranclp) (rule JStart)
  with janitor_ticks_exclusive [OF this, of 1] show ?thesis by simp
qed

subsection \<open>The process\<close>

record worker_process =
  wp_scheduler :: scheduler
  wp_janitor :: "janitor option"

text \<open>\<open>main\<close> starts the scheduler and, where it is enabled, the janitor.\<close>
definition boot :: "worker_config \<Rightarrow> worker_process" where
  "boot cfg = \<lparr>wp_scheduler = scheduler_start fresh_scheduler,
     wp_janitor = (if wc_janitorEnabled cfg then Some (janitor_start fresh_janitor) else None)\<rparr>"

text \<open>\<open>shutdown\<close> stops both before it waits for the worker.\<close>
definition shutdown :: "worker_process \<Rightarrow> worker_process" where
  "shutdown p = \<lparr>wp_scheduler = scheduler_stop (wp_scheduler p), wp_janitor = map_option janitor_stop (wp_janitor p)\<rparr>"

text \<open>The health endpoint is opened where the variable holds a positive number.\<close>
definition health_enabled :: "process_env \<Rightarrow> bool" where
  "health_enabled env = (case js_Number (nullish (env ''HEALTH_PORT'') ''0'') of NaN \<Rightarrow> False | Num n \<Rightarrow> 0 < n)"

definition live_intervals :: "worker_process \<Rightarrow> nat" where
  "live_intervals p = length (h_live (sch_host (wp_scheduler p))) +
     (case wp_janitor p of None \<Rightarrow> 0 | Some j \<Rightarrow> length (h_live (jn_host j)))"

inductive process_step :: "worker_process \<Rightarrow> worker_process \<Rightarrow> bool" where
  PFires: "h_live (sch_host (wp_scheduler p)) \<noteq> [] \<Longrightarrow> process_step p (p\<lparr>wp_scheduler := scheduler_fires (wp_scheduler p)\<rparr>)"
| PEnds: "0 < sch_ticks (wp_scheduler p) \<Longrightarrow> process_step p (p\<lparr>wp_scheduler := scheduler_tick_ends (wp_scheduler p)\<rparr>)"
| PJFires: "wp_janitor p = Some j \<Longrightarrow> h_live (jn_host j) \<noteq> [] \<Longrightarrow> process_step p (p\<lparr>wp_janitor := Some (janitor_fires j)\<rparr>)"
| PJEnds: "wp_janitor p = Some j \<Longrightarrow> 0 < jn_ticks j \<Longrightarrow> process_step p (p\<lparr>wp_janitor := Some (janitor_tick_ends j)\<rparr>)"
| PSignal: "process_step p (shutdown p)"

definition well_timed :: "worker_process \<Rightarrow> bool" where
  "well_timed p \<longleftrightarrow> one_interval (wp_scheduler p) \<and>
     (\<forall>j. wp_janitor p = Some j \<longrightarrow> exclusive_tick j \<and> h_live (jn_host j) = (case jn_interval j of None \<Rightarrow> [] | Some i \<Rightarrow> [i]))"

lemma well_timed_step: "process_step p p' \<Longrightarrow> well_timed p \<Longrightarrow> well_timed p'"
proof (induction rule: process_step.induct)
  case (PFires p)
  then show ?case using one_interval_step [OF SFires [OF PFires(1)]] by (simp add: well_timed_def)
next
  case (PEnds p)
  then show ?case using one_interval_step [OF SEnds [OF PEnds(1)]] by (simp add: well_timed_def)
next
  case (PJFires p j)
  then show ?case using exclusive_step [OF JFires [OF PJFires(2)]] by (simp add: well_timed_def janitor_fires_def)
next
  case (PJEnds p j)
  then show ?case using exclusive_step [OF JEnds [OF PJEnds(2)]] by (simp add: well_timed_def janitor_tick_ends_def)
next
  case (PSignal p)
  have "one_interval (scheduler_stop (wp_scheduler p))"
    using PSignal one_interval_step [OF SStop, of "wp_scheduler p"] by (simp add: well_timed_def)
  moreover have "exclusive_tick (janitor_stop j)" if "wp_janitor p = Some j" for j
    using PSignal exclusive_step [OF JStop, of j] that by (simp add: well_timed_def)
  moreover have "h_live (jn_host (janitor_stop j)) = []" "jn_interval (janitor_stop j) = None" if "wp_janitor p = Some j" for j
    using PSignal that by (auto simp: well_timed_def janitor_stop_def clearInterval_def split: option.splits)
  ultimately show ?case by (auto simp: well_timed_def shutdown_def)
qed

lemma well_timed_reach: "process_step\<^sup>*\<^sup>* (boot cfg) p \<Longrightarrow> well_timed p"
proof (induction rule: rtranclp_induct)
  case base
  show ?case by (simp add: boot_def well_timed_def scheduler_timer_defs janitor_timer_defs one_interval_def exclusive_tick_def)
qed (rule well_timed_step)

text \<open>A worker process has one live interval for its scheduler and, where the janitor is enabled, one for the
  janitor; once a signal was handled it has none, so no tick starts any more, while the ticks under
  way go on, of which the janitor has at most one.\<close>
theorem shutdown_quiesces:
  assumes "process_step\<^sup>*\<^sup>* (boot cfg) p"
  shows "live_intervals p \<le> (if wc_janitorEnabled cfg then 2 else 1) \<and> live_intervals (shutdown p) = 0 \<and>
    sch_ticks (wp_scheduler (shutdown p)) = sch_ticks (wp_scheduler p) \<and>
    (\<forall>j. wp_janitor (shutdown p) = Some j \<longrightarrow> jn_ticks j \<le> 1)"
proof -
  have "\<not> wc_janitorEnabled cfg \<longrightarrow> wp_janitor p = None"
    using assms by (induction rule: rtranclp_induct) (auto simp: boot_def shutdown_def elim: process_step.cases)
  with well_timed_reach [OF assms] show ?thesis
    by (cases "wp_janitor p"; cases "sch_timer (wp_scheduler p)")
      (auto simp: live_intervals_def shutdown_def well_timed_def one_interval_def exclusive_tick_def scheduler_stop_def
        janitor_stop_def clearInterval_def Let_def split: option.splits)
qed


definition cfg1 :: worker_config where
  "cfg1 = \<lparr>wc_redisUrl = ''redis://r'', wc_databaseUrl = ''postgres://p'', wc_queue = ''default'', wc_concurrency = Num 5,
     wc_workerId = ''w1'', wc_janitorEnabled = True, wc_janitorIntervalMs = Num 30000\<rparr>"

theorem shutdown_quiesces_witness:
  "live_intervals (boot cfg1) = 2 \<and> live_intervals (shutdown (boot cfg1)) = 0"
proof -
  have "live_intervals (boot cfg1) = 2"
    by (simp add: live_intervals_def boot_def cfg1_def scheduler_timer_defs janitor_timer_defs)
  with shutdown_quiesces [of cfg1 "boot cfg1"] show ?thesis by simp
qed

end
