(* ===== verification/Metrics.thy ===== *)
theory Metrics
  imports Js_Runtime
begin

text \<open>
  The metrics of \<^verbatim>\<open>server/src/metrics.ts\<close> as they are declared: name, help text, label names and kind.  The
  registry and the text it renders are \<^verbatim>\<open>prom-client\<close>; it throws where a call names a metric or labels
  that were not declared.
\<close>

datatype metric_kind = Counter | Gauge | Histogram "rat list"

record metric =
  mt_name :: string
  mt_help :: string
  mt_labelNames :: "string list"
  mt_kind :: metric_kind

definition jobsEnqueuedTotal :: metric where
  "jobsEnqueuedTotal = \<lparr>mt_name = ''nexusqueue_jobs_enqueued_total'', mt_help = ''Total number of jobs enqueued'',
     mt_labelNames = [''queue'', ''priority''], mt_kind = Counter\<rparr>"

definition jobsCompletedTotal :: metric where
  "jobsCompletedTotal = \<lparr>mt_name = ''nexusqueue_jobs_completed_total'', mt_help = ''Total number of jobs completed'',
     mt_labelNames = [''queue''], mt_kind = Counter\<rparr>"

definition jobsFailedTotal :: metric where
  "jobsFailedTotal = \<lparr>mt_name = ''nexusqueue_jobs_failed_total'', mt_help = ''Total number of jobs failed'',
     mt_labelNames = [''queue''], mt_kind = Counter\<rparr>"

definition jobsDlqTotal :: metric where
  "jobsDlqTotal = \<lparr>mt_name = ''nexusqueue_jobs_dlq_total'', mt_help = ''Total number of jobs sent to DLQ'',
     mt_labelNames = [''queue''], mt_kind = Counter\<rparr>"

definition jobsRetriedTotal :: metric where
  "jobsRetriedTotal = \<lparr>mt_name = ''nexusqueue_jobs_retried_total'', mt_help = ''Total number of jobs retried'',
     mt_labelNames = [''queue''], mt_kind = Counter\<rparr>"

definition queueDepth :: metric where
  "queueDepth = \<lparr>mt_name = ''nexusqueue_queue_depth'', mt_help = ''Current queue depth'',
     mt_labelNames = [''queue'', ''priority''], mt_kind = Gauge\<rparr>"

definition activeWorkers :: metric where
  "activeWorkers = \<lparr>mt_name = ''nexusqueue_active_workers'', mt_help = ''Number of active workers'',
     mt_labelNames = [''queue''], mt_kind = Gauge\<rparr>"

definition jobDurationSeconds :: metric where
  "jobDurationSeconds = \<lparr>mt_name = ''nexusqueue_job_duration_seconds'', mt_help = ''Job processing duration in seconds'',
     mt_labelNames = [''queue'', ''jobName''],
     mt_kind = Histogram [1 / 100, 5 / 100, 1 / 10, 1 / 2, 1, 5, 10, 30, 60]\<rparr>"

definition registered_metrics :: "metric list" where
  "registered_metrics = [jobsEnqueuedTotal, jobsCompletedTotal, jobsFailedTotal, jobsDlqTotal, jobsRetriedTotal,
     queueDepth, activeWorkers, jobDurationSeconds]"

lemmas metric_defs = jobsEnqueuedTotal_def jobsCompletedTotal_def jobsFailedTotal_def jobsDlqTotal_def
  jobsRetriedTotal_def queueDepth_def activeWorkers_def jobDurationSeconds_def

text \<open>An increment that the registry accepts: of a declared counter, with a value for each of its labels.\<close>
definition increment_accepted :: "string \<Rightarrow> string list \<Rightarrow> bool" where
  "increment_accepted n ls \<longleftrightarrow>
     list_ex (\<lambda>m. mt_name m = n \<and> mt_kind m = Counter \<and> length (mt_labelNames m) = length ls) registered_metrics"

lemma names_distinct: "distinct (map mt_name registered_metrics)"
  by (simp add: registered_metrics_def metric_defs)

lemma buckets_increase: "mt_kind jobDurationSeconds = Histogram bs \<Longrightarrow> sorted bs \<and> distinct bs"
  by (auto simp: jobDurationSeconds_def)

text \<open>The increments the program makes.\<close>
definition increment_made :: "string \<Rightarrow> string list \<Rightarrow> bool" where
  "increment_made n ls \<longleftrightarrow> n = mt_name jobsEnqueuedTotal \<and> length ls = 2 \<or> n = mt_name jobsRetriedTotal \<and> length ls = 1"

lemma made_accepted:
  assumes "increment_made n ls"
  shows "increment_accepted n ls"
proof -
  have "\<exists>m \<in> {jobsEnqueuedTotal, jobsRetriedTotal}. mt_name m = n \<and> mt_kind m = Counter \<and> length (mt_labelNames m) = length ls"
    using assms unfolding increment_made_def by (elim disjE) (simp_all add: jobsEnqueuedTotal_def jobsRetriedTotal_def)
  moreover have "{jobsEnqueuedTotal, jobsRetriedTotal} \<subseteq> set registered_metrics"
    by (simp add: registered_metrics_def)
  ultimately show ?thesis unfolding increment_accepted_def list_ex_iff by blast
qed

end
