(* ===== verification/System_Calls.thy ===== *)
theory System_Calls
  imports System Metrics
begin

text \<open>
  Which calls the programs of the system can make, whatever the answers: no operation marks a job
  failed, inserts a row that is not waiting, or, but for an enqueue, writes an idempotency key.
\<close>

subsection \<open>The calls of a program\<close>

text \<open>All calls a program can make, whatever they answer, are of a kind.\<close>
primrec calls_ok :: "(call \<Rightarrow> bool) \<Rightarrow> 'a prog \<Rightarrow> bool" where
  "calls_ok P (Ret a) = True"
| "calls_ok P (Throw e) = True"
| "calls_ok P (Call c k) = (P c \<and> (\<forall>r. calls_ok P (k r)))"

lemma calls_ok_mono: "calls_ok P p \<Longrightarrow> (\<And>c. P c \<Longrightarrow> R c) \<Longrightarrow> calls_ok R p"
  by (induction p) simp_all

lemma disc_calls_ok: "calls_ok P p \<Longrightarrow> (\<And>g c. P c \<Longrightarrow> ok g c) \<Longrightarrow> disc ok upd g p no_post"
  by (induction p arbitrary: g) simp_all

lemma calls_ok_await [intro!]: "calls_ok P p \<Longrightarrow> (\<And>a. calls_ok P (f a)) \<Longrightarrow> calls_ok P (await p f)"
  by (induction p) simp_all

lemma calls_ok_try_catch [intro!]: "calls_ok P p \<Longrightarrow> (\<And>e. calls_ok P (h e)) \<Longrightarrow> calls_ok P (try_catch p h)"
  by (induction p) simp_all

lemma calls_ok_branches [intro!]:
  "(c \<Longrightarrow> calls_ok P p) \<Longrightarrow> (\<not> c \<Longrightarrow> calls_ok P q) \<Longrightarrow> calls_ok P (if c then p else q)"
  "calls_ok P p \<Longrightarrow> (\<And>x. calls_ok P (f x)) \<Longrightarrow> calls_ok P (case m of None \<Rightarrow> p | Some x \<Rightarrow> f x)"
  "(\<And>a b. calls_ok P (g a b)) \<Longrightarrow> calls_ok P (case ab of (a, b) \<Rightarrow> g a b)"
  "(\<And>x. calls_ok P (h x)) \<Longrightarrow> calls_ok P (let x = y in h x)"
  "calls_ok P n \<Longrightarrow> (\<And>r. calls_ok P (k r)) \<Longrightarrow> calls_ok P (case num of NaN \<Rightarrow> n | Num r \<Rightarrow> k r)"
  by (simp_all add: Let_def split: option.split prod.split jsnum.split)

lemma calls_ok_seqp [intro!]: "calls_ok P p \<Longrightarrow> calls_ok P q \<Longrightarrow> calls_ok P (seqp p q)"
  by (auto simp: seqp_def)

lemma calls_ok_void [intro!]: "calls_ok P p \<Longrightarrow> calls_ok P (void p)"
  by (auto simp: void_def)

lemma calls_ok_forEach [intro!]: "(\<And>x. calls_ok P (f x)) \<Longrightarrow> calls_ok P (forEach xs f)"
  by (induction xs) auto

lemma calls_ok_call: "calls_ok P (call c) = P c"
  by (auto simp: call_def split: sum.splits)

lemma calls_ok_services [intro!]:
  "P (Redis c) \<Longrightarrow> calls_ok P (redis_unit c)" "P (Redis c) \<Longrightarrow> calls_ok P (redis_int c)"
  "P (Redis c) \<Longrightarrow> calls_ok P (redis_str c)" "P (Redis c) \<Longrightarrow> calls_ok P (redis_list c)"
  "P (Redis c) \<Longrightarrow> calls_ok P (redis_hash c)" "P (RedisMulti cs) \<Longrightarrow> calls_ok P (multi_exec cs)"
  "P (RedisEval k f) \<Longrightarrow> calls_ok P (redis_eval k f)" "P (Host Now) \<Longrightarrow> calls_ok P now"
  "P (Host NewUuid) \<Longrightarrow> calls_ok P uuidv4" "P (Host (Sleep ms)) \<Longrightarrow> calls_ok P (sleep ms)"
  "P (Host (RunHandler h x ctx)) \<Longrightarrow> calls_ok P (run_handler h x ctx)" "P (Host (CronNext ex)) \<Longrightarrow> calls_ok P (cron_next ex)"
  "P (Host (Inc n ls)) \<Longrightarrow> calls_ok P (inc_metric n ls)" "P (Pg (PgSelect i)) \<Longrightarrow> calls_ok P (pg_row i)"
  "P (Pg q) \<Longrightarrow> calls_ok P (pg_query q)"
  by (auto simp: redis_unit_def redis_int_def redis_str_def redis_list_def redis_hash_def multi_exec_def redis_eval_def
      now_def uuidv4_def sleep_def run_handler_def cron_next_def inc_metric_def pg_row_def pg_query_def
      calls_ok_call split: reply.splits)

subsection \<open>Kinds of calls\<close>

text \<open>The assignments of the \<open>mark\<close> functions that are called.\<close>
definition mark_ok :: "assign list \<Rightarrow> bool" where
  "mark_ok as \<longleftrightarrow> as = [SetStatus Active, StartedNow, IncAttempts] \<or> as = [SetStatus Completed, CompletedNow, ErrorNull] \<or>
     (\<exists>msg. as = [SetStatus Dlq, CompletedNow, SetError msg]) \<or>
     as = [SetStatus Pending, StartedNull, CompletedNull] \<or> as = [SetStatus Delayed, StartedNull, CompletedNull]"

fun stmt_ok :: "stmt \<Rightarrow> bool" where
  "stmt_ok (PgInsert i w) = ((r_status w = Pending \<or> r_status w = Delayed) \<and> r_attempts w = 0 \<and>
     r_started_at w = None \<and> r_completed_at w = None)"
| "stmt_ok (PgUpdate i as) = mark_ok as"
| "stmt_ok _ = True"

fun trail_ok :: "call \<Rightarrow> bool" where
  "trail_ok (Pg q) = stmt_ok q"
| "trail_ok _ = True"

text \<open>No operation but an enqueue writes an idempotency key.\<close>
fun writes_key :: "rcmd \<Rightarrow> bool" where
  "writes_key (SETEX k x ttl) \<longleftrightarrow> (\<exists>k'. k = idempotency_key k')"
| "writes_key _ \<longleftrightarrow> False"

text \<open>The lists of the queues are only pushed to and popped from.\<close>
fun cuts_queue :: "rcmd \<Rightarrow> bool" where
  "cuts_queue (LREM k n x) \<longleftrightarrow> (\<exists>q prio. k = targetList q prio)"
| "cuts_queue (DEL k) \<longleftrightarrow> (\<exists>q prio. k = targetList q prio)"
| "cuts_queue _ \<longleftrightarrow> False"

text \<open>What is published is an event of one of five types, with an error message or nothing added.\<close>
definition announced :: "string \<Rightarrow> (string \<times> json) list \<Rightarrow> bool" where
  "announced ty extra \<longleftrightarrow> ty \<in> {''job.created'', ''job.started'', ''job.completed'', ''job.dlq'', ''job.retried''} \<and>
     (extra = [] \<or> (\<exists>msg. extra = [(''errorMessage'', JStr msg)]))"

fun announces :: "rcmd \<Rightarrow> bool" where
  "announces (PUBLISH ch m) \<longleftrightarrow> ch = events_channel \<and> (\<exists>ev. m = event_text ev \<and> announced (e_type ev) (e_extra ev))"
| "announces _ \<longleftrightarrow> True"

abbreviation quiet_cmd :: "rcmd \<Rightarrow> bool" where
  "quiet_cmd c \<equiv> \<not> writes_key c \<and> \<not> cuts_queue c \<and> announces c"

fun quiet :: "call \<Rightarrow> bool" where
  "quiet (Redis c) \<longleftrightarrow> quiet_cmd c"
| "quiet (RedisMulti cs) \<longleftrightarrow> (\<forall>c \<in> set cs. quiet_cmd c)"
| "quiet (Host (Inc n ls)) \<longleftrightarrow> increment_made n ls"
| "quiet c \<longleftrightarrow> trail_ok c"

lemma quiet_trail: "quiet c \<Longrightarrow> trail_ok c"
  by (cases c) simp_all

lemmas increments = increment_made_def metric_defs

abbreviation tidy :: "'a prog \<Rightarrow> bool" where
  "tidy \<equiv> calls_ok quiet"

subsection \<open>The operations\<close>

lemma cronDef_no_queue [simp]: "cronDef_key c \<noteq> targetList q p" "targetList q p \<noteq> cronDef_key c"
  by (simp_all add: key_defs targetList_def)

lemma tidy_dao [simp, intro]:
  "tidy (insertPendingJob i q n p ma k)" "tidy (insertDelayedJob i q n p ma t pr)" "tidy (markJobActive i)"
  "tidy (markJobCompleted i)" "tidy (markJobDlq i msg)" "tidy (markJobPendingForRetry i)" "tidy (markJobDelayed i)"
  "tidy (getJob i)"
  by (auto simp: dao_defs getJob_def default_row_def mark_ok_def)

lemma announces_event: "announced (e_type ev) (e_extra ev) \<Longrightarrow> announces (PUBLISH events_channel (event_text ev))"
  by auto

lemma tidy_publish [simp, intro]:
  "announced ty x \<Longrightarrow> tidy (publish_quietly ty i n q x)" "announced (e_type e) (e_extra e) \<Longrightarrow> tidy (publish_event e)"
  by (auto simp: publish_quietly_def publish_event_def intro!: announces_event simp del: announces.simps)

lemma announced_simps [simp]:
  "announced ''job.created'' []" "announced ''job.started'' []" "announced ''job.completed'' []" "announced ''job.retried'' []"
  "announced ''job.dlq'' [(''errorMessage'', JStr msg)]"
  by (simp_all add: announced_def)

lemma tidy_checkLimit [simp, intro]: "tidy (checkLimitFallback q c)"
  by (auto simp: checkLimitFallback_def)

lemma tidy_settle [simp, intro]: "tidy (handleFailure w i msg)" "tidy (complete w i)"
  by (auto simp: handleFailure_def complete_def)

lemma tidy_execute [simp, intro]: "tidy (execute w i n q h)"
  by (auto simp: execute_def invoke_def)

lemma tidy_processOne [simp, intro]: "tidy (processOne w i)"
  by (auto simp: processOne_def push_back_def)

lemma tidy_pull_first [simp, intro]: "tidy (pull_first q d ps)"
  by (induction ps) auto

lemma tidy_work [simp, intro]: "tidy (pullJobNonBlocking w n)" "tidy (pullJob w n)" "tidy (work_on w x)"
  by (auto simp: pullJobNonBlocking_def pullJob_def work_on_def)

lemma tidy_promote [simp, intro]: "tidy (promote_job q i)" "tidy (promote_queue t q)" "tidy promoteDelayedJobs"
  by (auto simp: promote_job_def promote_queue_def promoteDelayedJobs_def)

lemma tidy_enqueue_cron [simp, intro]: "tidy (enqueue_cron c d)"
  unfolding enqueue_cron_def insert_cron_row_def by (auto simp: default_row_def)

lemma tidy_fire [simp, intro]: "tidy (fire_cron c)"
  by (auto simp: fire_cron_def)

lemma tidy_tick [simp, intro]: "tidy fireCronJobs" "tidy scheduler_tick"
  by (auto simp: fireCronJobs_def scheduler_tick_def)

lemma tidy_cron [simp, intro]: "tidy (addJob d)" "tidy (removeJob c)"
  by (auto simp: addJob_def removeJob_def)

lemma tidy_janitor [simp, intro]: "tidy (requeue_orphan i)" "tidy (check_worker w)" "tidy janitor_tick"
  by (auto simp: requeue_orphan_def check_worker_def janitor_tick_def)

lemma tidy_retry [simp, intro]: "tidy (publish_retried bus i n q)" "tidy (retry_job bus i)"
  by (auto simp: retry_job_def or_next_def publish_retried_def incrementRetried_def increments)

lemma tidy_requeue_all [simp, intro]: "tidy (requeue_one bus q i)" "tidy (requeue_all bus q is n m)"
proof -
  show "tidy (requeue_one bus q i)" for i by (auto simp: requeue_one_def publish_retried_def)
  then show "tidy (requeue_all bus q is n m)"
    by (induction "is" arbitrary: n m) (auto)
qed

lemma tidy_requeue [simp, intro]: "tidy (requeue_dlq bus q b)"
  by (auto simp: requeue_dlq_def or_next_def)

lemma tidy_start_stop [simp, intro]:
  "tidy (start_worker w ws)" "tidy (stop_begin w ws)" "tidy (stop_finish w ws)" "tidy (writeHeartbeat w n)"
  by (auto simp: start_worker_def stop_begin_def stop_finish_def writeHeartbeat_def)

text \<open>An enqueue writes a key, but only after rows that are as they should be.\<close>
lemma trail_enqueue: "calls_ok trail_ok (enqueue bus n p opts)"
  by (auto simp: enqueue_defs default_row_def)

lemma tidy_op: "(\<And>bus n p opts. x \<noteq> OEnqueue bus n p opts) \<Longrightarrow> tidy (op_prog x)"
  by (cases x) auto

lemma trail_op: "calls_ok trail_ok (op_prog x)"
proof (cases x)
  case (OEnqueue bus n p opts)
  then show ?thesis by (auto intro: trail_enqueue)
next
qed (rule calls_ok_mono [OF tidy_op quiet_trail]; simp)+

subsection \<open>Invariants from the calls\<close>

lemma calls_ok_step:
  assumes "pool_step exec P (ps, s) (qs, t)" and "\<And>p. p \<in> P \<union> set ps \<Longrightarrow> calls_ok C p"
  shows "\<And>p. p \<in> P \<union> set qs \<Longrightarrow> calls_ok C p"
  using assms(1)
proof cases
  case (Step n c k r)
  then have "calls_ok C (Call c k)" using assms(2) [of "ps ! n"] nth_mem by force
  then show "calls_ok C p" if "p \<in> P \<union> set qs" for p
    using that assms(2) Step(1) set_update_subset_insert [of ps n "k r"] by auto
qed (use assms(2) in auto)

text \<open>What every call of a kind keeps, every run of programs that make only such calls keeps.\<close>
lemma calls_invariant:
  assumes "backend exec view" and "pool_reach exec P (ps, s) (qs, t)" and "\<And>p. p \<in> P \<union> set ps \<Longrightarrow> calls_ok C p" and "I (view s)"
    and "\<And>c v x. I v \<Longrightarrow> C c \<Longrightarrow> allowed c v x \<Longrightarrow> I (effect c x v)" and "\<And>c v. I v \<Longrightarrow> I (fail_effect c v)"
  shows "I (view t)" and "\<And>p. p \<in> P \<union> set qs \<Longrightarrow> calls_ok C p"
proof -
  have "I (view t) \<and> (\<forall>p \<in> P \<union> set qs. calls_ok C p)"
    using assms(2)
  proof (induction "(qs, t)" arbitrary: qs t rule: rtranclp_induct)
    case base
    then show ?case using assms(3,4) by blast
  next
    case (step y)
    obtain ps' s' where y: "y = (ps', s')" by fastforce
    note IH = step(3) [OF y]
    have "I (view t)" using step(2) unfolding y
    proof cases
      case (Step n c k r)
      then have c: "C c" using IH nth_mem by force
      show ?thesis
      proof (cases r)
        case (Inl e)
        then show ?thesis using backend.exec_fail [OF assms(1)] Step(4) assms(6) IH by metis
      next
        case (Inr x)
        then show ?thesis using backend.exec_ok [OF assms(1)] Step(4) assms(5) [OF _ c] IH by metis
      qed
    qed (use IH in simp)
    moreover have "\<forall>p \<in> P \<union> set qs. calls_ok C p"
      using calls_ok_step [of exec P ps' s' qs t C] step(2) y IH by blast
    ultimately show ?case ..
  qed
  then show "I (view t)" and "\<And>p. p \<in> P \<union> set qs \<Longrightarrow> calls_ok C p" by blast+
qed

end
