(* ===== verification/Metrics_Correct.thy ===== *)
theory Metrics_Correct
  imports System_Calls
begin

text \<open>
  The counters of the server: which are ever incremented, and that the registry accepts every increment.
\<close>

fun counts_ok :: "call \<Rightarrow> bool" where
  "counts_ok (Host (Inc n ls)) \<longleftrightarrow> increment_made n ls"
| "counts_ok _ \<longleftrightarrow> True"

lemma quiet_counts: "quiet c \<Longrightarrow> counts_ok c"
  by (cases c rule: counts_ok.cases) auto

lemma counts_enqueue [simp, intro]: "calls_ok counts_ok (enqueue bus n p opts)"
  by (auto simp: enqueue_defs)

lemma counts_post [simp, intro]: "calls_ok counts_ok (post_jobs zp bus req)"
  by (auto simp: post_jobs_def or_next_def incrementEnqueued_def increments split: sum.splits)

lemma counts_op: "calls_ok counts_ok (op_prog x)"
proof (cases x)
  case (OEnqueue bus n p opts)
  then show ?thesis by auto
next
qed (rule calls_ok_mono [OF tidy_op quiet_counts]; simp)+

text \<open>The system with the HTTP side of an enqueue, which counts it.\<close>
definition counting_pool :: "unit prog set" where
  "counting_pool = range op_prog \<union> {void (post_jobs zp bus req) | zp bus req. True}"

definition counted_since :: "store \<Rightarrow> store \<Rightarrow> bool" where
  "counted_since v0 v \<longleftrightarrow> (\<forall>(n, ls) \<in> set (s_metrics v) - set (s_metrics v0). increment_made n ls)"

lemma counted_step:
  assumes "counted_since v0 v" and "counts_ok c" and "allowed c v x"
  shows "counted_since v0 (effect c x v)"
proof (cases c)
  case (Redis rc)
  have "s_metrics (redis_effect rc v) = s_metrics v" by (cases "(rc, v)" rule: redis_effect.cases) (auto simp: Let_def)
  with assms(1) show ?thesis by (simp add: Redis counted_since_def)
next
  case (RedisMulti cs)
  have "s_metrics (redis_effect rc u) = s_metrics u" for rc u by (cases "(rc, u)" rule: redis_effect.cases) (auto simp: Let_def)
  then have "s_metrics (fold redis_effect cs v) = s_metrics v" by (induction cs arbitrary: v) simp_all
  with assms(1) show ?thesis by (simp add: RedisMulti counted_since_def)
next
  case (Pg q)
  with assms(1) show ?thesis by (cases q) (auto simp: counted_since_def)
next
  case (Host h)
  with assms show ?thesis by (cases "(h, x, v)" rule: host_effect.cases) (auto simp: counted_since_def)
qed (use assms in \<open>auto simp: counted_since_def script_effect_def split: option.splits\<close>)

lemma fail_metrics [simp]: "s_metrics (fail_effect c v) = s_metrics v"
proof (cases c)
  case (Host h)
  then show ?thesis by (cases h) simp_all
qed simp_all

text \<open>Of the eight metrics that are declared the program ever touches two, the counters of enqueued and of
  retried jobs, and every increment is one the registry accepts: of a declared counter, with a
  value for each of its labels.\<close>
theorem increments_accepted:
  assumes "backend exec view" and "pool_reach exec counting_pool ([], s) (ps, t)"
    and "(n, ls) \<in> set (s_metrics (view t))" and "(n, ls) \<notin> set (s_metrics (view s))"
  shows "increment_accepted n ls \<and> n \<in> {mt_name jobsEnqueuedTotal, mt_name jobsRetriedTotal}"
proof -
  have "calls_ok counts_ok p" if "p \<in> counting_pool \<union> set []" for p
    using that counts_op by (auto simp: counting_pool_def)
  moreover have "counted_since (view s) (view s)" by (simp add: counted_since_def)
  ultimately have "counted_since (view s) (view t)"
    by (rule calls_invariant(1) [OF assms(1,2)]) (auto intro: counted_step, simp add: counted_since_def)
  with assms(3,4) have "increment_made n ls" by (auto simp: counted_since_def)
  then show ?thesis using made_accepted by (auto simp: increment_made_def)
qed


subsection \<open>A repeated request\<close>

definition keyed_request :: request where
  "keyed_request = \<lparr>rq_authorization = None, rq_xApiKey = None, rq_query = Map.empty,
     rq_body = JObj [(''jobName'', JStr ''greet''), (''payload'', JNull), (''idempotencyKey'', JStr ''k'')]\<rparr>"

text \<open>A request that is repeated with its idempotency key makes one job and is counted twice.\<close>
theorem repeated_request_counted:
  "\<exists>r m. run (mem_exec no_faults) (seqp (post_jobs (\<lambda>_. Inr) False keyed_request) (post_jobs (\<lambda>_. Inr) False keyed_request)) (mem_empty 5000) = (r, m) \<and>
     length (m_rows m) = 1 \<and> s_metrics (mem_view m) = replicate 2 (mt_name jobsEnqueuedTotal, [''default'', ''normal''])"
  by (simp add: run_eval post_jobs_def or_next_def keyed_request_def body_options_def enqueue_defs opt_delay_def incrementEnqueued_def
      jobsEnqueuedTotal_def numeral_2_eq_2 key_defs opt_queue_def opt_priority_def opt_maxAttempts_def cong: run_congs)
definition posted :: mem where
  "posted = snd (run (mem_exec no_faults) (post_jobs (\<lambda>_. Inr) False keyed_request) (mem_empty 5000))"

lemma posted_metrics: "s_metrics (mem_view posted) = [(mt_name jobsEnqueuedTotal, [''default'', ''normal''])]"
  by (simp add: posted_def run_eval post_jobs_def or_next_def keyed_request_def body_options_def enqueue_defs opt_delay_def incrementEnqueued_def
      jobsEnqueuedTotal_def key_defs opt_queue_def opt_priority_def opt_maxAttempts_def cong: run_congs)

theorem increments_accepted_witness:
  "(''nexusqueue_jobs_enqueued_total'', [''default'', ''normal'']) \<in> set (s_metrics (mem_view posted)) \<and>
   increment_accepted ''nexusqueue_jobs_enqueued_total'' [''default'', ''normal'']"
proof -
  let ?p = "void (post_jobs (\<lambda>_. Inr) False keyed_request)"
  have "?p \<in> counting_pool" by (auto simp: counting_pool_def)
  then have "pool_reach (mem_exec no_faults) counting_pool ([], mem_empty 5000) ([?p], mem_empty 5000)"
    using pool_spawn [of "[?p]" counting_pool "mem_exec no_faults" "[]" "mem_empty 5000"] by simp
  moreover obtain q where "pool_reach (mem_exec no_faults) counting_pool ([?p], mem_empty 5000) ([?p][0 := q], posted)"
    using pool_run [of 0 "[?p]" ?p "mem_exec no_faults" counting_pool "mem_empty 5000"] by (auto simp: posted_def)
  ultimately have "pool_reach (mem_exec no_faults) counting_pool ([], mem_empty 5000) ([q], posted)" by simp
  from increments_accepted [OF mem_backend this, of "mt_name jobsEnqueuedTotal" "[''default'', ''normal'']"] posted_metrics
  show ?thesis by (simp add: mem_empty_def) (simp add: jobsEnqueuedTotal_def)
qed

end
