(* ===== verification/Audit_Trail.thy ===== *)
theory Audit_Trail
  imports System_Calls
begin

text \<open>
  The table of jobs as an audit trail: what every row says about its job at any time, and that no
  row is lost or rewritten, under any interleaving of the whole system (theory \<open>System\<close>).

  The discipline is on the statements alone: every program inserts waiting rows without attempts
  and updates by the five \<open>mark\<close> functions it calls; \<open>markJobFailed\<close> is called by none.
\<close>

subsection \<open>Consistent rows\<close>

text \<open>The time stamps and the error of a row agree with its status.\<close>
definition row_consistent :: "job_row \<Rightarrow> bool" where
  "row_consistent w \<longleftrightarrow> 0 \<le> r_attempts w \<and>
     (case r_status w of
        Pending \<Rightarrow> r_started_at w = None \<and> r_completed_at w = None
      | Delayed \<Rightarrow> r_started_at w = None \<and> r_completed_at w = None
      | Active \<Rightarrow> r_started_at w \<noteq> None \<and> 0 < r_attempts w
      | Completed \<Rightarrow> r_completed_at w \<noteq> None \<and> r_error_message w = None
      | Dlq \<Rightarrow> r_completed_at w \<noteq> None \<and> r_error_message w \<noteq> None
      | Failed \<Rightarrow> False)"

text \<open>What a row may become: its identity stays and its attempts are not taken back.\<close>
definition row_extends :: "job_row \<Rightarrow> job_row \<Rightarrow> bool" where
  "row_extends w w' \<longleftrightarrow> row_identity w' = row_identity w \<and> r_attempts w \<le> r_attempts w'"

definition trail_kept :: "store \<Rightarrow> store \<Rightarrow> bool" where
  "trail_kept v0 v \<longleftrightarrow> (\<forall>i w. s_rows v i = Some w \<longrightarrow> row_consistent w) \<and>
     (\<forall>i w. s_rows v0 i = Some w \<longrightarrow> (\<exists>w'. s_rows v i = Some w' \<and> row_extends w w'))"

lemma mark_consistent:
  "mark_ok as \<Longrightarrow> row_consistent w \<Longrightarrow> row_consistent (fold (apply_assign t) as w)"
  "mark_ok as \<Longrightarrow> r_attempts w \<le> r_attempts (fold (apply_assign t) as w)"
  by (auto simp: mark_ok_def row_consistent_def split: job_status.splits)

lemma mark_extends: "mark_ok as \<Longrightarrow> row_extends w0 w \<Longrightarrow> row_extends w0 (fold (apply_assign t) as w)"
  using mark_consistent(2) [of as w t] by (simp add: row_extends_def fold_assign_identity)

lemma trail_step:
  assumes "trail_ok c" and "allowed c v x" and "trail_kept v0 v"
  shows "trail_kept v0 (effect c x v)"
proof (cases c)
  case (Pg q)
  show ?thesis
  proof (cases q)
    case (PgInsert i w)
    have free: "s_rows v i = None" and new: "row_consistent (w\<lparr>r_created_at := s_clock v\<rparr>)"
      using assms(1,2) by (auto simp: Pg PgInsert row_consistent_def)
    have "s_rows v0 i = None" using assms(3) free by (cases "s_rows v0 i") (fastforce simp: trail_kept_def)+
    then have "j \<noteq> i" if "s_rows v0 j = Some w0" for j w0 using that by auto
    with assms(3) new show ?thesis by (simp add: Pg PgInsert trail_kept_def)
  next
    case (PgUpdate i as)
    with assms show ?thesis by (fastforce simp: Pg trail_kept_def mark_consistent(1) mark_extends)
  qed (use assms in \<open>auto simp: Pg\<close>)
next
  case (Host h)
  with assms show ?thesis by (cases "(h, x, v)" rule: host_effect.cases) (auto simp: trail_kept_def)
qed (use assms in \<open>auto simp: trail_kept_def script_effect_def split: option.splits\<close>)

lemma trail_fail: "trail_kept v0 v \<Longrightarrow> trail_kept v0 (fail_effect c v)"
  by (simp add: trail_kept_def)

text \<open>A program remembers whether it has read a failed row: by the trail it never has.\<close>
definition saw_failed :: "bool \<Rightarrow> call \<Rightarrow> err + reply \<Rightarrow> bool" where
  "saw_failed g c r = (g \<or> (case (c, r) of (Pg (PgSelect i), Inr (RRow (Some w))) \<Rightarrow> r_status w = Failed | _ \<Rightarrow> False))"

definition trail_seen :: "store \<Rightarrow> bool list \<Rightarrow> store \<Rightarrow> bool" where
  "trail_seen v0 gs v \<longleftrightarrow> trail_kept v0 v \<and> True \<notin> set gs"

lemma never_failed: "trail_kept v0 v \<Longrightarrow> s_rows v i = Some w \<Longrightarrow> r_status w \<noteq> Failed"
  unfolding trail_kept_def row_consistent_def by force

lemma saw_nothing:
  assumes "trail_kept v0 v" and "allowed c v x"
  shows "saw_failed False c (Inr x) = False"
proof (cases c)
  case (Pg q)
  then show ?thesis
    using assms by (cases q) (auto simp: saw_failed_def split: option.splits dest: never_failed [OF assms(1)])
qed (simp_all add: saw_failed_def)

lemma trail_discipline:
  "backend exec view \<Longrightarrow> discipline exec view (\<lambda>_. trail_ok) saw_failed False (trail_seen v0)"
proof (intro discipline.intro discipline_axioms.intro)
  fix gs v n c x
  assume J: "trail_seen v0 gs v" and n: "n < length gs" and "trail_ok c" and x: "allowed c v x"
  then have "gs ! n = False" by (metis nth_mem trail_seen_def)
  with J saw_nothing [OF _ x] have "saw_failed (gs ! n) c (Inr x) = False" by (auto simp: trail_seen_def)
  with J \<open>trail_ok c\<close> x show "trail_seen v0 (gs[n := saw_failed (gs ! n) c (Inr x)]) (effect c x v)"
    by (auto simp: trail_seen_def trail_step dest: set_update_subset_insert [THEN subsetD])
next
  fix gs v n c e
  assume J: "trail_seen v0 gs v" and n: "n < length gs"
  then have "gs ! n = False" by (metis nth_mem trail_seen_def)
  then have "saw_failed (gs ! n) c (Inl e) = False" by (simp add: saw_failed_def split: call.splits stmt.splits)
  with J show "trail_seen v0 (gs[n := saw_failed (gs ! n) c (Inl e)]) (fail_effect c v)"
    by (auto simp: trail_seen_def trail_fail dest: set_update_subset_insert [THEN subsetD])
qed (auto simp: trail_seen_def)

interpretation trail: discipline "mem_exec faults" mem_view "\<lambda>_. trail_ok" saw_failed False "trail_seen v0" for faults v0
  by (rule trail_discipline [OF mem_backend])

subsection \<open>The trail\<close>

lemma trail_refl: "(\<And>i w. s_rows v i = Some w \<Longrightarrow> row_consistent w) \<Longrightarrow> trail_kept v v"
  by (auto simp: trail_kept_def row_extends_def)

lemma trail_reach:
  assumes "backend exec view" and "pool_reach exec P (ps, s) (qs, t)" and "\<And>p. p \<in> P \<union> set ps \<Longrightarrow> calls_ok trail_ok p"
    and "\<And>i w. s_rows (view s) i = Some w \<Longrightarrow> row_consistent w"
  shows "trail_kept (view s) (view t)" and "\<And>p. p \<in> P \<union> set qs \<Longrightarrow> calls_ok trail_ok p"
  by (rule calls_invariant [OF assms(1-3) trail_refl [OF assms(4)]]; (rule trail_step trail_fail)?; assumption)+

text \<open>C2: Whatever the operations of the system do to it, in any interleaving and with any failures, a row
  once inserted stays for good, with its queue, name, payload and creation time, and its attempts
  are never taken back; at every moment its time stamps and error agree with its status, and its
  status is never \<open>failed\<close>.\<close>
theorem audit_trail:
  assumes "backend exec view" and "\<And>i w. s_rows (view s) i = Some w \<Longrightarrow> row_consistent w"
    and "pool_reach exec (range op_prog) ([], s) (ps, t)" and "pool_reach exec (range op_prog) (ps, t) (qs, u)"
    and "s_rows (view t) i = Some w"
  shows "row_consistent w \<and> (\<exists>w'. s_rows (view u) i = Some w' \<and> row_consistent w' \<and> row_extends w w')"
proof -
  have ops: "calls_ok trail_ok p" if "p \<in> range op_prog \<union> set []" for p using that trail_op by auto
  have "trail_kept (view s) (view t)" by (rule trail_reach(1) [OF assms(1,3) ops assms(2)])
  then have rows: "row_consistent w" if "s_rows (view t) i = Some w" for i w
    using that by (auto simp: trail_kept_def)
  have "calls_ok trail_ok p" if "p \<in> range op_prog \<union> set ps" for p
    by (rule trail_reach(2) [OF assms(1,3) ops assms(2) that])
  then have "trail_kept (view t) (view u)" by (rule trail_reach(1) [OF assms(1,4) _ rows])
  with rows [OF assms(5)] assms(5) show ?thesis unfolding trail_kept_def by blast
qed

lemma enqueue_at_row: "s_rows (mem_view (snd (enqueue_at mem0 no_options (Some JNull)))) ''u'' \<noteq> None"
  by (simp add: enqueue_at_def run_eval enqueue_defs opt_delay_def no_options_def cong: run_congs)

theorem audit_trail_witness:
  "\<exists>w. s_rows (mem_view (snd (enqueue_at mem0 no_options (Some JNull)))) ''u'' = Some w \<and> row_consistent w"
proof -
  let ?m = "snd (enqueue_at mem0 no_options (Some JNull))"
  obtain q where q: "pool_reach (mem_exec no_faults) (range op_prog) ([], mem0) ([q], ?m)" using enqueue_pool by blast
  have empty: "s_rows (mem_view mem0) i = Some w \<Longrightarrow> row_consistent w" for i w by (simp add: mem_empty_def)
  show ?thesis using enqueue_at_row audit_trail [OF mem_backend empty q rtranclp.rtrancl_refl] by auto
qed

end
