(* ===== verification/Smoke_Test.thy ===== *)
theory Smoke_Test
  imports Audit_Trail
begin

text \<open>
  \<^verbatim>\<open>examples/smoke.ts\<close>: the end-to-end script submits three jobs, one of which throws, waits until each is
  completed or failed or ten seconds are over, and passes if two are completed and one is failed.

  The worker it starts is an operation of the pool it runs in (theory \<open>System\<close>).  The loop takes
  the number of its turns as fuel.
\<close>

definition QUEUE :: string where
  "QUEUE = ''smoke''"

definition smoke_options :: enqueue_options where
  "smoke_options = no_options\<lparr>o_queue := Some QUEUE\<rparr>"

text \<open>\<open>Promise.all(ids.map((id) => getJob(pg, id)))\<close>.\<close>
primrec get_all :: "string list \<Rightarrow> job option list prog" where
  "get_all [] = Ret []"
| "get_all (i # is) = await (getJob i) (\<lambda>j. await (get_all is) (\<lambda>js. Ret (j # js)))"

definition allTerminal :: "job option list \<Rightarrow> bool" where
  "allTerminal rows \<longleftrightarrow> list_all (\<lambda>r. case r of None \<Rightarrow> False | Some j \<Rightarrow> j_status j = Completed \<or> j_status j = Failed) rows"

text \<open>The loop; \<open>False\<close> where its fuel is used up.\<close>
primrec poll :: "nat \<Rightarrow> string list \<Rightarrow> int \<Rightarrow> bool prog" where
  "poll 0 ids deadline = Ret False"
| "poll (Suc n) ids deadline = await now (\<lambda>t.
     if t < deadline
     then await (get_all ids) (\<lambda>rows.
       if allTerminal rows then Ret True else seqp (sleep (Num 200)) (poll n ids deadline))
     else Ret True)"

definition with_status :: "job_status \<Rightarrow> job option list \<Rightarrow> nat" where
  "with_status st finals = length (filter (\<lambda>r. case r of None \<Rightarrow> False | Some j \<Rightarrow> j_status j = st) finals)"

datatype smoke_end = Polling | PASSED | FAILED nat nat

definition smoke :: "nat \<Rightarrow> smoke_end prog" where
  "smoke fuel =
     await (enqueue False ''greet'' (Some (JObj [(''name'', JStr ''Ada'')])) smoke_options) (\<lambda>id1.
     await (enqueue False ''greet'' (Some (JObj [(''name'', JStr ''Linus'')])) smoke_options) (\<lambda>id2.
     await (enqueue False ''boom'' (Some (JObj [])) smoke_options) (\<lambda>id3.
     let ids = [id1, id2, id3]
     in await now (\<lambda>t.
        await (poll fuel ids (t + 10000)) (\<lambda>left.
        if \<not> left then Ret Polling
        else seqp (void (get_all ids))
          (await (get_all ids) (\<lambda>finals.
           let completed = with_status Completed finals; failed = with_status Failed finals
           in Ret (if completed \<noteq> 2 \<or> failed \<noteq> 1 then FAILED completed failed else PASSED))))))))"

subsection \<open>The test cannot pass\<close>

abbreviation trails :: "bool \<Rightarrow> 'a prog \<Rightarrow> (err + 'a \<Rightarrow> bool \<Rightarrow> bool) \<Rightarrow> bool" where
  "trails g p Q \<equiv> disc (\<lambda>_. trail_ok) saw_failed g p Q"

lemma trails_calls: "calls_ok trail_ok p \<Longrightarrow> (\<And>r h. Q r h) \<Longrightarrow> trails g p Q"
  by (rule disc_mono [OF disc_calls_ok])

lemma calls_get_all [simp, intro]: "calls_ok trail_ok (get_all is)"
  by (induction "is") (auto simp: getJob_def)

lemma calls_poll [simp, intro]: "calls_ok trail_ok (poll n ids d)"
  by (induction n) auto

lemma trails_await:
  "calls_ok trail_ok p \<Longrightarrow> (\<And>e h. Q (Inl e) h) \<Longrightarrow> (\<And>a h. trails h (f a) Q) \<Longrightarrow> trails g (await p f) Q"
  unfolding disc_await by (rule trails_calls) (auto simp: then_disc_def split: sum.splits)

text \<open>A failed job among the answers has been seen.\<close>
lemma trails_getJob:
  assumes "\<And>e h. Q (Inl e) h" and "\<And>j h. (g \<longrightarrow> h) \<Longrightarrow> (\<forall>x. j = Some x \<longrightarrow> j_status x = Failed \<longrightarrow> h) \<Longrightarrow> Q (Inr j) h"
  shows "trails g (getJob i) Q"
  by (auto simp: getJob_def pg_row_def disc_call then_disc_def saw_failed_def job_of_row_def assms split: reply.splits option.splits
      intro!: assms(2))

lemma trails_get_all:
  assumes "\<And>e h. Q (Inl e) h"
    and "\<And>js h. (g \<longrightarrow> h) \<Longrightarrow> (\<forall>j. Some j \<in> set js \<longrightarrow> j_status j = Failed \<longrightarrow> h) \<Longrightarrow> Q (Inr js) h"
  shows "trails g (get_all is) Q"
  using assms
proof (induction "is" arbitrary: g Q)
  case (Cons i "is")
  show ?case
    unfolding get_all.simps disc_await
  proof (rule trails_getJob)
    fix j :: "job option" and h
    assume "g \<longrightarrow> h" and "\<forall>x. j = Some x \<longrightarrow> j_status x = Failed \<longrightarrow> h"
    then show "then_disc (\<lambda>_. trail_ok) saw_failed (\<lambda>j. await (get_all is) (\<lambda>js. Ret (j # js))) Q (Inr j) h"
      by (auto intro!: Cons.IH Cons.prems)
  qed (simp add: Cons.prems)
qed simp

lemma trails_smoke: "trails g (smoke n) (\<lambda>r h. r = Inr PASSED \<longrightarrow> h)"
proof -
  have seen: "\<exists>j. Some j \<in> set js \<and> j_status j = Failed" if "with_status Failed js = Suc 0" for js
  proof -
    from that obtain r where "r \<in> set js" "case r of None \<Rightarrow> False | Some j \<Rightarrow> j_status j = Failed"
      unfolding with_status_def by (metis (lifting) filter_False length_0_conv nat.distinct(1))
    then show ?thesis by (auto split: option.splits)
  qed
  let ?rest = "\<lambda>finals. let completed = with_status Completed finals; failed = with_status Failed finals
      in Ret (if completed \<noteq> 2 \<or> failed \<noteq> 1 then FAILED completed failed else PASSED)"
    and ?Q = "\<lambda>r h. r = Inr PASSED \<longrightarrow> h"
  have finals: "trails h (await (get_all ids) ?rest) ?Q" for h ids
    unfolding disc_await by (rule trails_get_all) (auto simp: Let_def dest: seen)
  have "trails h (await (void (get_all ids)) (\<lambda>_. await (get_all ids) ?rest)) ?Q" for h ids
    by (rule trails_await [OF calls_ok_void [OF calls_get_all] _ finals]) simp
  then have tail: "trails h (if \<not> left then Ret Polling else seqp (void (get_all ids)) (await (get_all ids) ?rest)) ?Q" for h left ids
    by (cases left) (simp_all add: seqp_def del: disc_await)
  show ?thesis
    unfolding smoke_def Let_def [of "[_, _, _]"] by (intro trails_await tail trail_enqueue calls_poll) auto
qed

text \<open>The smoke test never passes, however its jobs are run and whatever else the system does: it waits
  for a job in status \<open>failed\<close>, which no part of the program ever sets.\<close>
theorem smoke_never_passes:
  assumes "backend exec view" and "\<And>i w. s_rows (view s) i = Some w \<Longrightarrow> row_consistent w"
    and "pool_reach exec (range (\<lambda>x. await (op_prog x) (\<lambda>_. Ret Polling)) \<union> range smoke) ([], s) (ps, t)"
  shows "Ret PASSED \<notin> set ps"
proof
  assume "Ret PASSED \<in> set ps"
  have disc: "trails False p (\<lambda>r h. r = Inr PASSED \<longrightarrow> h)"
    if "p \<in> range (\<lambda>x. await (op_prog x) (\<lambda>_. Ret Polling)) \<union> range smoke" for p
    using that trails_smoke by (auto intro!: trails_await trail_op simp del: disc_await)
  have "trail_seen (view s) [] (view s)" using assms(2) trail_refl by (auto simp: trail_seen_def)
  from discipline.reach_disc [OF trail_discipline [OF assms(1)] assms(3) this disc]
  obtain gs where gs: "list_all2 (\<lambda>g p. trails g p (\<lambda>r h. r = Inr PASSED \<longrightarrow> h)) gs ps" and "True \<notin> set gs"
    by (auto simp: trail_seen_def)
  with \<open>Ret PASSED \<in> set ps\<close> show False
    by (auto simp: list_all2_conv_all_nth in_set_conv_nth)
qed


theorem smoke_never_passes_witness:
  "Ret PASSED \<notin> set (fst (run_pool (mem_exec no_faults) (replicate 200 0) [smoke 60] mem0))"
proof -
  obtain ps t where run: "run_pool (mem_exec no_faults) (replicate 200 0) [smoke 60] mem0 = (ps, t)" by fastforce
  have "pool_reach (mem_exec no_faults) (range (\<lambda>x. await (op_prog x) (\<lambda>_. Ret Polling)) \<union> range smoke) ([], mem0)
      (run_pool (mem_exec no_faults) (replicate 200 0) [smoke 60] mem0)"
    by (rule run_pool_from_start) auto
  from smoke_never_passes [OF mem_backend _ this [unfolded run]] run show ?thesis by (simp add: mem_empty_def)
qed

end
