(* ===== verification/Idempotency.thy ===== *)
theory Idempotency
  imports System_Calls
begin

text \<open>
  Enqueues with one idempotency key that run at the same time.

  The read of the key and its write are not one step, so two of them can both find the key unset;
  what decides is the unique index of Postgres.  The discipline of this theory: a program binds the
  key only to an id it has inserted with the key, or read from it.
\<close>

subsection \<open>The holder of a key\<close>

definition key_holder :: "store \<Rightarrow> string \<Rightarrow> string \<Rightarrow> bool" where
  "key_holder v k i \<longleftrightarrow> (\<exists>w. s_rows v i = Some w \<and> r_idempotency_key w = Some k)"

text \<open>At most one row holds the key, and where the key is bound in Redis it is to that row.\<close>
definition key_consistent :: "string \<Rightarrow> store \<Rightarrow> bool" where
  "key_consistent k v \<longleftrightarrow> (\<forall>i j. key_holder v k i \<longrightarrow> key_holder v k j \<longrightarrow> i = j) \<and>
     (\<forall>x t. s_strs v (idempotency_key k) = Some (x, t) \<longrightarrow> key_holder v k x)"

text \<open>A program may bind the key to an id it knows to hold it.\<close>
fun binds :: "string \<Rightarrow> rcmd \<Rightarrow> string set" where
  "binds k (SETEX k' x ttl) = (if k' = idempotency_key k then {x} else {})"
| "binds k _ = {}"

fun bind_ok :: "string \<Rightarrow> string set \<Rightarrow> call \<Rightarrow> bool" where
  "bind_ok k K (Redis c) \<longleftrightarrow> binds k c \<subseteq> K"
| "bind_ok k K (RedisMulti cs) \<longleftrightarrow> (\<forall>c \<in> set cs. binds k c \<subseteq> K)"
| "bind_ok k K _ \<longleftrightarrow> True"

text \<open>It comes to know it by inserting the row, or by reading the key.\<close>
fun bind_learns :: "string \<Rightarrow> call \<Rightarrow> reply \<Rightarrow> string set" where
  "bind_learns k (Redis (GET k')) (RStr x) = (if k' = idempotency_key k then {x} else {})"
| "bind_learns k (Pg (PgInsert i w)) r = (if r_idempotency_key w = Some k then {i} else {})"
| "bind_learns k _ _ = {}"

definition bind_upd :: "string \<Rightarrow> string set \<Rightarrow> call \<Rightarrow> err + reply \<Rightarrow> string set" where
  "bind_upd k K c r = (case r of Inl e \<Rightarrow> K | Inr x \<Rightarrow> K \<union> bind_learns k c x)"

definition key_inv :: "string \<Rightarrow> string set list \<Rightarrow> store \<Rightarrow> bool" where
  "key_inv k Ks v \<longleftrightarrow> key_consistent k v \<and> (\<forall>K \<in> set Ks. \<forall>i \<in> K. key_holder v k i)"

subsection \<open>What each call does to the holder\<close>

lemma holder_kept:
  assumes "key_holder v k i" and "allowed c v x"
  shows "key_holder (effect c x v) k i"
proof (cases c)
  case (Pg q)
  with assms show ?thesis
  proof (cases q)
    case (PgUpdate j as)
    then show ?thesis using assms fold_assign_identity [of "s_clock v" as]
      by (auto simp: Pg key_holder_def row_identity_def)
  qed (auto simp: key_holder_def)
next
  case (Host h)
  with assms show ?thesis by (cases "(h, x, v)" rule: host_effect.cases) (auto simp: key_holder_def)
qed (use assms in \<open>auto simp: key_holder_def script_effect_def split: option.splits\<close>)

text \<open>Only an insert makes a holder, of a key no row holds.\<close>
lemma holder_new:
  assumes "key_holder (effect c x v) k i" and "allowed c v x" and "\<not> key_holder v k i"
  shows "\<forall>j. \<not> key_holder v k j" and "i \<in> bind_learns k c x"
proof -
  have "(\<forall>j. \<not> key_holder v k j) \<and> i \<in> bind_learns k c x"
  proof (cases c)
    case (Pg q)
    with assms show ?thesis
    proof (cases q)
      case (PgUpdate j as)
      have "r_idempotency_key (fold (apply_assign (s_clock v)) as w) = r_idempotency_key w" for w
        using fold_assign_identity [of "s_clock v" as w] by (simp add: row_identity_def)
      then show ?thesis using assms by (auto simp: Pg PgUpdate key_holder_def split: if_splits)
    qed (auto simp: key_holder_def split: if_splits)
  next
    case (Host h)
    with assms show ?thesis by (cases "(h, x, v)" rule: host_effect.cases) (auto simp: key_holder_def)
  qed (use assms in \<open>auto simp: key_holder_def script_effect_def split: option.splits\<close>)
  then show "\<forall>j. \<not> key_holder v k j" and "i \<in> bind_learns k c x" by auto
qed

lemma redis_binding:
  "s_strs (redis_effect c v) (idempotency_key k) = Some (y, t) \<Longrightarrow>
     s_strs v (idempotency_key k) = Some (y, t) \<or> y \<in> binds k c"
  by (cases "(c, v)" rule: redis_effect.cases) (auto simp: Let_def split: if_splits)

lemma fold_redis_binding:
  "s_strs (fold redis_effect cs v) (idempotency_key k) = Some (y, t) \<Longrightarrow>
     s_strs v (idempotency_key k) = Some (y, t) \<or> (\<exists>c \<in> set cs. y \<in> binds k c)"
  by (induction cs arbitrary: v) (auto dest!: redis_binding)

lemma binding_new:
  assumes "s_strs (effect c x v) (idempotency_key k) = Some (y, t)" and "bind_ok k K c"
  shows "s_strs v (idempotency_key k) = Some (y, t) \<or> y \<in> K"
proof (cases c)
  case (Redis rc)
  with assms show ?thesis using redis_binding [of rc v k y t] by auto
next
  case (RedisMulti cs)
  with assms show ?thesis using fold_redis_binding [of cs v k y t] by auto
next
  case (Pg q)
  with assms show ?thesis by (cases q) auto
next
  case (Host h)
  with assms show ?thesis by (cases "(h, x, v)" rule: host_effect.cases) auto
qed (use assms in \<open>auto simp: script_effect_def split: option.splits\<close>)

text \<open>What a program has learnt is true.\<close>
lemma bind_learns_true:
  assumes "key_consistent k v" and "allowed c v x" and "i \<in> bind_learns k c x"
  shows "key_holder (effect c x v) k i"
proof (cases "(k, c, x)" rule: bind_learns.cases)
  case (1 _ k' y)
  then have "live_str v (idempotency_key k) = Some i" using assms(2,3) by (auto split: if_splits option.splits)
  then have "key_holder v k i" using assms(1) by (auto simp: key_consistent_def live_str_def split: option.splits if_splits)
  then show ?thesis by (rule holder_kept [OF _ assms(2)])
next
  case (2 _ j w r)
  then show ?thesis using assms by (auto simp: key_holder_def split: if_splits)
qed (use assms(3) in auto)

lemma bind_step:
  assumes "key_inv k Ks v" and "K \<in> set Ks" and "bind_ok k K c" and "allowed c v x"
  shows "key_consistent k (effect c x v)"
proof -
  let ?v = "effect c x v"
  have "i = j" if "key_holder ?v k i" and "key_holder ?v k j" for i j
  proof (cases "\<forall>j. \<not> key_holder v k j")
    case True
    with that have "i \<in> bind_learns k c x" "j \<in> bind_learns k c x" "bind_learns k c x \<noteq> {}"
      using holder_new(2) [OF _ assms(4)] by blast+
    then show ?thesis by (cases "(k, c, x)" rule: bind_learns.cases) (auto split: if_splits)
  next
    case False
    with that have "key_holder v k i" "key_holder v k j" using holder_new(1) [OF _ assms(4)] by blast+
    with assms(1) show ?thesis by (auto simp: key_inv_def key_consistent_def)
  qed
  moreover have "key_holder ?v k y" if b: "s_strs ?v (idempotency_key k) = Some (y, t)" for y t
  proof -
    have "key_holder v k y"
      using binding_new [OF b assms(3)] assms(1,2) by (auto simp: key_inv_def key_consistent_def)
    then show ?thesis by (rule holder_kept [OF _ assms(4)])
  qed
  ultimately show ?thesis unfolding key_consistent_def by blast
qed

lemma fail_strs [simp]: "s_strs (fail_effect c v) = s_strs v"
proof (cases c)
  case (Host h)
  then show ?thesis by (cases h) simp_all
qed simp_all

lemma bind_discipline: "backend exec view \<Longrightarrow> discipline exec view (bind_ok k) (bind_upd k) {} (key_inv k)"
proof (intro discipline.intro discipline_axioms.intro)
  fix gs v n c x
  assume J: "key_inv k gs v" and n: "n < length gs" and ok: "bind_ok k (gs ! n) c" and x: "allowed c v x"
  have "key_consistent k v" using J by (simp add: key_inv_def)
  moreover have "key_holder v k i" if "i \<in> gs ! n" for i using J nth_mem [OF n] that by (auto simp: key_inv_def)
  ultimately have new: "\<forall>i \<in> bind_upd k (gs ! n) c (Inr x). key_holder (effect c x v) k i"
    using holder_kept [OF _ x] bind_learns_true [OF _ x] by (auto simp: bind_upd_def)
  have "key_consistent k (effect c x v)" using bind_step [OF J nth_mem [OF n] ok x] .
  with J new holder_kept [OF _ x] show "key_inv k (gs[n := bind_upd k (gs ! n) c (Inr x)]) (effect c x v)"
    by (auto simp: key_inv_def dest!: set_update_subset_insert [THEN subsetD])
next
  fix gs v n c e
  assume "key_inv k gs v" and "n < length gs"
  then show "key_inv k (gs[n := bind_upd k (gs ! n) c (Inl e)]) (fail_effect c v)"
    by (simp add: bind_upd_def key_inv_def key_consistent_def key_holder_def)
qed (auto simp: key_inv_def)

interpretation bind: discipline "mem_exec faults" mem_view "bind_ok k" "bind_upd k" "{}" "key_inv k" for faults k
  by (rule bind_discipline [OF mem_backend])

subsection \<open>The programs\<close>

abbreviation bound_by :: "string \<Rightarrow> string set \<Rightarrow> 'a prog \<Rightarrow> (err + 'a \<Rightarrow> string set \<Rightarrow> bool) \<Rightarrow> bool" where
  "bound_by k K p Q \<equiv> disc (bind_ok k) (bind_upd k) K p Q"

lemma quiet_binds: "\<not> writes_key c \<Longrightarrow> binds k c = {}"
  by (cases c rule: writes_key.cases) auto

lemma quiet_bind_ok: "quiet c \<Longrightarrow> bind_ok k K c"
  by (cases c rule: quiet.cases) (auto simp: quiet_binds)

lemma bound_by_tidy: "tidy p \<Longrightarrow> (\<And>r h. Q r h) \<Longrightarrow> bound_by k K p Q"
  by (rule disc_mono [OF disc_calls_ok [where P = quiet]]) (auto intro: quiet_bind_ok)


lemma bound_call:
  "bound_by k K (call c) Q \<longleftrightarrow> bind_ok k K c \<and> (\<forall>e. Q (Inl e) K) \<and> (\<forall>x. Q (Inr x) (K \<union> bind_learns k c x))"
  by (auto simp: disc_call bind_upd_def)

lemma bound_calls:
  "bound_by k K (redis_get k') Q1 \<longleftrightarrow> (\<forall>e. Q1 (Inl e) K) \<and> Q1 (Inr None) K \<and>
     (\<forall>x. Q1 (Inr (Some x)) (if k' = idempotency_key k then insert x K else K))"
  "bound_by k K (redis_unit c) Q2 \<longleftrightarrow> binds k c \<subseteq> K \<and> (\<forall>e. Q2 (Inl e) K) \<and> (\<forall>x. Q2 (Inr ()) (K \<union> bind_learns k (Redis c) x))"
  "bound_by k K (multi_exec cs) Q3 \<longleftrightarrow> (\<forall>c \<in> set cs. binds k c \<subseteq> K) \<and> (\<forall>e. Q3 (Inl e) K) \<and> Q3 (Inr ()) K"
  "bound_by k K (pg_query (PgInsert i w)) Q4 \<longleftrightarrow> (\<forall>e. Q4 (Inl e) K) \<and>
     Q4 (Inr ()) (if r_idempotency_key w = Some k then insert i K else K)"
  "bound_by k K now Q5 \<longleftrightarrow> (\<forall>e. Q5 (Inl e) K) \<and> (\<forall>t. Q5 (Inr t) K)"
  "bound_by k K uuidv4 Q6 \<longleftrightarrow> (\<forall>e. Q6 (Inl e) K) \<and> (\<forall>i. Q6 (Inr i) K)"
  by (simp_all add: redis_str_def redis_unit_def multi_exec_def pg_query_def now_def uuidv4_def bound_call all_reply
      then_disc_def) blast+

text \<open>An enqueue with the key, unless it is delayed, returns an id that holds the key.\<close>
lemma bound_enqueue:
  assumes "o_idempotencyKey opts = Some k \<Longrightarrow> opt_delay opts = None" and "k \<noteq> []"
  shows "bound_by k K (enqueue bus n p opts) (\<lambda>r h. \<forall>i. o_idempotencyKey opts = Some k \<longrightarrow> r = Inr i \<longrightarrow> i \<in> h)"
proof (cases "o_idempotencyKey opts = Some k")
  case True
  with assms show ?thesis
    by (simp add: enqueue_defs bound_calls default_row_def)
next
  case False
  then show ?thesis
    by (cases "o_idempotencyKey opts"; cases "opt_delay opts") (simp_all add: enqueue_defs bound_calls default_row_def Let_def)
qed
subsection \<open>One job per key\<close>

text \<open>The system, where no enqueue with the key is delayed; the enqueues with the key report what they return.\<close>
definition keyed_pool :: "string \<Rightarrow> string option prog set" where
  "keyed_pool k =
     (\<lambda>x. await (op_prog x) (\<lambda>_. Ret None)) ` {x. \<forall>bus n p opts. x = OEnqueue bus n p opts \<longrightarrow> o_idempotencyKey opts \<noteq> Some k} \<union>
     {await (enqueue bus n p opts) (\<lambda>i. Ret (Some i)) | bus n p opts. o_idempotencyKey opts = Some k \<and> opt_delay opts = None}"

lemma bound_keyed_pool:
  assumes "p \<in> keyed_pool k" and "k \<noteq> []"
  shows "bound_by k {} p (\<lambda>r K. \<forall>i. r = Inr (Some i) \<longrightarrow> i \<in> K)"
  using assms(1) unfolding keyed_pool_def
proof (elim UnE imageE CollectE exE conjE)
  fix x
  assume p: "p = await (op_prog x) (\<lambda>_. Ret None)"
    and x: "\<forall>bus n p opts. x = OEnqueue bus n p opts \<longrightarrow> o_idempotencyKey opts \<noteq> Some k"
  have "bound_by k {} (op_prog x) no_post"
  proof (cases x)
    case (OEnqueue bus n p opts)
    with x have "bound_by k {} (enqueue bus n p opts) no_post"
      by (auto intro: disc_mono [OF bound_enqueue [OF _ assms(2)]])
    then show ?thesis by (simp add: OEnqueue void_def, elim disc_mono) (simp add: then_disc_def split: sum.splits)
  qed (rule bound_by_tidy [OF tidy_op]; simp)+
  then show ?thesis unfolding p disc_await by (elim disc_mono) (simp add: then_disc_def split: sum.splits)
next
  fix bus n payload opts
  assume "p = await (enqueue bus n payload opts) (\<lambda>i. Ret (Some i))"
    and "o_idempotencyKey opts = Some k" "opt_delay opts = None"
  then show ?thesis
    by (auto intro: disc_mono [OF bound_enqueue [OF _ assms(2)]] simp: then_disc_def split: sum.splits)
qed

text \<open>C3: However many enqueues with one idempotency key run at the same time, interleaved with everything
  else the system does, those that return all return the same id, and that id is the only job with the
  key, provided none of them is delayed.\<close>
theorem concurrent_enqueues_agree:
  assumes "backend exec view" and "k \<noteq> []" and "key_consistent k (view s)"
    and "pool_reach exec (keyed_pool k) ([], s) (ps, t)"
    and "Ret (Some i) \<in> set ps" and "Ret (Some j) \<in> set ps"
  shows "i = j \<and> {x. key_holder (view t) k x} = {i}"
proof -
  have "key_inv k [] (view s)" using assms(3) by (simp add: key_inv_def)
  from discipline.reach_disc [OF bind_discipline [OF assms(1)] assms(4) this bound_keyed_pool [OF _ assms(2)]]
  obtain Ks where Ks: "list_all2 (\<lambda>K p. bound_by k K p (\<lambda>r K. \<forall>i. r = Inr (Some i) \<longrightarrow> i \<in> K)) Ks ps"
    and J: "key_inv k Ks (view t)" by auto
  have holder: "key_holder (view t) k x" if "Ret (Some x) \<in> set ps" for x
    using Ks J that by (fastforce simp: list_all2_conv_all_nth in_set_conv_nth key_inv_def)
  from holder [OF assms(5)] holder [OF assms(6)] J show ?thesis by (auto simp: key_inv_def key_consistent_def)
qed

definition two_enqueues :: "enqueue_options \<Rightarrow> string option prog list" where
  "two_enqueues opts = (let p = await (enqueue False ''greet'' (Some JNull) opts) (\<lambda>i. Ret (Some i)) in [p, p])"

lemmas keyed_eval = two_enqueues_def pool_eval enqueue_defs no_options_def opt_delay_def opt_queue_def opt_priority_def
  opt_maxAttempts_def key_defs targetList_def

text \<open>One after the other: the second reads the key.\<close>
definition keyed_turns :: "string option prog list \<times> mem" where
  "keyed_turns = run_pool (mem_exec no_faults) [0, 0, 0, 0, 0, 0, 1] (two_enqueues opts_keyed) (mem_empty 5000)"

lemma keyed_turns_result: "fst keyed_turns = [Ret (Some ''u''), Ret (Some ''u'')]"
  by (simp add: keyed_turns_def keyed_eval cong: run_congs)

theorem concurrent_enqueues_agree_witness:
  "fst keyed_turns = [Ret (Some ''u''), Ret (Some ''u'')] \<and> {x. key_holder (mem_view (snd keyed_turns)) ''k'' x} = {''u''}"
proof -
  have "await (enqueue False ''greet'' (Some JNull) opts_keyed) (\<lambda>i. Ret (Some i)) \<in> keyed_pool ''k''"
    unfolding keyed_pool_def by (intro UnI2 CollectI exI conjI, rule refl) (simp_all add: no_options_def opt_delay_def)
  then have "set (two_enqueues opts_keyed) \<subseteq> keyed_pool ''k''" by (simp add: two_enqueues_def Let_def)
  moreover have "\<forall>n \<in> set [0, 0, 0, 0, 0, 0, 1]. n < length (two_enqueues opts_keyed)" by (simp add: two_enqueues_def Let_def)
  ultimately have "pool_reach (mem_exec no_faults) (keyed_pool ''k'') ([], mem_empty 5000) (fst keyed_turns, snd keyed_turns)"
    unfolding keyed_turns_def prod.collapse by (rule run_pool_from_start)
  from concurrent_enqueues_agree [OF mem_backend _ _ this, of "''u''" "''u''"] keyed_turns_result show ?thesis
    by (simp add: key_consistent_def key_holder_def mem_empty_def)
qed

text \<open>Two that both find the key unset: the index refuses the second, whose caller gets an error and not the
  id of the job.\<close>
theorem second_enqueue_refused:
  "\<exists>e. fst (run_pool (mem_exec no_faults) [0, 1, 0, 0, 0, 0, 0, 1, 1, 1] (two_enqueues opts_keyed) (mem_empty 5000)) =
     [Ret (Some ''u''), Throw e]"
  by (simp add: keyed_eval cong: run_congs)


end
