(* ===== verification/Fifo_Queues.thy ===== *)
theory Fifo_Queues
  imports System_Calls
begin

text \<open>
  The list of every queue and priority is a first-in first-out queue, whatever operations of the system
  run at the same time: the abstract queue of this theory is what each of the lists implements.
\<close>

text \<open>The abstract queue: the oldest entry first.\<close>
inductive fifo_step :: "string list \<Rightarrow> string list \<Rightarrow> bool" where
  Put: "fifo_step q (q @ [x])"
| Take: "fifo_step (x # q) q"

abbreviation fifo_run :: "string list \<Rightarrow> string list \<Rightarrow> bool" where
  "fifo_run \<equiv> fifo_step\<^sup>*\<^sup>*"

inductive_cases fifo_stepE: "fifo_step q q'"

definition queue_of :: "store \<Rightarrow> string \<Rightarrow> string \<Rightarrow> string list" where
  "queue_of v q prio = rev (s_lists v (targetList q prio))"

text \<open>Entries leave at the front, in their order, and join at the back.\<close>
lemma fifo_run_order: "fifo_run q q' \<Longrightarrow> \<exists>n new. q' = drop n q @ new"
proof (induction rule: rtranclp_induct)
  case base
  show ?case by (metis append_Nil2 drop0)
next
  case (step q1 q2)
  then obtain n new where q1: "q1 = drop n q @ new" by blast
  from step(2) show ?case
  proof (cases rule: fifo_step.cases)
    case (Put x)
    then show ?thesis using q1 by (metis append_assoc)
  next
    case (Take x)
    show ?thesis
    proof (cases "drop n q")
      case Nil
      then have "q2 = drop n q @ tl new" using Take q1 by auto
      then show ?thesis by blast
    next
      case (Cons y ys)
      then have "q2 = drop (Suc n) q @ new" using Take q1 by (metis append_Cons drop_Suc list.sel(3) tl_drop)
      then show ?thesis by blast
    qed
  qed
qed

lemma fifo_put: "fifo_run q (q @ [x])"
  by (rule r_into_rtranclp) (rule Put)

lemma fifo_take: "q \<noteq> [] \<Longrightarrow> fifo_run q (tl q)"
  by (cases q) (auto intro: Take)

lemma fifo_move:
  assumes "s_lists v a \<noteq> []"
    and "s_lists w = (let ls = (s_lists v)(a := butlast (s_lists v a)) in ls(b := last (s_lists v a) # ls b))"
  shows "fifo_run (queue_of v q prio) (queue_of w q prio)"
proof -
  define k where "k = targetList q prio"
  define mid where "mid = rev (((s_lists v)(a := butlast (s_lists v a))) k)"
  have "fifo_run (queue_of v q prio) mid"
  proof (cases "a = k")
    case True
    then have "mid = tl (queue_of v q prio)" "queue_of v q prio \<noteq> []"
      using assms(1) by (simp_all add: mid_def queue_of_def k_def butlast_rev [symmetric]) (metis butlast_rev rev_rev_ident)
    then show ?thesis using fifo_take by simp
  qed (simp add: mid_def queue_of_def k_def)
  moreover have "fifo_run mid (queue_of w q prio)"
  proof (cases "b = k")
    case True
    then have "queue_of w q prio = mid @ [last (s_lists v a)]" by (simp add: assms(2) queue_of_def mid_def Let_def k_def)
    then show ?thesis using fifo_put by simp
  next
    case False
    then have "queue_of w q prio = mid" by (simp add: assms(2) queue_of_def mid_def Let_def k_def)
    then show ?thesis by simp
  qed
  ultimately show ?thesis by simp
qed

lemma redis_fifo:
  assumes "\<not> cuts_queue c"
  shows "fifo_run (queue_of v q prio) (queue_of (redis_effect c v) q prio)"
proof -
  have move: "fifo_run (queue_of v q prio) (queue_of (redis_effect (RPOPLPUSH a b) v) q prio)" for a b
  proof (cases "s_lists v a = []")
    case False
    then show ?thesis by (rule fifo_move [of v a _ b]) (simp add: False Let_def)
  qed simp
  show ?thesis
  proof (cases c)
    case (LPUSH k x)
    then show ?thesis using fifo_put [of "queue_of v q prio" x] by (auto simp: queue_of_def)
  next
    case (RPOPLPUSH a b)
    with move show ?thesis by simp
  next
    case (BLMOVE a b ttl)
    have "redis_effect (BLMOVE a b ttl) v = redis_effect (RPOPLPUSH a b) v" by simp
    with move BLMOVE show ?thesis by presburger
  next
    case (ZADD k sc x)
    then show ?thesis by (cases sc) (simp_all add: queue_of_def)
  qed (use assms in \<open>auto simp: queue_of_def\<close>)
qed

lemma fold_redis_fifo:
  "\<forall>c \<in> set cs. \<not> cuts_queue c \<Longrightarrow> fifo_run (queue_of v q prio) (queue_of (fold redis_effect cs v) q prio)"
proof (induction cs arbitrary: v)
  case (Cons c cs)
  then show ?case using redis_fifo [of c v q prio] Cons.IH [of "redis_effect c v"] by (auto intro: rtranclp_trans)
qed simp

fun fifo_ok :: "call \<Rightarrow> bool" where
  "fifo_ok (Redis c) \<longleftrightarrow> \<not> cuts_queue c"
| "fifo_ok (RedisMulti cs) \<longleftrightarrow> (\<forall>c \<in> set cs. \<not> cuts_queue c)"
| "fifo_ok _ \<longleftrightarrow> True"

lemma fifo_effect:
  assumes "fifo_ok c"
  shows "fifo_run (queue_of v q prio) (queue_of (effect c x v) q prio)"
proof (cases c)
  case (Redis rc)
  with assms show ?thesis using redis_fifo by simp
next
  case (RedisMulti cs)
  with assms show ?thesis using fold_redis_fifo by simp
next
  case (Pg st)
  then show ?thesis by (cases st) (simp_all add: queue_of_def)
next
  case (Host h)
  then show ?thesis by (cases "(h, x, v)" rule: host_effect.cases) (simp_all add: queue_of_def)
qed (use assms in \<open>auto simp: queue_of_def script_effect_def split: option.splits\<close>)

lemma fifo_fail: "queue_of (fail_effect c v) q prio = queue_of v q prio"
proof (cases c)
  case (Host h)
  then show ?thesis by (cases h) (simp_all add: queue_of_def)
qed simp_all

lemma quiet_fifo: "quiet c \<Longrightarrow> fifo_ok c"
  by (cases c rule: fifo_ok.cases) auto

lemma fifo_op: "calls_ok fifo_ok (op_prog x)"
proof (cases x)
  case (OEnqueue bus n p opts)
  then show ?thesis by (auto simp: enqueue_defs)
next
qed (rule calls_ok_mono [OF tidy_op quiet_fifo]; simp)+

lemma fifo_reach:
  assumes "backend exec view" and "pool_reach exec P (ps, s) (qs, t)" and "\<And>p. p \<in> P \<union> set ps \<Longrightarrow> calls_ok fifo_ok p"
  shows "fifo_run (queue_of (view s) q prio) (queue_of (view t) q prio)" and "\<And>p. p \<in> P \<union> set qs \<Longrightarrow> calls_ok fifo_ok p"
  by (rule calls_invariant [OF assms, where I = "\<lambda>v. fifo_run (queue_of (view s) q prio) (queue_of v q prio)"];
      auto intro: rtranclp_trans fifo_effect simp: fifo_fail)+



end
