(* ===== verification/Jsx.thy ===== *)
theory Jsx
  imports Http
begin

text \<open>
  What the components of \<^verbatim>\<open>dashboard/src\<close> return: trees of elements, as JSX builds them.

  A child is a JavaScript value (\<open>None\<close> is \<open>undefined\<close>), an element or an array of children; a tag
  with a capital letter stands for a component with the properties it is given.  A component that
  throws while it renders returns \<open>None\<close>.
\<close>

subsection \<open>Element trees\<close>

text \<open>A property is a value, an element, a handler of clicks, a handler of the chosen value, or a
  callback that is handed to a component.\<close>
datatype 'h jsx_prop =
    Attr string json | ElAttr string "'h node" | OnClick 'h | OnChange "string \<Rightarrow> 'h" | Callback string 'h
and 'h node = Val "json option" | El string "'h jsx_prop list" "'h node list" | Arr "'h node list"

abbreviation str :: "string \<Rightarrow> 'h node" where
  "str s \<equiv> Val (Some (JStr s))"

abbreviation cls :: "string \<Rightarrow> 'h jsx_prop" where
  "cls s \<equiv> Attr ''className'' (JStr s)"

abbreviation key :: "string \<Rightarrow> 'h jsx_prop" where
  "key s \<equiv> Attr ''key'' (JStr s)"

text \<open>\<open>{cond && element}\<close>\<close>
definition and_el :: "bool \<Rightarrow> 'h node \<Rightarrow> 'h node" where
  "and_el b e = (if b then e else Val (Some (JBool False)))"

text \<open>A cell of a table head.\<close>
definition th :: "string \<Rightarrow> string \<Rightarrow> 'h node" where
  "th c s = El ''th'' [cls c] [str s]"

text \<open>Whether a value that may be \<open>undefined\<close> counts as true, and \<open>v || d\<close> as a child.\<close>
definition truthy_value :: "json option \<Rightarrow> bool" where
  "truthy_value v = (case v of None \<Rightarrow> False | Some x \<Rightarrow> json_truthy x)"

definition or_text :: "json option \<Rightarrow> string \<Rightarrow> 'h node" where
  "or_text v d = (if truthy_value v then Val v else str d)"

text \<open>\<open>v.slice(0, 8)\<close> of a member that is declared a string; any other value throws.\<close>
definition slice8 :: "json option \<Rightarrow> string option" where
  "slice8 v = (case v of Some (JStr s) \<Rightarrow> Some (take 8 s) | _ \<Rightarrow> None)"

text \<open>The host's \<open>toLocaleString()\<close> and \<open>toLocaleTimeString()\<close> of \<open>new Date(v)\<close>.\<close>
record locale_dates =
  l_dateTime :: "json option \<Rightarrow> string"
  l_time :: "json option \<Rightarrow> string"

text \<open>One such locale, for examples.\<close>
definition some_dates :: locale_dates where
  "some_dates = \<lparr>l_dateTime = \<lambda>_. ''date'', l_time = \<lambda>_. ''noon''\<rparr>"

subsection \<open>What a tree offers and requires\<close>

definition is_disabled :: "'h jsx_prop list \<Rightarrow> bool" where
  "is_disabled ps \<longleftrightarrow> Attr ''disabled'' (JBool True) \<in> set ps"

fun prop_clicks :: "'h jsx_prop list \<Rightarrow> 'h list" where
  "prop_clicks [] = []"
| "prop_clicks (OnClick h # ps) = h # prop_clicks ps"
| "prop_clicks (p # ps) = prop_clicks ps"

text \<open>The handlers a click can reach, in document order: a disabled element has none.\<close>
fun clicks :: "'h node \<Rightarrow> 'h list" where
  "clicks (Val v) = []"
| "clicks (El t ps cs) = (if is_disabled ps then [] else prop_clicks ps) @ concat (map clicks cs)"
| "clicks (Arr cs) = concat (map clicks cs)"

text \<open>An object is no child: React throws.\<close>
fun child_value :: "json \<Rightarrow> bool" where
  "child_value (JObj ms) = False"
| "child_value (JArr xs) = (\<forall>x \<in> set xs. child_value x)"
| "child_value _ = True"

fun renders :: "'h node \<Rightarrow> bool" where
  "renders (Val v) = (case v of None \<Rightarrow> True | Some x \<Rightarrow> child_value x)"
| "renders (El t ps cs) = (\<forall>c \<in> set cs. renders c)"
| "renders (Arr cs) = (\<forall>c \<in> set cs. renders c)"

fun prop_key :: "'h jsx_prop list \<Rightarrow> string option" where
  "prop_key [] = None"
| "prop_key (Attr n v # ps) = (if n = ''key'' then (case v of JStr s \<Rightarrow> Some s | _ \<Rightarrow> None) else prop_key ps)"
| "prop_key (p # ps) = prop_key ps"

definition node_key :: "'h node \<Rightarrow> string option" where
  "node_key c = (case c of El t ps cs \<Rightarrow> prop_key ps | _ \<Rightarrow> None)"

text \<open>The children of an array have keys, each its own: else React loses or doubles some of them.\<close>
fun keyed :: "'h node \<Rightarrow> bool" where
  "keyed (Val v) = True"
| "keyed (El t ps cs) = (\<forall>c \<in> set cs. keyed c)"
| "keyed (Arr cs) = (distinct (map node_key cs) \<and> None \<notin> node_key ` set cs \<and> (\<forall>c \<in> set cs. keyed c))"

definition well_formed :: "'h node \<Rightarrow> bool" where
  "well_formed v \<longleftrightarrow> renders v \<and> keyed v"

text \<open>The text of a tree: strings and numbers, the other values show nothing.\<close>
fun value_text :: "json \<Rightarrow> string" where
  "value_text (JStr s) = s"
| "value_text (JNum x) = js_String (Num x)"
| "value_text (JArr xs) = concat (map value_text xs)"
| "value_text _ = []"

fun texts :: "'h node \<Rightarrow> string" where
  "texts (Val v) = (case v of None \<Rightarrow> [] | Some x \<Rightarrow> value_text x)"
| "texts (El t ps cs) = concat (map texts cs)"
| "texts (Arr cs) = concat (map texts cs)"

text \<open>All elements with a tag.\<close>
fun elements :: "string \<Rightarrow> 'h node \<Rightarrow> ('h jsx_prop list \<times> 'h node list) list" where
  "elements t (Val v) = []"
| "elements t (El u ps cs) = (if u = t then [(ps, cs)] else []) @ concat (map (elements t) cs)"
| "elements t (Arr cs) = concat (map (elements t) cs)"

lemma and_el_simps [simp]:
  "clicks (and_el b e) = (if b then clicks e else [])" "renders (and_el b e) \<longleftrightarrow> (b \<longrightarrow> renders e)"
  "keyed (and_el b e) \<longleftrightarrow> (b \<longrightarrow> keyed e)" "texts (and_el b e) = (if b then texts e else [])"
  "elements t (and_el b e) = (if b then elements t e else [])"
  by (simp_all add: and_el_def)

lemma or_text_simps [simp]:
  "clicks (or_text v d) = []" "keyed (or_text v d)" "elements t (or_text v d) = []"
  "renders (or_text v d) \<longleftrightarrow> (\<forall>x. truthy_value v \<longrightarrow> v = Some x \<longrightarrow> child_value x)"
  by (auto simp: or_text_def split: option.splits)

lemma is_disabled_simps [simp]:
  "\<not> is_disabled []" "is_disabled (OnClick h # ps) = is_disabled ps" "is_disabled (OnChange f # ps) = is_disabled ps"
  "is_disabled (Callback n h # ps) = is_disabled ps" "is_disabled (ElAttr n e # ps) = is_disabled ps"
  "is_disabled (Attr n v # ps) \<longleftrightarrow> n = ''disabled'' \<and> v = JBool True \<or> is_disabled ps"
  by (auto simp: is_disabled_def)

lemma slice8_str [simp]: "slice8 (Some (JStr s)) = Some (take 8 s)"
  by (simp add: slice8_def)

lemma node_key_El [simp]: "node_key (El t ps cs) = prop_key ps"
  by (simp add: node_key_def)

text \<open>An array of elements with the keys \<open>f x\<close>.\<close>
lemma keyed_map:
  "(\<And>x. x \<in> set xs \<Longrightarrow> node_key (g x) = Some (f x)) \<Longrightarrow>
    keyed (Arr (map g xs)) \<longleftrightarrow> distinct (map f xs) \<and> (\<forall>x \<in> set xs. keyed (g x))"
proof -
  assume g: "\<And>x. x \<in> set xs \<Longrightarrow> node_key (g x) = Some (f x)"
  then have "map node_key (map g xs) = map Some (map f xs)" by simp
  moreover have "distinct (map Some (map f xs)) \<longleftrightarrow> distinct (map f xs)"
    by (subst distinct_map) simp
  moreover have "None \<notin> node_key ` set (map g xs)" using g by auto
  ultimately show ?thesis by (simp only: keyed.simps) simp
qed

text \<open>The rows that a list of items is mapped to, where none of them throws.\<close>
lemma those_rows:
  assumes "those (map f xs) = Some ys" and "\<And>x y. x \<in> set xs \<Longrightarrow> f x = Some y \<Longrightarrow> g y = h x"
  shows "map g ys = map h xs"
  using assms by (induction xs arbitrary: ys) (auto split: option.splits)

lemma those_all: "those (map f xs) = Some ys \<Longrightarrow> y \<in> set ys \<Longrightarrow> \<exists>x \<in> set xs. f x = Some y"
  by (induction xs arbitrary: ys) (auto split: option.splits)

lemma those_defined: "those (map f xs) = None \<longleftrightarrow> (\<exists>x \<in> set xs. f x = None)"
  by (induction xs) (auto split: option.splits)

lemma concat_map_single: "concat (map (\<lambda>x. [f x]) xs) = map f xs"
  by (induction xs) simp_all

lemma keyed_rows:
  assumes "those (map f xs) = Some ys" and "\<And>x y. x \<in> set xs \<Longrightarrow> f x = Some y \<Longrightarrow> node_key y = Some (g x) \<and> keyed y" and "distinct (map g xs)"
  shows "keyed (Arr ys)"
proof -
  have "map node_key ys = map (\<lambda>x. Some (g x)) xs" by (rule those_rows [OF assms(1)]) (use assms(2) in blast)
  moreover from this have "distinct (map node_key ys)" using assms(3) by (simp add: distinct_map inj_on_def)
  moreover have "None \<notin> node_key ` set ys" using arg_cong [OF calculation(1), of set] by auto
  moreover have "keyed y" if "y \<in> set ys" for y using those_all [OF assms(1) that] assms(2) by blast
  ultimately show ?thesis by simp
qed

lemma renders_rows:
  "those (map f xs) = Some ys \<Longrightarrow> (\<And>x y. x \<in> set xs \<Longrightarrow> f x = Some y \<Longrightarrow> renders y) \<Longrightarrow> renders (Arr ys)"
  using those_all [of f xs ys] by fastforce

lemma list_all2_map_eq: "list_all2 (\<lambda>x y. f y = x) xs ys \<Longrightarrow> map f ys = xs"
  by (induction rule: list_all2_induct) simp_all

lemma list_all2_right: "list_all2 R xs ys \<Longrightarrow> y \<in> set ys \<Longrightarrow> \<exists>x. R x y"
  by (induction rule: list_all2_induct) auto

end
