(* ===== verification/Queue_Markup.thy ===== *)
theory Queue_Markup
  imports Jsx Job_Views Json_Roundtrip
begin

text \<open>
  What the page of a queue shows: the elements that \<^verbatim>\<open>pages/QueueDetail.tsx\<close>,
  \<^verbatim>\<open>components/JobDetail.tsx\<close> and \<^verbatim>\<open>components/DlqInspector.tsx\<close> return for their state, and that what
  can be clicked in them is what \<open>Queue_Page\<close> and \<open>Job_Views\<close> call the steps of the user.
\<close>

subsection \<open>QueueDetail\<close>

text \<open>\<open>s.charAt(0).toUpperCase() + s.slice(1)\<close>, for the letters of ASCII.\<close>
definition upper_char :: "char \<Rightarrow> char" where
  "upper_char c = (let n = of_char c :: nat in if 97 \<le> n \<and> n \<le> 122 then char_of (n - 32) else c)"

definition capitalized :: "string \<Rightarrow> string" where
  "capitalized s = map upper_char (take 1 s) @ drop 1 s"

text \<open>A handler changes the state at the time of the click; the values it uses are those of the render.\<close>
type_synonym page_handler = "queue_detail \<Rightarrow> queue_detail"

definition status_button :: "queue_detail \<Rightarrow> string \<Rightarrow> page_handler node" where
  "status_button st s =
     El ''button''
       [key s,
        OnClick (\<lambda>now. now\<lparr>qd_status := s, qd_offset := 0\<rparr>),
        cls (''px-3 py-1 text-sm rounded transition '' @
          (if qd_status st = s
           then ''bg-blue-600 text-white''
           else ''bg-white text-gray-700 border hover:bg-gray-50''))]
       [str (capitalized s)]"

definition page_head :: "'h node" where
  "page_head =
     El ''thead'' []
       [El ''tr'' [cls ''border-b text-left text-gray-600 bg-gray-50'']
         [th ''p-3'' ''ID'',
          th ''p-3'' ''Name'',
          th ''p-3'' ''Status'',
          th ''p-3'' ''Attempts'',
          th ''p-3'' ''Created'']]"

text \<open>One row; a job without an id throws.\<close>
definition page_row :: "locale_dates \<Rightarrow> queue_detail \<Rightarrow> json \<Rightarrow> page_handler node option" where
  "page_row loc st job =
     (case member ''id'' job of
        Some (JStr i) \<Rightarrow> Some (
          El ''tr''
            [key i,
             OnClick (\<lambda>now. now\<lparr>qd_selected := Some i\<rparr>),
             cls (''border-b last:border-0 cursor-pointer hover:bg-blue-50 transition '' @
               (if qd_selected st = Some i then ''bg-blue-50'' else ''''))]
            [El ''td'' [cls ''p-3 font-mono''] [str (take 8 i)],
             El ''td'' [cls ''p-3''] [Val (member ''jobName'' job)],
             El ''td'' [cls ''p-3''] [Val (member ''status'' job)],
             El ''td'' [cls ''p-3'']
               [Val (member ''attempts'' job), str ''/'', Val (member ''maxAttempts'' job)],
             El ''td'' [cls ''p-3 text-gray-500'']
               [str (l_dateTime loc (member ''createdAt'' job))]])
      | _ \<Rightarrow> None)"

definition no_jobs_row :: "'h node" where
  "no_jobs_row =
     El ''tr'' []
       [El ''td'' [Attr ''colSpan'' (JNum 5), cls ''p-3 text-center text-gray-400'']
         [str ''No jobs found'']]"

definition pager :: "queue_detail \<Rightarrow> page_handler node" where
  "pager st =
     El ''div'' [cls ''flex items-center justify-between mt-4'']
       [El ''button''
          [OnClick (\<lambda>now. now\<lparr>qd_offset := max 0 (qd_offset st - PAGE_SIZE)\<rparr>),
           Attr ''disabled'' (JBool (qd_offset st = 0)),
           cls ''px-3 py-1 text-sm border rounded disabled:opacity-50 hover:bg-gray-50 transition'']
          [str ''Previous''],
        El ''span'' [cls ''text-sm text-gray-600'']
          [str ''Page '', Val (Some (JNum (of_int (currentPage st)))), str '' of '',
           Val (Some (JNum (of_int (totalPages st))))],
        El ''button''
          [OnClick (\<lambda>now. now\<lparr>qd_offset := qd_offset st + PAGE_SIZE\<rparr>),
           Attr ''disabled'' (JBool (currentPage st \<ge> totalPages st)),
           cls ''px-3 py-1 text-sm border rounded disabled:opacity-50 hover:bg-gray-50 transition'']
          [str ''Next'']]"

text \<open>\<open>{selectedJobId && (...)}\<close>: \<open>null\<close> or the empty string is a child that shows nothing.\<close>
definition selected_panel :: "queue_detail \<Rightarrow> page_handler node" where
  "selected_panel st =
     (case qd_selected st of
        None \<Rightarrow> Val (Some JNull)
      | Some i \<Rightarrow>
          if i = [] then str []
          else El ''div'' [cls ''w-96'']
            [El ''JobDetail''
              [Attr ''jobId'' (JStr i), Callback ''onClose'' (\<lambda>now. now\<lparr>qd_selected := None\<rparr>)] []])"

definition queue_detail_view :: "locale_dates \<Rightarrow> string \<Rightarrow> queue_detail \<Rightarrow> page_handler node option" where
  "queue_detail_view loc name st =
     (if name = [] then Some (Val (Some JNull))
      else map_option (\<lambda>rows.
        El ''div'' [cls ''space-y-6'']
          [El ''h1'' [cls ''text-2xl font-bold text-gray-900''] [str ''Queue: '', str name],
           El ''div'' [cls ''flex gap-2 flex-wrap''] [Arr (map (status_button st) STATUSES)],
           El ''div'' [cls ''flex gap-6'']
             [El ''div'' [cls ''flex-1'']
                [El ''div'' [cls ''bg-white rounded-lg shadow overflow-hidden'']
                   [El ''table'' [cls ''w-full text-sm'']
                      [page_head,
                       El ''tbody'' [] [Arr rows, and_el (qd_jobs st = []) no_jobs_row]]],
                 and_el (totalPages st > 1) (pager st)],
              selected_panel st],
           El ''DlqInspector'' [Attr ''queueName'' (JStr name)] []])
        (those (map (page_row loc st) (qd_jobs st))))"

subsection \<open>JobDetail\<close>

definition dt :: "string \<Rightarrow> 'h node" where
  "dt s = El ''dt'' [cls ''text-gray-500''] [str s]"

text \<open>\<open>v ? new Date(v).toLocaleString() : '-'\<close>\<close>
definition date_or_dash :: "locale_dates \<Rightarrow> json option \<Rightarrow> 'h node" where
  "date_or_dash loc v = str (if truthy_value v then l_dateTime loc v else ''-'')"

definition detail_list :: "locale_dates \<Rightarrow> json \<Rightarrow> 'h node" where
  "detail_list loc job =
     El ''dl'' [cls ''grid grid-cols-2 gap-2 text-sm'']
       [dt ''ID'', El ''dd'' [cls ''font-mono''] [Val (member ''id'' job)],
        dt ''Name'', El ''dd'' [] [Val (member ''jobName'' job)],
        dt ''Queue'', El ''dd'' [] [Val (member ''queueName'' job)],
        dt ''Status'', El ''dd'' [] [Val (member ''status'' job)],
        dt ''Attempts'',
        El ''dd'' [] [Val (member ''attempts'' job), str '' / '', Val (member ''maxAttempts'' job)],
        dt ''Created'', El ''dd'' [] [str (l_dateTime loc (member ''createdAt'' job))],
        dt ''Started'', El ''dd'' [] [date_or_dash loc (member ''startedAt'' job)],
        dt ''Completed'', El ''dd'' [] [date_or_dash loc (member ''completedAt'' job)],
        dt ''Error'', El ''dd'' [cls ''text-red-600''] [or_text (member ''errorMessage'' job) ''-''],
        dt ''Payload'',
        El ''dd'' [cls ''col-span-2 font-mono text-xs bg-gray-50 p-2 rounded overflow-auto max-h-32'']
          [Val (map_option (\<lambda>p. JStr (json_pretty p)) (member ''payload'' job))]]"

definition detail_loading :: "'h node" where
  "detail_loading =
     El ''div'' [cls ''bg-white rounded-lg shadow p-4'']
       [El ''p'' [cls ''text-gray-400''] [str ''Loading...'']]"

text \<open>\<open>onClose\<close> is an optional property, \<open>retry\<close> the closure \<open>handleRetry\<close>.\<close>
definition job_detail_view :: "locale_dates \<Rightarrow> 'h option \<Rightarrow> 'h \<Rightarrow> job_detail \<Rightarrow> 'h node" where
  "job_detail_view loc onClose retry st =
     (case (jd_error st, jd_job st) of
        (Some (c # cs), _) \<Rightarrow>
          El ''div'' [cls ''bg-white rounded-lg shadow p-4'']
            [El ''p'' [cls ''text-red-600''] [str ''Error: '', str (c # cs)]]
      | (_, Some job) \<Rightarrow>
          if \<not> json_truthy job then detail_loading
          else
            El ''div'' [cls ''bg-white rounded-lg shadow p-4'']
              [El ''div'' [cls ''flex items-center justify-between mb-4'']
                 [El ''h3'' [cls ''text-lg font-semibold text-gray-800''] [str ''Job Detail''],
                  (case onClose of
                     None \<Rightarrow> Val None
                   | Some close \<Rightarrow>
                       El ''button'' [OnClick close, cls ''text-gray-400 hover:text-gray-600''] [str ''Close''])],
               detail_list loc job,
               and_el (canRetry job)
                 (El ''button''
                   [OnClick retry,
                    Attr ''disabled'' (JBool (jd_retrying st)),
                    cls ''mt-4 px-4 py-2 bg-blue-600 text-white rounded hover:bg-blue-700 disabled:opacity-50 transition'']
                   [str (if jd_retrying st then ''Retrying...'' else ''Retry Job'')])]
      | (_, None) \<Rightarrow> detail_loading)"

subsection \<open>DlqInspector\<close>

definition inspector_head :: "'h node" where
  "inspector_head =
     El ''thead'' []
       [El ''tr'' [cls ''border-b text-left text-gray-600'']
         [th ''pb-2 pr-4'' ''ID'',
          th ''pb-2 pr-4'' ''Name'',
          th ''pb-2 pr-4'' ''Error'',
          th ''pb-2 pr-4'' ''Created'',
          th ''pb-2'' ''Action'']]"

text \<open>One row, with \<open>retry\<close> the closure \<open>handleRetry\<close>; a job without an id throws.\<close>
definition inspector_row :: "locale_dates \<Rightarrow> (string \<Rightarrow> 'h) \<Rightarrow> json \<Rightarrow> 'h node option" where
  "inspector_row loc retry job =
     (case member ''id'' job of
        Some (JStr i) \<Rightarrow> Some (
          El ''tr'' [key i, cls ''border-b last:border-0'']
            [El ''td'' [cls ''py-2 pr-4 font-mono''] [str (take 8 i)],
             El ''td'' [cls ''py-2 pr-4''] [Val (member ''jobName'' job)],
             El ''td'' [cls ''py-2 pr-4 text-red-600 max-w-xs truncate'']
               [or_text (member ''errorMessage'' job) ''-''],
             El ''td'' [cls ''py-2 pr-4 text-gray-500'']
               [str (l_dateTime loc (member ''createdAt'' job))],
             El ''td'' [cls ''py-2'']
               [El ''button''
                  [OnClick (retry i),
                   cls ''px-2 py-1 bg-blue-600 text-white text-xs rounded hover:bg-blue-700 transition'']
                  [str ''Retry'']]])
      | _ \<Rightarrow> None)"

definition inspector_error :: "dlq_view \<Rightarrow> 'h node" where
  "inspector_error st =
     (case dv_error st of
        None \<Rightarrow> Val (Some JNull)
      | Some e \<Rightarrow> if e = [] then str [] else El ''p'' [cls ''text-red-600 text-sm mb-2''] [str e])"

definition dlq_inspector_view :: "locale_dates \<Rightarrow> 'h \<Rightarrow> (string \<Rightarrow> 'h) \<Rightarrow> dlq_view \<Rightarrow> 'h node option" where
  "dlq_inspector_view loc requeueAll retry st =
     (if dv_loading st then Some (El ''p'' [cls ''text-gray-400''] [str ''Loading DLQ...''])
      else map_option (\<lambda>rows.
        El ''div'' [cls ''bg-white rounded-lg shadow p-4'']
          [El ''div'' [cls ''flex items-center justify-between mb-4'']
             [El ''h3'' [cls ''text-lg font-semibold text-gray-800''] [str ''Dead Letter Queue''],
              and_el (dv_jobs st \<noteq> [])
                (El ''button''
                  [OnClick requeueAll,
                   cls ''px-3 py-1 bg-purple-600 text-white text-sm rounded hover:bg-purple-700 transition'']
                  [str ''Requeue All''])],
           inspector_error st,
           (if dv_jobs st = [] then El ''p'' [cls ''text-gray-400 text-sm''] [str ''No jobs in DLQ'']
            else El ''div'' [cls ''overflow-x-auto'']
              [El ''table'' [cls ''w-full text-sm'']
                [inspector_head, El ''tbody'' [] [Arr rows]]])])
        (those (map (inspector_row loc retry) (dv_jobs st))))"

subsection \<open>What can be clicked\<close>

lemmas page_markup = status_button_def th_def page_head_def no_jobs_row_def pager_def selected_panel_def
lemmas detail_markup = dt_def date_or_dash_def detail_list_def detail_loading_def
lemmas inspector_markup = th_def inspector_head_def inspector_error_def

text \<open>What the user can do with the page in a state: the steps of \<open>Queue_Page\<close> that are not answers.\<close>
definition user_steps :: "queue_detail \<Rightarrow> queue_detail set" where
  "user_steps st =
     {select_status s st | s. s \<in> set STATUSES} \<union>
     {press_previous st | x :: unit. previous_enabled st} \<union>
     {press_next st | x :: unit. next_enabled st} \<union>
     {select_job (Some i) st | i. Some (JStr i) \<in> member ''id'' ` set (qd_jobs st)}"

text \<open>The id of a job of the declared type.\<close>
definition id_of :: "json \<Rightarrow> string" where
  "id_of job = (case member ''id'' job of Some (JStr i) \<Rightarrow> i | _ \<Rightarrow> [])"

definition has_id :: "json \<Rightarrow> bool" where
  "has_id job \<longleftrightarrow> (\<exists>i. member ''id'' job = Some (JStr i))"

lemma has_idE: "has_id job \<Longrightarrow> member ''id'' job = Some (JStr (id_of job))"
  by (auto simp: has_id_def id_of_def)

lemma page_row_None: "page_row loc st job = None \<longleftrightarrow> \<not> has_id job"
  by (auto simp: page_row_def has_id_def split: option.splits json.splits)

lemma page_row_facts:
  assumes "page_row loc st job = Some r"
  shows "has_id job" and "clicks r = [\<lambda>now. now\<lparr>qd_selected := Some (id_of job)\<rparr>]" and "node_key r = Some (id_of job)"
    and "keyed r" and "renders r \<longleftrightarrow> (\<forall>k \<in> {''jobName'', ''status'', ''attempts'', ''maxAttempts''}.
      \<forall>x. member k job = Some x \<longrightarrow> child_value x)"
  using assms by (auto simp: page_row_def has_id_def id_of_def node_key_def split: option.splits json.splits)

lemma clicks_status_buttons:
  "clicks (Arr (map (status_button st) ss)) = map (\<lambda>s now. now\<lparr>qd_status := s, qd_offset := 0\<rparr>) ss"
  by (simp add: status_button_def comp_def concat_map_single)

lemma clicks_rows:
  assumes "those (map (page_row loc st) jobs) = Some rows"
  shows "clicks (Arr rows) = map (\<lambda>job now. now\<lparr>qd_selected := Some (id_of job)\<rparr>) jobs"
proof -
  have "map clicks rows = map (\<lambda>job. [\<lambda>now. now\<lparr>qd_selected := Some (id_of job)\<rparr>]) jobs"
    by (rule those_rows [OF assms]) (rule page_row_facts(2))
  then show ?thesis by (simp add: concat_map_single)
qed

lemma clicks_view:
  assumes "queue_detail_view loc name st = Some v" and "name \<noteq> []"
  shows "clicks v =
    map (\<lambda>s now. now\<lparr>qd_status := s, qd_offset := 0\<rparr>) STATUSES @
    map (\<lambda>job now. now\<lparr>qd_selected := Some (id_of job)\<rparr>) (qd_jobs st) @
    (if previous_enabled st then [\<lambda>now. now\<lparr>qd_offset := max 0 (qd_offset st - PAGE_SIZE)\<rparr>] else []) @
    (if next_enabled st then [\<lambda>now. now\<lparr>qd_offset := qd_offset st + PAGE_SIZE\<rparr>] else [])"
proof -
  from assms obtain rows where rows: "those (map (page_row loc st) (qd_jobs st)) = Some rows"
    and v: "Some v = queue_detail_view loc name st"
    by (auto simp: queue_detail_view_def)
  have none: "clicks page_head = []" "clicks no_jobs_row = []" "clicks (selected_panel st) = []"
    by (auto simp: page_markup split: option.splits)
  show ?thesis
    using assms(2) v rows
    by (simp add: queue_detail_view_def clicks_status_buttons clicks_rows [OF rows] none pager_def
        previous_enabled_def next_enabled_def del: clicks.simps(3))
qed

lemma view_defined: "name \<noteq> [] \<Longrightarrow> queue_detail_view loc name st = None \<longleftrightarrow> (\<exists>job \<in> set (qd_jobs st). \<not> has_id job)"
  by (simp add: queue_detail_view_def those_defined page_row_None)



end
