(* ===== verification/Queue_Render.thy ===== *)
theory Queue_Render
  imports Queue_Markup
begin

text \<open>
  The page of a queue over the server: whatever the server answers can be shown, and what is shown
  offers the operations the server takes.
\<close>

subsection \<open>The page\<close>

abbreviation shown_members :: "string set" where
  "shown_members \<equiv> {''jobName'', ''status'', ''attempts'', ''maxAttempts''}"

definition showable :: "json \<Rightarrow> bool" where
  "showable job \<longleftrightarrow> has_id job \<and> (\<forall>k \<in> shown_members. \<forall>x. member k job = Some x \<longrightarrow> child_value x)"

lemma showable_row [simp]: "showable (row_json (i, w))" "id_of (row_json (i, w)) = i"
  by (auto simp: showable_def has_id_def id_of_def row_json_def)

lemma showable_job [simp]: "showable (job_json j)" "id_of (job_json j) = j_id j"
  by (auto simp: showable_def has_id_def id_of_def job_json_def)

lemma key_status_button: "node_key (status_button st s) = Some s"
  by (simp add: status_button_def)

lemma page_well_formed:
  assumes "\<forall>job \<in> set (qd_jobs st). showable job" and "distinct (map id_of (qd_jobs st))"
  shows "\<exists>v. queue_detail_view loc name st = Some v \<and> well_formed v"
proof (cases "name = []")
  case False
  have "\<forall>job \<in> set (qd_jobs st). has_id job" using assms(1) by (simp add: showable_def)
  then obtain rows where rows: "those (map (page_row loc st) (qd_jobs st)) = Some rows"
    using those_defined [of "page_row loc st" "qd_jobs st"] page_row_None by fastforce
  have "keyed (Arr rows)" by (rule keyed_rows [OF rows _ assms(2)]) (use page_row_facts(3,4) in blast)
  moreover have "renders (Arr rows)"
    by (rule renders_rows [OF rows]) (use assms(1) page_row_facts(5) in \<open>auto simp: showable_def\<close>)
  moreover have "keyed (Arr (map (status_button st) STATUSES))"
    by (subst keyed_map [where f = id]) (simp_all add: key_status_button STATUSES_def status_button_def)
  moreover have "renders (Arr (map (status_button st) STATUSES))" by (simp add: status_button_def)
  ultimately show ?thesis using False rows
    by (simp add: queue_detail_view_def well_formed_def page_markup split: option.splits del: keyed.simps(3) renders.simps(3))
qed (simp add: queue_detail_view_def well_formed_def)

text \<open>C33: Whatever page the server answers, the queue page renders it: no row throws, every child is a value
  that React can show, and the rows and buttons have distinct keys.\<close>
theorem loaded_page_renders:
  assumes "backend exec view" and "rd_redis deps" and "\<not> truthy (env ''JWT_SECRET'')" and "plain_name q"
    and "page_step\<^sup>*\<^sup>* fresh_page st" and "run exec (fetch_page (network deps env) q st) s = (Inr st', s')"
  shows "\<exists>v. queue_detail_view loc q st' = Some v \<and> well_formed v"
proof -
  have st: "whole_pages st" "qd_status st \<in> set STATUSES" using page_query_accepted [OF assms(5)] by blast+
  from backend.run_post [OF assms(1,6) vwp_fetch_page [where env = env, OF assms(2-4) st]]
  obtain all where all: "newest_first (view s) q (status_of_page st) all"
    and st': "qd_jobs st' = map row_json (take 20 (drop (nat (qd_offset st)) all))" by auto
  let ?page = "take 20 (drop (nat (qd_offset st)) all)"
  have "map id_of (qd_jobs st') = map fst ?page" by (auto simp: st')
  moreover have "distinct (map fst ?page)"
    using all by (simp add: newest_first_def take_map [symmetric] drop_map [symmetric])
  moreover have "\<forall>job \<in> set (qd_jobs st'). showable job" by (auto simp: st')
  ultimately show ?thesis using page_well_formed [of st'] by presburger
qed

lemma page_loads_example:
  "\<exists>st' m. run (mem_exec no_faults) (fetch_page (network no_deps Map.empty) ''q'' (select_status ''dlq'' fresh_page)) mem_dead =
    (Inr st', m) \<and> qd_jobs st' = [row_json (''j'', snd (hd (m_rows mem_dead)))]"
  by (simp add: page_eval cong: run_congs)

theorem loaded_page_renders_witness:
  "\<exists>st' m v. run (mem_exec no_faults) (fetch_page (network no_deps Map.empty) ''q'' (select_status ''dlq'' fresh_page)) mem_dead =
    (Inr st', m) \<and> queue_detail_view some_dates ''q'' st' = Some v \<and> well_formed v"
proof -
  obtain st' m where rm: "run (mem_exec no_faults) (fetch_page (network no_deps Map.empty) ''q'' (select_status ''dlq'' fresh_page)) mem_dead =
    (Inr st', m)" using page_loads_example by blast
  have "page_step\<^sup>*\<^sup>* fresh_page (select_status ''dlq'' fresh_page)"
    by (rule r_into_rtranclp, rule page_step.Status) (simp add: STATUSES_def)
  from loaded_page_renders [OF mem_backend _ _ _ this rm, of some_dates] rm show ?thesis by (simp add: no_deps_def)
qed

subsection \<open>One job\<close>

lemma detail_list_facts:
  "clicks (detail_list loc (job_json j)) = []" "well_formed (detail_list loc (job_json j))"
  by (auto simp: detail_markup job_json_def well_formed_def opt_json_def split: option.splits)

lemma shown_payload:
  "(ps, [Val (Some (JStr t))]) \<in> set (elements ''dd'' (detail_list loc (job_json j)))"
    if "t = json_pretty (jsonb (j_payload j))" and "ps = [cls ''col-span-2 font-mono text-xs bg-gray-50 p-2 rounded overflow-auto max-h-32'']"
  using that by (simp add: detail_markup job_json_def)

lemma vwp_load_job:
  assumes "plain_name i"
  shows "vwp any_state (load_job (network deps env) i st)
    (\<lambda>r u. u = v \<and> (\<forall>st'. r = Inr st' \<longrightarrow> jd_error st' = None \<longrightarrow> (\<exists>w. s_rows v i = Some w \<and>
       st' = st\<lparr>jd_error := None, jd_job := Some (job_json (job_of_row i w))\<rparr>))) v"
  unfolding load_job_def vwp_try_catch vwp_await
  by (rule vwp_mono [OF vwp_getJob_api [OF assms]]) (auto simp: then_post_def catch_post_def split: sum.splits)

text \<open>The detail of a job that was loaded shows the job of the table: its payload is shown as a text that
  stands for it, the close button is there where the page takes it, and the retry button can be
  clicked exactly where the server would take the retry and none is under way.\<close>
theorem detail_shows_job:
  assumes "backend exec view" and "plain_name i" and "run exec (load_job (network deps env) i st) s = (Inr st', s')"
    and "jd_error st' = None" and "v = job_detail_view loc onClose retry st'"
  shows "\<exists>w. s_rows (view s) i = Some w \<and> well_formed v \<and>
    clicks v = (case onClose of None \<Rightarrow> [] | Some h \<Rightarrow> [h]) @ (if r_status w \<in> {Failed, Dlq} \<and> \<not> jd_retrying st then [retry] else []) \<and>
    (json_ok (jsonb (nullish (r_payload w) ''null'')) \<longrightarrow> (\<exists>ps t. (ps, [str t]) \<in> set (elements ''dd'' v) \<and>
       json_parse t = Some (jsonb (nullish (r_payload w) ''null''))))"
proof -
  from backend.run_post [OF assms(1,3) vwp_load_job [OF assms(2)]] assms(4)
  obtain w where w: "s_rows (view s) i = Some w"
    and st': "st' = st\<lparr>jd_error := None, jd_job := Some (job_json (job_of_row i w))\<rparr>" by auto
  let ?job = "job_json (job_of_row i w)"
  have truthy: "json_truthy ?job" by (simp add: job_json_def)
  have payload: "j_payload (job_of_row i w) = nullish (r_payload w) ''null''" by (simp add: job_of_row_def)
  have view: "clicks v = (case onClose of None \<Rightarrow> [] | Some h \<Rightarrow> [h]) @ (if r_status w \<in> {Failed, Dlq} \<and> \<not> jd_retrying st then [retry] else [])"
    "well_formed v" "set (elements ''dd'' (detail_list loc ?job)) \<subseteq> set (elements ''dd'' v)"
    using detail_list_facts [of loc "job_of_row i w"]
    by (auto simp: assms(5) st' job_detail_view_def truthy canRetry_row well_formed_def split: option.splits)
  moreover have "\<exists>ps t. (ps, [str t]) \<in> set (elements ''dd'' v) \<and> json_parse t = Some (jsonb (nullish (r_payload w) ''null''))"
    if "json_ok (jsonb (nullish (r_payload w) ''null''))"
    using shown_payload [OF refl refl, of "job_of_row i w" loc] view(3) json_pretty_back [OF that] unfolding payload by blast
  ultimately show ?thesis using w by blast
qed

theorem detail_shows_job_witness:
  "\<exists>st' m ps t. run (mem_exec no_faults) (load_job (network no_deps Map.empty) ''j'' \<lparr>jd_job = None, jd_error = None, jd_retrying = False\<rparr>) mem_dead = (Inr st', m) \<and>
     clicks (job_detail_view some_dates (Some False) True st') = [False, True] \<and>
     (ps, [str t]) \<in> set (elements ''dd'' (job_detail_view some_dates (Some False) True st')) \<and> json_parse t = Some (JNum 1)"
proof -
  let ?st = "\<lparr>jd_job = None, jd_error = None, jd_retrying = False\<rparr>"
  obtain m where "run (mem_exec no_faults) (getJob_api (network no_deps Map.empty) ''j'') mem_dead =
     (Inr (job_json (job_of_row ''j'' (snd (hd (m_rows mem_dead))))), m)" using dead_job_shown by blast
  then obtain st' where rm: "run (mem_exec no_faults) (load_job (network no_deps Map.empty) ''j'' ?st) mem_dead = (Inr st', m)"
    and ok: "jd_error st' = None"
    by (simp add: load_job_def run_eval cong: run_congs)
  have "json_parse (json_stringify (JNum 1)) = Some (JNum 1)" by (rule json_roundtrip) (use is_decimal_of_int [of 1] in simp)
  moreover have "json_stringify (JNum 1) = ''1''" by code_simp
  ultimately have one: "jsonb ''1'' = JNum 1" "json_ok (JNum 1)" using is_decimal_of_int [of 1] by (simp_all add: jsonb_def)
  have row: "s_rows (mem_view mem_dead) ''j'' = Some w \<Longrightarrow> r_status w = Dlq \<and> r_payload w = Some ''1''" for w
    by (auto simp: mem_dead_def mem_view_def mem_empty_def default_row_def)
  from detail_shows_job [where onClose = "Some False" and retry = True and loc = some_dates, OF mem_backend _ rm ok refl] rm row one show ?thesis
    by fastforce
qed

subsection \<open>The dead letters\<close>

lemma inspector_row_facts:
  assumes "inspector_row loc retry job = Some r"
  shows "has_id job" and "clicks r = [retry (id_of job)]" and "node_key r = Some (id_of job)" and "keyed r"
    and "renders r \<longleftrightarrow> (\<forall>k \<in> {''jobName'', ''errorMessage''}. \<forall>x. member k job = Some x \<longrightarrow> truthy_value (Some x) \<or> k = ''jobName'' \<longrightarrow> child_value x)"
  using assms by (auto simp: inspector_row_def has_id_def id_of_def split: option.splits json.splits)

definition inspectable :: "json \<Rightarrow> bool" where
  "inspectable job \<longleftrightarrow> has_id job \<and> (\<forall>k \<in> {''jobName'', ''errorMessage''}. \<forall>x. member k job = Some x \<longrightarrow> child_value x)"

lemma inspector_row_defined: "inspectable job \<Longrightarrow> inspector_row loc retry job \<noteq> None"
  by (auto simp: inspectable_def inspector_row_def has_id_def)

lemma inspector_facts:
  assumes "\<not> dv_loading st" and "\<forall>job \<in> set (dv_jobs st). inspectable job"
    and "distinct (map id_of (dv_jobs st))"
  shows "\<exists>v. dlq_inspector_view loc requeueAll retry st = Some v \<and> well_formed v \<and>
    clicks v = (if dv_jobs st = [] then [] else requeueAll # map (\<lambda>job. retry (id_of job)) (dv_jobs st))"
proof -
  have "those (map (inspector_row loc retry) (dv_jobs st)) \<noteq> None"
    unfolding those_defined using assms(2) inspector_row_defined by blast
  then obtain rows where rows: "those (map (inspector_row loc retry) (dv_jobs st)) = Some rows" by blast
  have "map clicks rows = map (\<lambda>job. [retry (id_of job)]) (dv_jobs st)"
    by (rule those_rows [OF rows]) (rule inspector_row_facts(2))
  then have "clicks (Arr rows) = map (\<lambda>job. retry (id_of job)) (dv_jobs st)" by (simp add: concat_map_single)
  moreover have "keyed (Arr rows)" by (rule keyed_rows [OF rows _ assms(3)]) (use inspector_row_facts(3,4) in blast)
  moreover have "renders (Arr rows)"
    by (rule renders_rows [OF rows]) (use assms(2) inspector_row_facts(5) in \<open>simp add: inspectable_def; blast\<close>)
  ultimately show ?thesis using assms(1) rows
    by (simp add: dlq_inspector_view_def well_formed_def inspector_markup split: option.splits
        del: clicks.simps(3) keyed.simps(3) renders.simps(3))
qed

lemma dlq_entry_facts:
  "inspectable (dlq_entry_json q i hash p)" "id_of (dlq_entry_json q i hash p) = nullish (hash ''id'') i"
  by (auto simp: inspectable_def dlq_entry_json_def has_id_def id_of_def str_or_null_def)

text \<open>Hashes that carry the id they are stored under, or none.\<close>
definition named_hashes :: "store \<Rightarrow> string list \<Rightarrow> bool" where
  "named_hashes v ids \<longleftrightarrow> (\<forall>i \<in> set ids. s_hashes v (job_key i) ''id'' \<in> {None, Some i})"


lemma dlq_call_here:
  "network no_deps Map.empty (dlq_call ''q'') =
     await (await now (\<lambda>_. Ret Next)) (case_middleware_result (get_dlq ''q'' (arriving_request (dlq_call ''q''))) Ret)"
  by (subst network_route [where e = DlqE and ps = "[(''name'', ''q'')]" and g = Jwt])
    (simp_all add: no_deps_def call_routes run_guard_def jwtMiddleware_def handler_def)

lemma lrange_one: "lrange 0 49 [x] = [x]"
  by (simp add: lrange_def)

lemmas dlq_eval = run_eval fetchJobs_def getDlqJobs_def api_fetch_def dlq_call_here get_dlq_def or_next_def dlq_request
  as_integer_def dlq_entry_def dlq_payload_def mem_dead_def lrange_one

lemma inspector_loads_example:
  "\<exists>st' m. run (mem_exec no_faults) (fetchJobs (network no_deps Map.empty) ''q'' \<lparr>dv_jobs = [], dv_loading = True, dv_error = None\<rparr>) mem_dead = (Inr st', m) \<and>
     dv_error st' = None \<and> s_lists (mem_view m) (dlq_key ''q'') = [''j''] \<and> s_hashes (mem_view m) (job_key ''j'') = Map.empty"
  by (simp add: dlq_eval mem_view_def mem_empty_def cong: run_congs)


end
