(* ===== verification/Home_Markup.thy ===== *)
theory Home_Markup
  imports Jsx Live_Views Dashboard_Home
begin

text \<open>
  What the overview shows: the elements that \<^verbatim>\<open>App.tsx\<close>, \<^verbatim>\<open>components/Layout.tsx\<close>,
  \<^verbatim>\<open>pages/Dashboard.tsx\<close>, \<^verbatim>\<open>components/QueueCard.tsx\<close>, \<^verbatim>\<open>WorkersPanel.tsx\<close>, \<^verbatim>\<open>ThroughputChart.tsx\<close> and
  \<^verbatim>\<open>JobTable.tsx\<close> return for their state.
\<close>

subsection \<open>Values in texts and properties\<close>

text \<open>A value in a template literal.\<close>
fun value_template :: "json \<Rightarrow> string" where
  "value_template JNull = ''null''"
| "value_template (JBool b) = (if b then ''true'' else ''false'')"
| "value_template (JNum x) = js_String (Num x)"
| "value_template (JStr s) = s"
| "value_template (JArr xs) = join_comma (map (\<lambda>x. if x = JNull then [] else value_template x) xs)"
| "value_template (JObj ms) = ''[object Object]''"

definition template :: "json option \<Rightarrow> string" where
  "template v = (case v of None \<Rightarrow> ''undefined'' | Some x \<Rightarrow> value_template x)"

lemma template_simps [simp]: "template (Some (JStr s)) = s" "template None = ''undefined''"
  by (simp_all add: template_def)

text \<open>A property whose value may be \<open>undefined\<close>.\<close>
definition attr :: "string \<Rightarrow> json option \<Rightarrow> 'h jsx_prop list" where
  "attr n v = (case v of None \<Rightarrow> [] | Some x \<Rightarrow> [Attr n x])"

text \<open>\<open>COLORS[k] || d\<close>\<close>
definition color_of :: "(string \<times> string) list \<Rightarrow> string \<Rightarrow> string" where
  "color_of colors k = nullish (map_of colors k) ''bg-gray-100 text-gray-800''"

subsection \<open>JobTable\<close>

definition event_colors :: "(string \<times> string) list" where
  "event_colors =
    [(''job.created'', ''bg-gray-100 text-gray-800''),
     (''job.started'', ''bg-blue-100 text-blue-800''),
     (''job.completed'', ''bg-green-100 text-green-800''),
     (''job.failed'', ''bg-red-100 text-red-800''),
     (''job.dlq'', ''bg-purple-100 text-purple-800''),
     (''job.retried'', ''bg-yellow-100 text-yellow-800'')]"

type_synonym table_handler = "job_table \<Rightarrow> job_table"

definition choice :: "json option \<Rightarrow> 'h node" where
  "choice q = El ''option'' (attr ''key'' q @ attr ''value'' q) [Val q]"

definition queue_select :: "job_table \<Rightarrow> table_handler node" where
  "queue_select t =
     El ''select''
       [Attr ''value'' (JStr (jt_filterQueue t)),
        OnChange (\<lambda>x now. now\<lparr>jt_filterQueue := x\<rparr>),
        cls ''text-sm border rounded px-2 py-1'']
       [El ''option'' [Attr ''value'' (JStr '''')] [str ''All Queues''],
        Arr (map choice (table_queues t))]"

definition status_select :: "job_table \<Rightarrow> table_handler node" where
  "status_select t =
     El ''select''
       [Attr ''value'' (JStr (jt_filterStatus t)),
        OnChange (\<lambda>x now. now\<lparr>jt_filterStatus := x\<rparr>),
        cls ''text-sm border rounded px-2 py-1'']
       [El ''option'' [Attr ''value'' (JStr '''')] [str ''All Statuses''],
        Arr (map choice (table_statuses t))]"

definition table_head :: "'h node" where
  "table_head =
     El ''thead'' []
       [El ''tr'' [cls ''border-b text-left text-gray-600'']
         [th ''pb-2 pr-4'' ''Time'',
          th ''pb-2 pr-4'' ''Job ID'',
          th ''pb-2 pr-4'' ''Name'',
          th ''pb-2 pr-4'' ''Queue'',
          th ''pb-2 pr-4'' ''Status'',
          th ''pb-2'' ''Duration'']]"

text \<open>\<open>event.duration != null ? `${event.duration}ms` : '-'\<close>\<close>
definition duration_text :: "json option \<Rightarrow> string" where
  "duration_text v = (case v of None \<Rightarrow> ''-'' | Some x \<Rightarrow> if x = JNull then ''-'' else value_template x @ ''ms'')"

definition event_key :: "nat \<Rightarrow> json \<Rightarrow> string" where
  "event_key i event =
     template (member ''jobId'' event) @ ''-'' @ template (member ''timestamp'' event) @ ''-'' @ int_str (int i)"

definition event_row :: "locale_dates \<Rightarrow> nat \<Rightarrow> json \<Rightarrow> table_handler node option" where
  "event_row loc i event = map_option (\<lambda>short.
     El ''tr'' [key (event_key i event), cls ''border-b last:border-0'']
       [El ''td'' [cls ''py-2 pr-4 text-gray-500''] [str (l_time loc (member ''timestamp'' event))],
        El ''td'' [cls ''py-2 pr-4 font-mono''] [str short],
        El ''td'' [cls ''py-2 pr-4''] [Val (member ''jobName'' event)],
        El ''td'' [cls ''py-2 pr-4''] [Val (member ''queueName'' event)],
        El ''td'' [cls ''py-2 pr-4'']
          [El ''span''
            [cls (''px-2 py-0.5 rounded text-xs font-medium '' @ color_of event_colors (template (member ''type'' event)))]
            [Val (member ''type'' event)]],
        El ''td'' [cls ''py-2 text-gray-500''] [str (duration_text (member ''duration'' event))]])
     (slice8 (member ''jobId'' event))"

definition job_table_view :: "locale_dates \<Rightarrow> job_table \<Rightarrow> table_handler node option" where
  "job_table_view loc t = map_option (\<lambda>rows.
     El ''div'' [cls ''bg-white rounded-lg shadow p-4'']
       [El ''div'' [cls ''flex items-center justify-between mb-4'']
          [El ''h2'' [cls ''text-lg font-semibold text-gray-800''] [str ''Live Job Stream''],
           El ''div'' [cls ''flex gap-2''] [queue_select t, status_select t]],
        El ''div'' [cls ''overflow-x-auto'']
          [El ''table'' [cls ''w-full text-sm''] [table_head, El ''tbody'' [] [Arr rows]],
           and_el (table_filtered t = [])
             (El ''p'' [cls ''text-center text-gray-400 py-8''] [str ''No events yet. Waiting for jobs...''])]])
     (those (map (\<lambda>(i, e). event_row loc i e) (enumerate 0 (table_filtered t))))"

subsection \<open>WorkersPanel\<close>

definition worker_colors :: "(string \<times> string) list" where
  "worker_colors =
    [(''active'', ''bg-green-100 text-green-800''),
     (''idle'', ''bg-gray-100 text-gray-800''),
     (''draining'', ''bg-yellow-100 text-yellow-800'')]"

definition workers_head :: "'h node" where
  "workers_head =
     El ''thead'' []
       [El ''tr'' [cls ''border-b text-left text-gray-600'']
         [th ''pb-2 pr-4'' ''ID'',
          th ''pb-2 pr-4'' ''Status'',
          th ''pb-2 pr-4'' ''Queue'',
          th ''pb-2 pr-4'' ''Jobs'',
          th ''pb-2'' ''Last Heartbeat'']]"

text \<open>The declared type is a number or \<open>null\<close>.\<close>
definition heartbeat_time :: "json option \<Rightarrow> rat option" where
  "heartbeat_time v = (case v of Some (JNum t) \<Rightarrow> Some t | _ \<Rightarrow> None)"

text \<open>One row at the time \<open>clock\<close>; a worker without an id throws.\<close>
definition worker_row :: "int \<Rightarrow> json \<Rightarrow> 'h node option" where
  "worker_row clock worker = map_option (\<lambda>short.
     El ''tr'' (attr ''key'' (member ''id'' worker) @ [cls ''border-b last:border-0''])
       [El ''td'' [cls ''py-2 pr-4 font-mono''] [str short],
        El ''td'' [cls ''py-2 pr-4'']
          [El ''span''
            [cls (''px-2 py-0.5 rounded text-xs font-medium '' @ color_of worker_colors (template (member ''status'' worker)))]
            [Val (member ''status'' worker)]],
        El ''td'' [cls ''py-2 pr-4''] [Val (member ''queue'' worker)],
        El ''td'' [cls ''py-2 pr-4''] [Val (member ''currentJobs'' worker)],
        El ''td'' [cls ''py-2 text-gray-500''] [str (relativeTime clock (heartbeat_time (member ''lastHeartbeat'' worker)))]])
     (slice8 (member ''id'' worker))"

definition workers_panel_view :: "int \<Rightarrow> overview \<Rightarrow> 'h node option" where
  "workers_panel_view clock st = map_option (\<lambda>rows.
     El ''div'' [cls ''bg-white rounded-lg shadow p-4'']
       [El ''h2'' [cls ''text-lg font-semibold text-gray-800 mb-4''] [str ''Workers''],
        (if ov_workers st = [] then El ''p'' [cls ''text-gray-400 text-sm''] [str ''No active workers'']
         else El ''div'' [cls ''overflow-x-auto'']
           [El ''table'' [cls ''w-full text-sm''] [workers_head, El ''tbody'' [] [Arr rows]]])])
     (those (map (worker_row clock) (ov_workers st)))"

subsection \<open>QueueCard and Dashboard\<close>

text \<open>A click navigates to a path; \<open>label\<close> is the text before the number.\<close>
definition card_badge :: "string \<Rightarrow> string \<Rightarrow> json option \<Rightarrow> 'h node" where
  "card_badge c label v = El ''span'' [cls (''px-2 py-1 text-xs font-medium rounded '' @ c)] [str label, Val v]"

definition queue_card_view :: "json \<Rightarrow> string node" where
  "queue_card_view queue =
     El ''div''
       [OnClick (''/queues/'' @ encodeURIComponent (template (member ''name'' queue))),
        cls ''bg-white rounded-lg shadow p-4 cursor-pointer hover:shadow-md transition'']
       [El ''h3'' [cls ''text-lg font-semibold text-gray-800 mb-3''] [Val (member ''name'' queue)],
        El ''div'' [cls ''flex flex-wrap gap-2'']
          [card_badge ''bg-yellow-100 text-yellow-800'' ''Pending: '' (member ''pending'' queue),
           card_badge ''bg-blue-100 text-blue-800'' ''Active: '' (member ''active'' queue),
           card_badge ''bg-green-100 text-green-800'' ''Completed: '' (member ''completed'' queue),
           card_badge ''bg-red-100 text-red-800'' ''Failed: '' (member ''failed'' queue),
           card_badge ''bg-purple-100 text-purple-800'' ''DLQ: '' (member ''dlq'' queue)]]"

definition dashboard_view :: "overview \<Rightarrow> 'h node" where
  "dashboard_view st =
     El ''div'' [cls ''space-y-6'']
       [El ''h1'' [cls ''text-2xl font-bold text-gray-900''] [str ''Dashboard''],
        El ''div'' [cls ''grid grid-cols-1 sm:grid-cols-2 lg:grid-cols-3 gap-4'']
          [Arr (map (\<lambda>queue. El ''QueueCard'' (attr ''key'' (member ''name'' queue) @ [Attr ''queue'' queue]) []) (ov_queues st)),
           and_el (ov_queues st = []) (El ''p'' [cls ''text-gray-400 col-span-full''] [str ''No queues found''])],
        El ''div'' [cls ''grid grid-cols-1 lg:grid-cols-2 gap-6'']
          [El ''ThroughputChart'' [] [], El ''WorkersPanel'' [] []],
        El ''JobTable'' [] []]"

subsection \<open>ThroughputChart\<close>

definition chart_data :: "chart \<Rightarrow> json" where
  "chart_data c = JArr (map (\<lambda>(t, n). JObj [(''time'', JStr t), (''throughput'', JNum (of_int n))]) (ch_data c))"

definition throughput_chart_view :: "chart \<Rightarrow> 'h node" where
  "throughput_chart_view c =
     El ''div'' [cls ''bg-white rounded-lg shadow p-4'']
       [El ''h2'' [cls ''text-lg font-semibold text-gray-800 mb-4''] [str ''Throughput (jobs/sec)''],
        El ''ResponsiveContainer'' [Attr ''width'' (JStr ''100%''), Attr ''height'' (JNum 200)]
          [El ''LineChart'' [Attr ''data'' (chart_data c)]
            [El ''CartesianGrid'' [Attr ''strokeDasharray'' (JStr ''3 3'')] [],
             El ''XAxis''
               [Attr ''dataKey'' (JStr ''time''), Attr ''tick'' (JObj [(''fontSize'', JNum 10)]),
                Attr ''interval'' (JStr ''preserveStartEnd'')] [],
             El ''YAxis'' [Attr ''allowDecimals'' (JBool False)] [],
             El ''Tooltip'' [] [],
             El ''Line''
               [Attr ''type'' (JStr ''monotone''), Attr ''dataKey'' (JStr ''throughput''),
                Attr ''stroke'' (JStr ''#3b82f6''), Attr ''dot'' (JBool False), Attr ''strokeWidth'' (JNum 2)] []]]]"

subsection \<open>Layout and App\<close>

definition layout_view :: "'h node \<Rightarrow> 'h node" where
  "layout_view children =
     El ''div'' [cls ''min-h-screen bg-gray-100'']
       [El ''nav'' [cls ''bg-gray-900 text-white shadow-lg'']
          [El ''div'' [cls ''max-w-7xl mx-auto px-4 sm:px-6 lg:px-8'']
            [El ''div'' [cls ''flex items-center justify-between h-16'']
              [El ''Link'' [Attr ''to'' (JStr ''/''), cls ''text-xl font-bold tracking-tight''] [str ''NexusQueue''],
               El ''div'' [cls ''flex space-x-4'']
                 [El ''Link''
                   [Attr ''to'' (JStr ''/''),
                    cls ''px-3 py-2 rounded-md text-sm font-medium hover:bg-gray-700 transition'']
                   [str ''Dashboard'']]]]],
        El ''main'' [cls ''max-w-7xl mx-auto px-4 sm:px-6 lg:px-8 py-8''] [children]]"

definition app_view :: "'h node" where
  "app_view =
     layout_view
       (El ''Routes'' []
         [El ''Route'' [Attr ''path'' (JStr ''/''), ElAttr ''element'' (El ''Dashboard'' [] [])] [],
          El ''Route'' [Attr ''path'' (JStr ''/queues/:name''), ElAttr ''element'' (El ''QueueDetail'' [] [])] []])"

text \<open>The root of \<^verbatim>\<open>main.tsx\<close>.\<close>
definition root_view :: "'h node" where
  "root_view = El ''StrictMode'' [] [El ''BrowserRouter'' [] [El ''App'' [] []]]"

end
