(* ===== verification/Home_Render.thy ===== *)
theory Home_Render
  imports Home_Markup
begin

text \<open>
  The overview over the server.  The router is the documented one of \<^verbatim>\<open>react-router-dom\<close>: the segments of a
  path are decoded and matched with the routes in order.  A card leads to the page of its queue,
  whatever the server answers can be shown, and the live table shows the events that pass its filters.
\<close>

subsection \<open>Routes of the dashboard\<close>

text \<open>A path of a route: \<open>:x\<close> is a parameter, which takes one segment.\<close>
definition read_route :: "string \<Rightarrow> segment list" where
  "read_route p = map (\<lambda>w. case w of c # cs \<Rightarrow> (if c = CHR '':'' then Param cs else Lit w) | [] \<Rightarrow> Lit [])
     (filter (\<lambda>w. w \<noteq> []) (split_on (CHR ''/'') p))"

fun route_element :: "'h jsx_prop list \<Rightarrow> 'h node option" where
  "route_element [] = None"
| "route_element (ElAttr n e # ps) = Some e"
| "route_element (p # ps) = route_element ps"

fun route_path :: "'h jsx_prop list \<Rightarrow> string" where
  "route_path [] = []"
| "route_path (Attr n v # ps) = (case v of JStr s \<Rightarrow> if n = ''path'' then s else route_path ps | _ \<Rightarrow> route_path ps)"
| "route_path (p # ps) = route_path ps"

text \<open>The element that the router shows at a path, and the parameters it finds in it.\<close>
fun first_route :: "('h jsx_prop list \<times> 'h node list) list \<Rightarrow> string list \<Rightarrow> ('h node \<times> (string \<times> string) list) option" where
  "first_route [] ss = None"
| "first_route ((ps, cs) # rs) ss =
     (case (match_path (read_route (route_path ps)) ss, route_element ps) of
        (Some params, Some e) \<Rightarrow> Some (e, params)
      | _ \<Rightarrow> first_route rs ss)"

definition shown_at :: "'h node \<Rightarrow> string \<Rightarrow> ('h node \<times> (string \<times> string) list) option" where
  "shown_at app path = (case path_segments path of None \<Rightarrow> None | Some ss \<Rightarrow> first_route (elements ''Route'' app) ss)"

lemma app_routes:
  "elements ''Route'' app_view =
    [([Attr ''path'' (JStr ''/''), ElAttr ''element'' (El ''Dashboard'' [] [])], []),
     ([Attr ''path'' (JStr ''/queues/:name''), ElAttr ''element'' (El ''QueueDetail'' [] [])], [])]"
  by (simp add: app_view_def layout_view_def)

lemma route_patterns: "read_route ''/'' = []" "read_route ''/queues/:name'' = [Lit ''queues'', Param ''name'']"
  by (simp_all add: read_route_def)



subsection \<open>The overview\<close>

text \<open>Cards and workers as the server lists them, each once.\<close>
definition overview_ok :: "overview \<Rightarrow> bool" where
  "overview_ok st \<longleftrightarrow>
     (\<exists>qs. ov_queues st = map queue_stats_json qs \<and> distinct (map qs_name qs)) \<and>
     (\<exists>ws. ov_workers st = map worker_info_json ws \<and> distinct (map wi_id ws))"

lemma overview_ok_shown:
  assumes "ov_queues st' = ov_queues st \<or> shows_queues u st'" and "ov_workers st' = ov_workers st \<or> shows_workers v st'" and "overview_ok st"
  shows "overview_ok st'"
proof -
  have "\<exists>qs. ov_queues st' = map queue_stats_json qs \<and> distinct (map qs_name qs)" if "shows_queues u st'"
  proof -
    from that obtain names where n: "distinct names" "ov_queues st' = map (\<lambda>q. queue_stats_json (stats_of u q)) names"
      by (auto simp: shows_queues_def)
    then have "ov_queues st' = map queue_stats_json (map (stats_of u) names)" "distinct (map qs_name (map (stats_of u) names))"
      by (simp_all add: stats_of_def comp_def)
    then show ?thesis by blast
  qed
  moreover have "\<exists>ws. ov_workers st' = map worker_info_json ws \<and> distinct (map wi_id ws)" if "shows_workers v st'"
  proof -
    from that obtain names where n: "distinct names" "ov_workers st' = map (\<lambda>i. worker_info_json (info_of v i)) names"
      by (auto simp: shows_workers_def)
    then have "ov_workers st' = map worker_info_json (map (info_of v) names)" "distinct (map wi_id (map (info_of v) names))"
      by (simp_all add: info_of_def comp_def Let_def)
    then show ?thesis by blast
  qed
  ultimately show ?thesis using assms unfolding overview_ok_def by metis
qed

lemma stats_member: "member ''name'' (queue_stats_json q) = Some (JStr (qs_name q))"
  by (simp add: queue_stats_json_def)

lemma dashboard_well_formed:
  assumes "overview_ok st"
  shows "well_formed (dashboard_view st :: 'h node)"
proof -
  obtain qs where qs: "ov_queues st = map queue_stats_json qs" "distinct (map qs_name qs)"
    using assms unfolding overview_ok_def by blast
  let ?card = "\<lambda>q. El ''QueueCard'' [key (qs_name q), Attr ''queue'' (queue_stats_json q)] [] :: 'h node"
  let ?cards = "map (\<lambda>queue. El ''QueueCard'' (attr ''key'' (member ''name'' queue) @ [Attr ''queue'' queue]) []) (ov_queues st) :: 'h node list"
  have "?cards = map ?card qs" by (simp add: qs(1) stats_member attr_def)
  moreover have "keyed (Arr (map ?card qs))" by (subst keyed_map [where f = qs_name]) (simp_all add: qs(2))
  ultimately have "keyed (Arr ?cards)" by (simp only:)
  then show ?thesis by (simp add: dashboard_view_def well_formed_def del: keyed.simps(3))
qed

lemma worker_row_info:
  "worker_row clock (worker_info_json w) = Some r \<Longrightarrow> node_key r = Some (wi_id w) \<and> keyed r \<and> renders r"
  by (auto simp: worker_row_def worker_info_json_def attr_def json_num_def split: jsnum.splits)

lemma workers_well_formed:
  assumes "overview_ok st"
  shows "\<exists>v :: 'h node. workers_panel_view clock st = Some v \<and> well_formed v"
proof -
  obtain ws where ws: "ov_workers st = map worker_info_json ws" "distinct (map wi_id ws)"
    using assms unfolding overview_ok_def by blast
  let ?f = "\<lambda>w. worker_row clock (worker_info_json w) :: 'h node option"
  have "those (map ?f ws) \<noteq> None"
    unfolding those_defined by (simp add: worker_row_def worker_info_json_def)
  then obtain rows where rows: "those (map ?f ws) = Some rows" by blast
  have "keyed (Arr rows)" by (rule keyed_rows [OF rows _ ws(2)]) (use worker_row_info in blast)
  moreover have "renders (Arr rows)" by (rule renders_rows [OF rows]) (use worker_row_info in blast)
  moreover have "those (map (worker_row clock) (ov_workers st)) = Some rows" using rows by (simp add: ws(1) comp_def)
  ultimately show ?thesis
    by (cases "ov_workers st = []") (simp_all add: workers_panel_view_def well_formed_def workers_head_def th_def del: keyed.simps(3) renders.simps(3))
qed

text \<open>However the two loads of the overview end, what they leave can be rendered: no card or row throws or
  has a child that React cannot show, and the keys of the cards and of the workers are distinct.\<close>
theorem overview_renders:
  assumes "backend exec view" and "rd_redis deps" and "\<not> truthy (env ''JWT_SECRET'')" and "overview_ok st"
    and "run exec (await (fetchQueues (network deps env) st) (fetchWorkers (network deps env))) s = (r, s')"
  shows "\<exists>st' v. r = Inr st' \<and> overview_ok st' \<and> well_formed (dashboard_view st') \<and>
    workers_panel_view clock st' = Some v \<and> well_formed v"
proof -
  from overview_truthful [OF assms(1-3,5)] obtain st' where "r = Inr st'"
    "ov_queues st' = ov_queues st \<or> shows_queues (view s') st'" "ov_workers st' = ov_workers st \<or> shows_workers (view s') st'" by blast
  moreover from overview_ok_shown [OF this(2,3) assms(4)] have "overview_ok st'" .
  ultimately show ?thesis using dashboard_well_formed workers_well_formed by blast
qed

theorem overview_renders_witness:
  "\<exists>st' m v. run (mem_exec no_faults) (await (fetchQueues (network no_deps Map.empty) fresh_overview) (fetchWorkers (network no_deps Map.empty))) mem_dead = (Inr st', m) \<and>
     workers_panel_view 0 st' = Some v \<and> well_formed v"
proof -
  obtain r m where rm: "run (mem_exec no_faults) (await (fetchQueues (network no_deps Map.empty) fresh_overview) (fetchWorkers (network no_deps Map.empty))) mem_dead = (r, m)"
    by fastforce
  have "rd_redis no_deps" "overview_ok fresh_overview" by (simp_all add: no_deps_def overview_ok_def fresh_overview_def)
  from overview_renders [where env = Map.empty and clock = 0, OF mem_backend this(1) _ this(2) rm] rm show ?thesis by auto
qed

end
