(* ===== verification/Live_Table.thy ===== *)
theory Live_Table
  imports Home_Markup
begin

text \<open>
  The table of events as it is rendered: its rows are the events that pass the filters, and the
  filters offer what there is to choose.
\<close>

text \<open>An event whose declared members are strings.\<close>
definition showable_event :: "json \<Rightarrow> bool" where
  "showable_event e \<longleftrightarrow> (\<forall>k \<in> {''type'', ''jobId'', ''jobName'', ''queueName''}. \<exists>s. member k e = Some (JStr s))"

text \<open>The texts of the cells of an event.\<close>
definition cells :: "locale_dates \<Rightarrow> json \<Rightarrow> string list" where
  "cells loc e = [l_time loc (member ''timestamp'' e), take 8 (template (member ''jobId'' e)),
     template (member ''jobName'' e), template (member ''queueName'' e), template (member ''type'' e),
     duration_text (member ''duration'' e)]"

lemma event_row_facts:
  assumes "showable_event e" and "event_row loc i e = Some r"
  shows "node_key r = Some (event_key i e)" and "keyed r" and "renders r"
    and "map (\<lambda>(ps, cs). map texts cs) (elements ''tr'' r) = [cells loc e]" and "elements ''option'' r = []"
proof -
  obtain ty i' n q where m: "member ''type'' e = Some (JStr ty)" "member ''jobId'' e = Some (JStr i')"
    "member ''jobName'' e = Some (JStr n)" "member ''queueName'' e = Some (JStr q)"
    using assms(1) by (auto simp: showable_event_def)
  with assms(2) show "node_key r = Some (event_key i e)" "keyed r" "renders r"
    "map (\<lambda>(ps, cs). map texts cs) (elements ''tr'' r) = [cells loc e]" "elements ''option'' r = []"
    by (auto simp: event_row_def cells_def)
qed

lemma event_row_defined: "showable_event e \<Longrightarrow> event_row loc i e \<noteq> None"
  by (auto simp: event_row_def showable_event_def)

subsection \<open>The keys of the rows\<close>

lemma plain_suffix:
  assumes "c \<notin> set x" and "c \<notin> set y" and "a @ c # x = b @ c # y"
  shows "x = y"
proof -
  have "takeWhile (\<lambda>d. d \<noteq> c) (rev (a @ c # z)) = rev z" if "c \<notin> set z" for a z
    using that takeWhile_append2 [of "rev z" "\<lambda>d. d \<noteq> c" "c # rev a"] by auto
  then show ?thesis using assms by (metis rev_rev_ident)
qed

lemma int_str_digits: "CHR ''-'' \<notin> set (int_str (int i))"
proof -
  have "dec_str (of_int (int i)) = nat_str i"
    using dec_places_of_int [of 20 "int i"] by (simp add: dec_str_def Let_def)
  then have "int_str (int i) = nat_str i" by (simp add: js_String.simps)
  moreover have "CHR ''-'' \<notin> set (nat_str i)"
    using all_digits_nat_str [of i] digit_char_plain by (fastforce simp: all_digits_def)
  ultimately show ?thesis by simp
qed

lemma event_key_inj: "event_key i e = event_key j f \<Longrightarrow> i = j"
proof -
  assume "event_key i e = event_key j f"
  then have "int_str (int i) = int_str (int j)"
    unfolding event_key_def
    using plain_suffix [OF int_str_digits int_str_digits, of "_ @ ''-'' @ _" i "_ @ ''-'' @ _" j] by simp
  then have "js_Number (int_str (int i)) = js_Number (int_str (int j))" by simp
  then show "i = j" unfolding js_Number_int_str by simp
qed

subsection \<open>The table\<close>

lemma choices_facts:
  assumes "distinct qs" and "\<forall>q \<in> set qs. \<exists>s. q = Some (JStr s)"
  shows "keyed (Arr (map choice qs :: 'h node list))" and "renders (Arr (map choice qs :: 'h node list))"
proof -
  have key: "node_key (choice q :: 'h node) = Some (template q)" and ok: "keyed (choice q :: 'h node)" "renders (choice q :: 'h node)" and is_str: "q = Some (JStr (template q))"
    if "q \<in> set qs" for q
  proof -
    from bspec [OF assms(2) that] obtain s where "q = Some (JStr s)" by (rule exE)
    then show "node_key (choice q :: 'h node) = Some (template q)" "keyed (choice q :: 'h node)" "renders (choice q :: 'h node)" "q = Some (JStr (template q))"
      by (simp_all add: choice_def attr_def)
  qed
  have "inj_on template (set qs)" by (rule inj_onI) (metis is_str)
  then show "keyed (Arr (map choice qs :: 'h node list))"
    using assms(1) ok(1) by (subst keyed_map [OF key]) (simp_all add: distinct_map)
  show "renders (Arr (map choice qs :: 'h node list))" using ok(2) by simp
qed

text \<open>The rows of a table body, cell by cell.\<close>
definition row_texts :: "'h node \<Rightarrow> string list list" where
  "row_texts v = map (\<lambda>(ps, cs). map texts cs) (elements ''tr'' v)"

lemma row_texts_rows:
  assumes "those (map f xs) = Some ys" and "\<And>x y. x \<in> set xs \<Longrightarrow> f x = Some y \<Longrightarrow> row_texts y = [g x]"
  shows "row_texts (Arr ys) = map g xs"
proof -
  have "map row_texts ys = map (\<lambda>x. [g x]) xs" by (rule those_rows [OF assms])
  then have "concat (map row_texts ys) = map g xs" by (simp add: concat_map_single)
  then show ?thesis by (simp add: row_texts_def [abs_def] map_concat comp_def)
qed

lemma filtered_subset: "set (table_filtered t) \<subseteq> set (jt_events t)"
  by (auto simp: table_filtered_def)

lemma table_choices:
  assumes "\<forall>e \<in> set (jt_events t). showable_event e"
  shows "\<forall>q \<in> set (table_queues t). \<exists>s. q = Some (JStr s)" and "\<forall>q \<in> set (table_statuses t). \<exists>s. q = Some (JStr s)"
  using assms by (auto simp: table_queues_def table_statuses_def showable_event_def)

lemma row_keys: "distinct (map (\<lambda>(i, e). event_key i e) (enumerate n es))"
proof -
  have "inj_on (\<lambda>(i, e). event_key i e) (set (enumerate n es))"
  proof (rule inj_onI, clarify)
    fix i e j f
    assume x: "(i, e) \<in> set (enumerate n es)" "(j, f) \<in> set (enumerate n es)" and "event_key i e = event_key j f"
    then have "i = j" by (intro event_key_inj)
    with x show "i = j \<and> e = f" by (auto simp: in_set_enumerate_eq)
  qed
  then show ?thesis by (simp add: distinct_map)
qed

lemma job_table_rendered:
  assumes "\<forall>e \<in> set (jt_events t). showable_event e"
  shows "\<exists>v. job_table_view loc t = Some v \<and> well_formed v \<and> tl (row_texts v) = map (cells loc) (table_filtered t)"
proof -
  let ?f = "\<lambda>(i, e). event_row loc i e" and ?es = "enumerate 0 (table_filtered t)"
  have ok: "showable_event (snd x)" if "x \<in> set ?es" for x
  proof -
    from that have "snd x \<in> set (table_filtered t)" by (metis image_eqI list.set_map map_snd_enumerate)
    then show ?thesis using assms filtered_subset [of t] by blast
  qed
  have "?f x \<noteq> None" if "x \<in> set ?es" for x using event_row_defined [OF ok [OF that]] by (cases x) simp
  then have "those (map ?f ?es) \<noteq> None" unfolding those_defined by blast
  then obtain rows where rows: "those (map ?f ?es) = Some rows" by blast
  have row: "node_key y = Some (event_key (fst x) (snd x))" "keyed y" "renders y" "row_texts y = [cells loc (snd x)]"
    if "x \<in> set ?es" "?f x = Some y" for x y
    using event_row_facts [OF ok [OF that(1)], of loc "fst x" y] that(2) by (simp_all add: row_texts_def split_beta)
  have keyed: "keyed (Arr rows)"
    by (rule keyed_rows [OF rows, where g = "\<lambda>(i, e). event_key i e"]) (use row row_keys in \<open>auto simp: split_beta\<close>)
  have renders: "renders (Arr rows)" by (rule renders_rows [OF rows]) (rule row(3))
  have "row_texts (Arr rows) = map (\<lambda>x. cells loc (snd x)) ?es" by (rule row_texts_rows [OF rows]) (rule row(4))
  then have texts: "row_texts (Arr rows) = map (cells loc) (table_filtered t)"
    by (metis (mono_tags, lifting) map_map comp_apply map_snd_enumerate map_eq_conv)
  have choices: "keyed (Arr (map choice (table_queues t)))" "renders (Arr (map choice (table_queues t)))"
    "keyed (Arr (map choice (table_statuses t)))" "renders (Arr (map choice (table_statuses t)))"
    using table_choices [OF assms] by (auto simp: table_queues_def table_statuses_def intro!: choices_facts simp del: keyed.simps renders.simps)
  have no_tr: "row_texts (queue_select t) = []" "row_texts (status_select t) = []"
    by (simp_all add: row_texts_def queue_select_def status_select_def choice_def)
  obtain v where v: "job_table_view loc t = Some v" using rows by (simp add: job_table_view_def)
  have "well_formed v" using v rows keyed renders choices
    by (auto simp: job_table_view_def well_formed_def queue_select_def status_select_def table_head_def th_def
        simp del: keyed.simps(3) renders.simps(3))
  moreover have "tl (row_texts v) = map (cells loc) (table_filtered t)" using v rows texts no_tr
    by (auto simp: job_table_view_def row_texts_def table_head_def th_def simp del: elements.simps(3))
  ultimately show ?thesis using v by blast
qed

text \<open>The live table can always be rendered from events of the declared shape: its rows are, cell by
  cell, those of the last hundred events that pass the filters, newest first, and the rows and the
  choices of both filters have distinct keys.\<close>
theorem live_table_shows:
  assumes "\<forall>e \<in> set es. showable_event e"
  shows "\<exists>v. job_table_view loc (with_filters q s (fold table_receive es fresh_table)) = Some v \<and> well_formed v \<and>
    tl (row_texts v) = map (cells loc) (filter (passes q s) (take 100 (rev es)))"
proof -
  let ?t = "with_filters q s (fold table_receive es fresh_table)"
  have events: "jt_events ?t = take 100 (rev es)" by (simp add: with_filters_def table_events)
  then have "\<forall>e \<in> set (jt_events ?t). showable_event e" using assms by (auto dest: in_set_takeD)
  moreover have "table_filtered ?t = filter (passes q s) (take 100 (rev es))"
    using events by (simp add: table_filtered_passes with_filters_def)
  ultimately show ?thesis using job_table_rendered [of ?t loc] by metis
qed

theorem live_table_shows_witness:
  "let e = (\<lambda>q. JObj [(''type'', JStr ''job.created''), (''jobId'', JStr ''0123456789''), (''jobName'', JStr ''greet''),
       (''queueName'', JStr q), (''timestamp'', JNum 5)])
   in \<exists>v. job_table_view \<lparr>l_dateTime = \<lambda>_. [], l_time = \<lambda>_. ''noon''\<rparr> (with_filters ''q'' [] (fold table_receive [e ''q'', e ''r''] fresh_table)) = Some v \<and>
     tl (row_texts v) = [[''noon'', ''01234567'', ''greet'', ''q'', ''job.created'', ''-'']]"
proof -
  let ?e = "\<lambda>q. JObj [(''type'', JStr ''job.created''), (''jobId'', JStr ''0123456789''), (''jobName'', JStr ''greet''),
       (''queueName'', JStr q), (''timestamp'', JNum 5)]"
  let ?loc = "\<lparr>l_dateTime = \<lambda>_. [], l_time = \<lambda>_. ''noon''\<rparr>"
  have "\<forall>e \<in> set [?e ''q'', ?e ''r'']. showable_event e" by (simp add: showable_event_def)
  moreover have "map (cells ?loc) (filter (passes ''q'' []) (take 100 (rev [?e ''q'', ?e ''r'']))) =
      [[''noon'', ''01234567'', ''greet'', ''q'', ''job.created'', ''-'']]"
    by (simp add: passes_def cells_def duration_text_def)
  ultimately show ?thesis using live_table_shows [of "[?e ''q'', ?e ''r'']" ?loc "''q''" "[]"] unfolding Let_def by metis
qed

end
