(* ===== verification/Published_Events.thy ===== *)
theory Published_Events
  imports System_Calls Live_Table
begin

text \<open>
  The events of the whole system, from any process to the live table of the dashboard: what is
  published under any interleaving is an event that the table can show.
\<close>

lemma event_members:
  assumes "announced (e_type ev) (e_extra ev)"
  shows "showable_event (event_value ev)" and "member ''type'' (event_value ev) = Some (JStr (e_type ev))"
    and "member ''duration'' (event_value ev) = None" and "json_parse (event_text ev) = Some (event_value ev)"
proof -
  have extra: "e_extra ev = [] \<or> (\<exists>msg. e_extra ev = [(''errorMessage'', JStr msg)])"
    using assms by (simp add: announced_def)
  then show "showable_event (event_value ev)" "member ''type'' (event_value ev) = Some (JStr (e_type ev))"
    "member ''duration'' (event_value ev) = None"
    by (auto simp: showable_event_def event_value_def)
  show "json_parse (event_text ev) = Some (event_value ev)" by (rule event_text_read) (use extra in auto)
qed

text \<open>Calls that publish nothing but such events.\<close>
fun announces_call :: "call \<Rightarrow> bool" where
  "announces_call (Redis c) \<longleftrightarrow> announces c"
| "announces_call (RedisMulti cs) \<longleftrightarrow> (\<forall>c \<in> set cs. announces c)"
| "announces_call _ \<longleftrightarrow> True"

lemma quiet_announces: "quiet c \<Longrightarrow> announces_call c"
  by (cases c rule: announces_call.cases) auto

lemma announces_op: "calls_ok announces_call (op_prog x)"
proof (cases x)
  case (OEnqueue bus n p opts)
  then show ?thesis by (auto simp: enqueue_defs intro!: announces_event simp del: announces.simps(1))
next
qed (rule calls_ok_mono [OF tidy_op quiet_announces]; simp)+

definition all_announced :: "store \<Rightarrow> store \<Rightarrow> bool" where
  "all_announced v0 v \<longleftrightarrow> (\<forall>cm \<in> set (s_published v). cm \<in> set (s_published v0) \<or>
     fst cm = events_channel \<and> (\<exists>ev. snd cm = event_text ev \<and> announced (e_type ev) (e_extra ev)))"

lemma redis_announced: "announces c \<Longrightarrow> all_announced v0 v \<Longrightarrow> all_announced v0 (redis_effect c v)"
proof (cases c)
  case (ZADD k sc x)
  then show "all_announced v0 v \<Longrightarrow> all_announced v0 (redis_effect c v)" by (cases sc) (simp_all add: all_announced_def)
qed (auto simp: all_announced_def Let_def)

lemma fold_redis_announced:
  "\<forall>c \<in> set cs. announces c \<Longrightarrow> all_announced v0 v \<Longrightarrow> all_announced v0 (fold redis_effect cs v)"
  by (induction cs arbitrary: v) (auto simp: redis_announced)

lemma announced_effect: "announces_call c \<Longrightarrow> all_announced v0 v \<Longrightarrow> all_announced v0 (effect c x v)"
proof (cases c)
  case (Pg st)
  then show "all_announced v0 v \<Longrightarrow> ?thesis" by (cases st) (simp_all add: all_announced_def)
next
  case (Host h)
  then show "all_announced v0 v \<Longrightarrow> ?thesis" by (cases "(h, x, v)" rule: host_effect.cases) (simp_all add: all_announced_def)
next
  case (RedisEval k f)
  then show "all_announced v0 v \<Longrightarrow> ?thesis" by (auto simp: script_effect_def all_announced_def split: option.splits)
qed (simp_all add: redis_announced fold_redis_announced)

lemma announced_fail: "all_announced v0 v \<Longrightarrow> all_announced v0 (fail_effect c v)"
proof (cases c)
  case (Host h)
  then show "all_announced v0 v \<Longrightarrow> ?thesis" by (cases h) (simp_all add: all_announced_def)
qed simp_all

lemma announced_reach:
  assumes "backend exec view" and "pool_reach exec (range op_prog) ([], s) (ps, t)"
  shows "all_announced (view s) (view t)"
  by (rule calls_invariant(1) [OF assms, where C = announces_call])
    (auto intro: announces_op announced_effect announced_fail simp: all_announced_def [of "view s" "view s"])

text \<open>C36: Whatever the system publishes, under any interleaving, is an event of one of five types that parses
  and that the live table shows; none of them has a duration, so the table's last column is always a
  dash, and no event tells of a failed attempt.\<close>
theorem published_events_shown:
  assumes "backend exec view" and "pool_reach exec (range op_prog) ([], s) (ps, t)"
    and "(ch, m) \<in> set (s_published (view t))" and "(ch, m) \<notin> set (s_published (view s))"
  shows "ch = events_channel \<and> (\<exists>e ty. json_parse m = Some e \<and> showable_event e \<and> member ''type'' e = Some (JStr ty) \<and>
    ty \<in> {''job.created'', ''job.started'', ''job.completed'', ''job.dlq'', ''job.retried''} \<and> last (cells loc e) = ''-'')"
proof -
  from announced_reach [OF assms(1,2)] assms(3,4) obtain ev where ch: "ch = events_channel" and m: "m = event_text ev"
    and ev: "announced (e_type ev) (e_extra ev)"
    unfolding all_announced_def by fastforce
  have "e_type ev \<in> {''job.created'', ''job.started'', ''job.completed'', ''job.dlq'', ''job.retried''}"
    using ev by (simp add: announced_def)
  moreover have "last (cells loc (event_value ev)) = ''-''"
    using event_members(3) [OF ev] by (simp add: cells_def duration_text_def)
  ultimately show ?thesis using ch m event_members [OF ev] by blast
qed

lemma enqueue_publishes:
  "\<exists>m. (events_channel, m) \<in> set (s_published (mem_view (snd (enqueue_at mem0 no_options (Some JNull)))))"
  by (simp add: enqueue_at_def run_eval enqueue_defs opt_delay_def no_options_def cong: run_congs)

theorem published_events_shown_witness:
  "\<exists>m e. (events_channel, m) \<in> set (s_published (mem_view (snd (enqueue_at mem0 no_options (Some JNull))))) \<and>
     json_parse m = Some e \<and> showable_event e \<and> last (cells some_dates e) = ''-''"
proof -
  let ?m = "snd (enqueue_at mem0 no_options (Some JNull))"
  obtain p where q: "pool_reach (mem_exec no_faults) (range op_prog) ([], mem0) ([p], ?m)" using enqueue_pool by blast
  obtain m where m: "(events_channel, m) \<in> set (s_published (mem_view ?m))" using enqueue_publishes by blast
  have "(events_channel, m) \<notin> set (s_published (mem_view mem0))" by (simp add: mem_empty_def)
  from published_events_shown [OF mem_backend q m this, of some_dates] m show ?thesis by blast
qed

end
