(* ===== verification/Home_Effects.thy ===== *)
theory Home_Effects
  imports Worker_Process Ws_Client
begin

text \<open>
  The effects of the overview: what \<open>useEffect\<close> of \<^verbatim>\<open>pages/Dashboard.tsx\<close>, \<^verbatim>\<open>components/WorkersPanel.tsx\<close>,
  \<^verbatim>\<open>JobTable.tsx\<close> and \<^verbatim>\<open>ThroughputChart.tsx\<close> sets up when the page is mounted, and what the functions they
  return take down, over the intervals of the browser and the one \<open>wsManager\<close> of \<^verbatim>\<open>ws.ts\<close>.

  React runs the effects of the children first; a callback is a number that no one else has.
\<close>

record home =
  hm_client :: ws_client
  hm_host :: host
  hm_callbacks :: nat
  hm_requests :: nat

definition fresh_home :: home where
  "fresh_home = \<lparr>hm_client = fresh_client, hm_host = fresh_host, hm_callbacks = 0, hm_requests = 0\<rparr>"

definition listen :: "bool \<Rightarrow> home \<Rightarrow> nat \<times> home" where
  "listen works h = (hm_callbacks h, h\<lparr>hm_client := subscribe works (hm_callbacks h) (hm_client h), hm_callbacks := hm_callbacks h + 1\<rparr>)"

definition every :: "home \<Rightarrow> nat \<times> home" where
  "every h = (case setInterval (hm_host h) of (i, host) \<Rightarrow> (i, h\<lparr>hm_host := host\<rparr>))"

definition ignore :: "nat \<Rightarrow> home \<Rightarrow> home" where
  "ignore l h = h\<lparr>hm_client := unsubscribe l (hm_client h)\<rparr>"

definition never :: "nat \<Rightarrow> home \<Rightarrow> home" where
  "never i h = h\<lparr>hm_host := clearInterval i (hm_host h)\<rparr>"

subsection \<open>The four effects\<close>

definition chart_effect :: "bool \<Rightarrow> home \<Rightarrow> (nat \<times> nat) \<times> home" where
  "chart_effect works h =
     (case listen works h of (l, h1) \<Rightarrow> case every h1 of (i, h2) \<Rightarrow> ((l, i), h2))"

definition chart_cleanup :: "nat \<times> nat \<Rightarrow> home \<Rightarrow> home" where
  "chart_cleanup li h = never (snd li) (ignore (fst li) h)"

text \<open>The first request at once, the others from the interval.\<close>
definition polling_effect :: "home \<Rightarrow> nat \<times> home" where
  "polling_effect h = every (h\<lparr>hm_requests := hm_requests h + 1\<rparr>)"

definition table_effect :: "bool \<Rightarrow> home \<Rightarrow> nat \<times> home" where
  "table_effect works h = listen works h"

text \<open>What the cleanups hold.\<close>
record mounted =
  mt_chart :: "nat \<times> nat"
  mt_workers :: nat
  mt_table :: nat
  mt_queues :: nat

definition mount_home :: "bool \<Rightarrow> bool \<Rightarrow> home \<Rightarrow> mounted \<times> home" where
  "mount_home works1 works2 h0 =
     (case chart_effect works1 h0 of (c, h1) \<Rightarrow>
      case polling_effect h1 of (w, h2) \<Rightarrow>
      case table_effect works2 h2 of (t, h3) \<Rightarrow>
      case polling_effect h3 of (q, h4) \<Rightarrow>
        (\<lparr>mt_chart = c, mt_workers = w, mt_table = t, mt_queues = q\<rparr>, h4))"

definition unmount_home :: "mounted \<Rightarrow> home \<Rightarrow> home" where
  "unmount_home m h = chart_cleanup (mt_chart m) (never (mt_workers m) (ignore (mt_table m) (never (mt_queues m) h)))"

text \<open>The browser: it opens and closes sockets, and fires timers and intervals.\<close>
inductive home_step :: "mounted option \<times> home \<Rightarrow> mounted option \<times> home \<Rightarrow> bool" where
  Mount: "mount_home works1 works2 h = (m, h') \<Longrightarrow> home_step (None, h) (Some m, h')"
| Unmount: "home_step (Some m, h) (None, unmount_home m h)"
| SocketOpen: "sock \<in> set (wc_sockets (hm_client h)) \<Longrightarrow> home_step (p, h) (p, h\<lparr>hm_client := onopen (hm_client h)\<rparr>)"
| SocketClose: "sock \<in> set (wc_sockets (hm_client h)) \<Longrightarrow> home_step (p, h) (p, h\<lparr>hm_client := onclose sock (hm_client h)\<rparr>)"
| Reconnect: "d \<in> set (wc_timers (hm_client h)) \<Longrightarrow> home_step (p, h) (p, h\<lparr>hm_client := timer_fires d works (hm_client h)\<rparr>)"
| Poll: "i \<in> set (h_live (hm_host h)) \<Longrightarrow> p = Some m \<Longrightarrow> i = mt_workers m \<or> i = mt_queues m \<Longrightarrow>
     home_step (p, h) (p, h\<lparr>hm_requests := hm_requests h + 1\<rparr>)"

subsection \<open>Nothing is left behind\<close>

text \<open>The listeners and intervals are those of the mounted page, and the sockets the one of the manager.\<close>
definition owned :: "mounted option \<Rightarrow> home \<Rightarrow> bool" where
  "owned p h \<longleftrightarrow>
     (case p of
        None \<Rightarrow> wc_listeners (hm_client h) = [] \<and> h_live (hm_host h) = []
      | Some m \<Rightarrow> wc_listeners (hm_client h) = [fst (mt_chart m), mt_table m] \<and> fst (mt_chart m) \<noteq> mt_table m \<and>
          h_live (hm_host h) = [mt_queues m, mt_workers m, snd (mt_chart m)] \<and>
          distinct (h_live (hm_host h)))"

definition one_socket :: "ws_client \<Rightarrow> bool" where
  "one_socket st \<longleftrightarrow> wc_sockets st = (case wc_ws st of None \<Rightarrow> [] | Some s \<Rightarrow> [s])"

lemma one_socket_kept:
  "one_socket st \<Longrightarrow> one_socket (onopen st)" "one_socket st \<Longrightarrow> one_socket (unsubscribe l st)"
  "one_socket st \<Longrightarrow> one_socket (timer_fires d works st)" "one_socket st \<Longrightarrow> one_socket (subscribe works l st)"
  "one_socket st \<Longrightarrow> sock \<in> set (wc_sockets st) \<Longrightarrow> one_socket (onclose sock st)"
  by (auto simp: one_socket_def client_defs split: option.splits)

lemma client_listeners [simp]:
  "wc_listeners (onopen st) = wc_listeners st" "wc_listeners (onclose sock st) = wc_listeners st"
  "wc_listeners (timer_fires d works st) = wc_listeners st"
  "wc_listeners (subscribe works l st) = wc_listeners st @ (if l \<in> set (wc_listeners st) then [] else [l])"
  "wc_listeners (unsubscribe l st) = removeAll l (wc_listeners st)"
  by (simp_all add: client_defs)

lemmas effect_defs = chart_effect_def polling_effect_def table_effect_def listen_def every_def
lemmas cleanup_defs = chart_cleanup_def ignore_def never_def

lemma mount_owned:
  assumes "mount_home works1 works2 h = (m, h')" and "owned None h" and "one_socket (hm_client h)"
  shows "owned (Some m) h'" and "one_socket (hm_client h')"
  using assms by (auto simp: mount_home_def effect_defs interval_defs owned_def intro!: one_socket_kept)

lemma unmount_owned:
  assumes "owned (Some m) h" and "one_socket (hm_client h)"
  shows "owned None (unmount_home m h)" and "one_socket (hm_client (unmount_home m h))"
  using assms by (auto simp: unmount_home_def cleanup_defs interval_defs owned_def intro!: one_socket_kept)

lemma owned_step: "home_step c d \<Longrightarrow> owned (fst c) (snd c) \<and> one_socket (hm_client (snd c)) \<Longrightarrow>
  owned (fst d) (snd d) \<and> one_socket (hm_client (snd d))"
proof (induction rule: home_step.induct)
  case (Mount works1 works2 h m h')
  then show ?case using mount_owned by simp
next
  case (Unmount m h)
  then show ?case using unmount_owned by simp
qed (auto simp: owned_def intro: one_socket_kept split: option.splits)

lemma owned_reach:
  assumes "home_step\<^sup>*\<^sup>* (None, fresh_home) c"
  shows "owned (fst c) (snd c)" and "one_socket (hm_client (snd c))"
proof -
  have "owned (fst c) (snd c) \<and> one_socket (hm_client (snd c))"
    using assms
  proof (induction rule: rtranclp_induct)
    case base
    show ?case by (simp add: owned_def one_socket_def fresh_home_def fresh_client_def fresh_host_def)
  qed (rule owned_step)
  then show "owned (fst c) (snd c)" and "one_socket (hm_client (snd c))" by blast+
qed

text \<open>C40: However often the user leaves the overview and comes back, and whatever the connection does, the page
  has its two listeners and three intervals while it is shown and none while it is not, no request is sent
  then, and there is never more than one socket.\<close>
theorem overview_leaks_nothing:
  assumes "home_step\<^sup>*\<^sup>* (None, fresh_home) (p, h)"
  shows "length (wc_listeners (hm_client h)) = (if p = None then 0 else 2) \<and>
    length (h_live (hm_host h)) = (if p = None then 0 else 3) \<and> length (wc_sockets (hm_client h)) \<le> 1 \<and>
    (\<forall>p' h'. p = None \<longrightarrow> home_step (p, h) (p', h') \<longrightarrow> p' = None \<longrightarrow> hm_requests h' = hm_requests h)"
proof -
  have o: "owned p h" and s: "one_socket (hm_client h)" using owned_reach [OF assms] by simp_all
  have "length (wc_listeners (hm_client h)) = (if p = None then 0 else 2)"
    using o distinct_card [of "wc_listeners (hm_client h)"] by (cases p) (auto simp: owned_def)
  moreover have "length (h_live (hm_host h)) = (if p = None then 0 else 3)" using o by (cases p) (auto simp: owned_def)
  moreover have "length (wc_sockets (hm_client h)) \<le> 1" using s by (auto simp: one_socket_def split: option.splits)
  moreover have "hm_requests h' = hm_requests h" if "p = None" "home_step (p, h) (p', h')" "p' = None" for p' h'
    using that(2,1,3) by cases auto
  ultimately show ?thesis by blast
qed

theorem overview_leaks_nothing_witness:
  "\<exists>m h. mount_home True True fresh_home = (m, h) \<and> home_step\<^sup>*\<^sup>* (None, fresh_home) (None, unmount_home m h) \<and>
     length (wc_listeners (hm_client h)) = 2 \<and> h_live (hm_host (unmount_home m h)) = [] \<and> wc_sockets (hm_client (unmount_home m h)) \<noteq> []"
proof -
  obtain m h where m: "mount_home True True fresh_home = (m, h)" by (rule prod.exhaust)
  have up: "home_step\<^sup>*\<^sup>* (None, fresh_home) (Some m, h)" by (rule r_into_rtranclp) (rule Mount [OF m])
  have down: "home_step\<^sup>*\<^sup>* (None, fresh_home) (None, unmount_home m h)"
    by (rule rtranclp.rtrancl_into_rtrancl [OF up]) (rule Unmount)
  have "wc_sockets (hm_client (unmount_home m h)) \<noteq> []"
    using m by (auto simp: mount_home_def unmount_home_def effect_defs cleanup_defs interval_defs client_defs fresh_home_def fresh_client_def)
  with m down overview_leaks_nothing [OF up] overview_leaks_nothing [OF down] show ?thesis by auto
qed

end
