(* ===== verification/Connections.thy ===== *)
theory Connections
  imports Config Json
begin

text \<open>
  The connections and the logger that every process makes: \<^verbatim>\<open>shared/src/redis.ts\<close>, \<^verbatim>\<open>shared/src/logger.ts\<close>,
  \<open>createPgPool\<close> of \<^verbatim>\<open>shared/src/db.ts\<close>, and how \<open>main\<close> of the server and of the worker waits for Redis.

  An options object is a map from keys to JSON values, its spread the right-biased union.  Of ioredis the
  model has what its documentation says of a command that is issued while the connection is not ready.
\<close>

subsection \<open>The Redis client\<close>

type_synonym options = "string \<rightharpoonup> json"

datatype redis_status = Connecting | Ready | Reconnecting | Ended

record redis_client =
  rc_url :: string
  rc_options :: options
  rc_status :: redis_status
  rc_logged :: "string list"
  rc_offline :: "string list"

definition client_options :: "options \<Rightarrow> options" where
  "client_options overrides =
     [''enableOfflineQueue'' \<mapsto> JBool False, ''maxRetriesPerRequest'' \<mapsto> JNum (of_int 3)] ++ overrides"

definition createRedisClient :: "string \<Rightarrow> options \<Rightarrow> redis_client" where
  "createRedisClient url overrides =
     \<lparr>rc_url = url, rc_options = client_options overrides, rc_status = Connecting, rc_logged = [], rc_offline = []\<rparr>"

datatype client_event = EvReady | EvError string | EvClose | EvEnd

text \<open>The listener logs every error; an error alone does not change the state of the connection.\<close>
fun client_hears :: "client_event \<Rightarrow> redis_client \<Rightarrow> redis_client" where
  "client_hears EvReady c = c\<lparr>rc_status := Ready, rc_offline := []\<rparr>"
| "client_hears (EvError message) c = c\<lparr>rc_logged := rc_logged c @ [''[redis] client error: '' @ message]\<rparr>"
| "client_hears EvClose c = c\<lparr>rc_status := Reconnecting\<rparr>"
| "client_hears EvEnd c = c\<lparr>rc_status := Ended, rc_offline := []\<rparr>"

definition offline_queue :: "redis_client \<Rightarrow> bool" where
  "offline_queue c \<longleftrightarrow> rc_options c ''enableOfflineQueue'' \<noteq> Some (JBool False)"

text \<open>A command goes to a ready connection, is kept for later with the offline queue, and fails without.\<close>
definition issue :: "string \<Rightarrow> redis_client \<Rightarrow> err + redis_client" where
  "issue cmd c =
     (case rc_status c of
        Ready \<Rightarrow> Inr c
      | Ended \<Rightarrow> Inl (JsError ''Connection is closed.'')
      | _ \<Rightarrow> if offline_queue c then Inr (c\<lparr>rc_offline := rc_offline c @ [cmd]\<rparr>)
             else Inl (JsError ''Stream isn't writeable and enableOfflineQueue options is false''))"

subsection \<open>Waiting for the connection\<close>

datatype waiting = Pending_ready | Connected | Refused string

text \<open>\<open>new Promise\<close> of \<open>main\<close>: it looks at the state once and then listens.\<close>
definition await_ready :: "redis_client \<Rightarrow> waiting" where
  "await_ready c = (if rc_status c = Ready then Connected else Pending_ready)"

text \<open>The first event settles the promise for good.\<close>
fun promise_hears :: "client_event \<Rightarrow> waiting \<Rightarrow> waiting" where
  "promise_hears EvReady Pending_ready = Connected"
| "promise_hears (EvError message) Pending_ready = Refused message"
| "promise_hears _ p = p"

text \<open>The events of the connection reach the client and the promise.\<close>
definition hear :: "client_event \<Rightarrow> redis_client \<times> waiting \<Rightarrow> redis_client \<times> waiting" where
  "hear e cp = (client_hears e (fst cp), promise_hears e (snd cp))"

definition hear_all :: "client_event list \<Rightarrow> redis_client \<times> waiting \<Rightarrow> redis_client \<times> waiting" where
  "hear_all es cp = foldl (\<lambda>cp e. hear e cp) cp es"

lemma hear_all_simps [simp]: "hear_all [] cp = cp" "hear_all (e # es) cp = hear_all es (hear e cp)"
  by (simp_all add: hear_all_def)

lemma settled_stays: "w \<noteq> Pending_ready \<Longrightarrow> snd (hear_all es (c, w)) = w"
proof (induction es arbitrary: c)
  case (Cons e es)
  then have "promise_hears e w = w" by (cases w; cases e) auto
  then show ?case using Cons by (simp add: hear_def)
qed simp

lemma options_stay: "rc_options (fst (hear_all es cp)) = rc_options (fst cp)"
proof (induction es arbitrary: cp)
  case (Cons e es)
  then show ?case by (cases e) (simp_all add: hear_def)
qed simp

definition is_settling :: "client_event \<Rightarrow> bool" where
  "is_settling e \<longleftrightarrow> (case e of EvReady \<Rightarrow> True | EvError _ \<Rightarrow> True | _ \<Rightarrow> False)"

lemma first_event:
  "snd (hear_all es (c, Pending_ready)) =
     (case filter is_settling es of [] \<Rightarrow> Pending_ready | e # _ \<Rightarrow> (case e of EvError m \<Rightarrow> Refused m | _ \<Rightarrow> Connected))"
proof (induction es arbitrary: c)
  case (Cons e es)
  then show ?case by (cases e) (simp_all add: hear_def is_settling_def settled_stays)
qed simp

lemma new_client_options:
  "rc_options (createRedisClient url opts) k =
     (case opts k of Some v \<Rightarrow> Some v | None \<Rightarrow>
        if k = ''maxRetriesPerRequest'' then Some (JNum (of_int 3))
        else if k = ''enableOfflineQueue'' then Some (JBool False) else None)"
  by (auto simp: createRedisClient_def client_options_def map_add_def split: option.splits)

text \<open>A process goes on past its start exactly where the connection is ready before it has its first error,
  and ends exactly where an error is the first of the two, although the client would try again.  A command
  before that fails on the clients of both processes and waits on the subscriber of the server.\<close>
theorem startup_first_event_decides:
  "snd (hear_all es (createRedisClient url opts, await_ready (createRedisClient url opts))) =
     (case filter is_settling es of [] \<Rightarrow> Pending_ready | e # _ \<Rightarrow> (case e of EvError m \<Rightarrow> Refused m | _ \<Rightarrow> Connected)) \<and>
   issue cmd (createRedisClient url Map.empty) = Inl (JsError ''Stream isn't writeable and enableOfflineQueue options is false'') \<and>
   (\<exists>c. issue cmd (createRedisClient url [''enableOfflineQueue'' \<mapsto> JBool True]) = Inr c \<and> rc_offline c = [cmd])"
  using first_event [of es "createRedisClient url opts"]
  by (simp add: await_ready_def issue_def offline_queue_def new_client_options) (simp add: createRedisClient_def)

subsection \<open>The pool of Postgres\<close>

record pool_config =
  pc_connectionString :: string
  pc_max :: nat
  pc_idleTimeoutMillis :: int
  pc_connectionTimeoutMillis :: int

definition createPgPool :: "string \<Rightarrow> pool_config" where
  "createPgPool url = \<lparr>pc_connectionString = url, pc_max = 10, pc_idleTimeoutMillis = 30000, pc_connectionTimeoutMillis = 5000\<rparr>"

text \<open>What the error listener writes to the console.\<close>
definition pool_error_line :: "string \<Rightarrow> string" where
  "pool_error_line message = ''[pg] idle client error: '' @ message"

subsection \<open>The logger\<close>

record logger =
  lg_level :: string
  lg_service :: string
  lg_pid :: int
  lg_transport :: "string option"

text \<open>\<open>pretty\<close>: whether pino finds \<open>pino-pretty\<close>; where it does not, the \<open>catch\<close> falls through.\<close>
definition createLogger :: "process_env \<Rightarrow> int \<Rightarrow> bool \<Rightarrow> string \<Rightarrow> logger" where
  "createLogger env pid pretty service =
     (let level = nullish (env ''LOG_LEVEL'') ''info'';
          plain = \<lparr>lg_level = level, lg_service = service, lg_pid = pid, lg_transport = None\<rparr>
      in if env ''NODE_ENV'' \<noteq> Some ''production'' \<and> pretty then plain\<lparr>lg_transport := Some ''pino-pretty''\<rparr>
         else plain)"

text \<open>In production, and without \<open>pino-pretty\<close>, the lines are JSON; nothing else depends on the two.\<close>
lemma logger_transport:
  "lg_transport (createLogger env pid pretty service) = None \<longleftrightarrow> env ''NODE_ENV'' = Some ''production'' \<or> \<not> pretty"
  "lg_level (createLogger env pid pretty service) = nullish (env ''LOG_LEVEL'') ''info''"
  by (simp_all add: createLogger_def Let_def)

end
