(* ===== verification/Worker_Main.thy ===== *)
theory Worker_Main
  imports Worker_Process Worker_Loop
begin

text \<open>
  The worker process from its start to its exit: \<open>main\<close> and \<open>shutdown\<close> of \<^verbatim>\<open>worker/src/index.ts\<close> over the
  timers of \<open>Worker_Process\<close> and the activities of \<open>Worker_Loop\<close>.

  One signal is modelled; a rejection that no one handles ends a Node process with exit code 1.
\<close>

subsection \<open>Starting\<close>

text \<open>The worker that \<open>main\<close> makes, with its one handler.\<close>
definition main_worker :: "worker_config \<Rightarrow> handler_id \<Rightarrow> err + worker" where
  "main_worker cfg echo =
     (case register ''echo'' echo [] of
        Inl e \<Rightarrow> Inl e
      | Inr reg \<Rightarrow> Inr \<lparr>w_queue = wc_queue cfg, w_workerId = wc_workerId cfg, w_registry = reg, w_rateLimits = Map.empty\<rparr>)"

lemma main_worker_handles:
  "\<exists>w. main_worker cfg echo = Inr w \<and> w_queue w = wc_queue cfg \<and>
     get_handler (w_registry w) n = (if n = ''echo'' then Some echo else None)"
  by (simp add: main_worker_def register_def has_handler_def get_handler_def)

text \<open>What the echo handler returns.\<close>
definition echo_result :: "json \<Rightarrow> json" where
  "echo_result payload = JObj [(''echoed'', payload)]"

text \<open>Every request to the health port is answered alike.\<close>
definition health_reply :: "worker_config \<Rightarrow> int \<times> (string \<times> string) list \<times> string" where
  "health_reply cfg = (200, [(''Content-Type'', ''application/json'')],
     json_stringify (JObj [(''status'', JStr ''ok''), (''workerId'', JStr (wc_workerId cfg))]))"

datatype main_pc = Serving | Stopping | Quitting | Gone int

record 's worker_main =
  wm_pc :: main_pc
  wm_process :: worker_process
  wm_rt :: worker_rt
  wm_services :: 's

text \<open>After \<open>await worker.start()\<close>, whose failure ends the process.\<close>
definition main_started :: "worker_config \<Rightarrow> err option \<Rightarrow> 's \<Rightarrow> 's worker_main" where
  "main_started cfg failure s =
     \<lparr>wm_pc = (case failure of None \<Rightarrow> Serving | Some e \<Rightarrow> Gone 1),
      wm_process = boot cfg, wm_rt = started, wm_services = s\<rparr>"

subsection \<open>Running and stopping\<close>

text \<open>The signal: both timers are stopped and \<open>worker.stop()\<close> runs to its first \<open>await\<close>.\<close>
definition main_signal :: "'s service \<Rightarrow> worker \<Rightarrow> 's worker_main \<Rightarrow> 's worker_main" where
  "main_signal exec w m =
     (case stop_turn exec w False (wm_rt m, wm_services m) of
        Some (rt, s) \<Rightarrow> m\<lparr>wm_pc := Stopping, wm_process := shutdown (wm_process m), wm_rt := rt, wm_services := s\<rparr>
      | None \<Rightarrow> m)"

text \<open>Only \<open>shutdown\<close> calls \<open>worker.stop()\<close>.\<close>
inductive main_step ::
  "'s service \<Rightarrow> worker \<Rightarrow> jsnum \<Rightarrow> ('s \<Rightarrow> 's \<Rightarrow> bool) \<Rightarrow> 's worker_main \<Rightarrow> 's worker_main \<Rightarrow> bool"
  for exec :: "'s service" and w concurrency others where
  Timer: "\<forall>n. wm_pc m \<noteq> Gone n \<Longrightarrow> process_step (wm_process m) p \<Longrightarrow> p \<noteq> shutdown (wm_process m) \<Longrightarrow>
     main_step exec w concurrency others m (m\<lparr>wm_process := p\<rparr>)"
| Work: "\<forall>n. wm_pc m \<noteq> Gone n \<Longrightarrow> worker_step exec w concurrency others (wm_rt m, wm_services m) (rt, s) \<Longrightarrow>
     (wm_pc m = Serving \<longrightarrow> rt_stop rt = NotStopping) \<Longrightarrow>
     main_step exec w concurrency others m (m\<lparr>wm_rt := rt, wm_services := s\<rparr>)"
| Signal: "wm_pc m = Serving \<Longrightarrow> main_step exec w concurrency others m (main_signal exec w m)"
| StopDone: "wm_pc m = Stopping \<Longrightarrow> rt_stop (wm_rt m) = Stopped \<Longrightarrow> main_step exec w concurrency others m (m\<lparr>wm_pc := Quitting\<rparr>)"
| StopFails: "wm_pc m = Stopping \<Longrightarrow> rt_stop (wm_rt m) = StopFailed e \<Longrightarrow> main_step exec w concurrency others m (m\<lparr>wm_pc := Gone 1\<rparr>)"
| Quit: "wm_pc m = Quitting \<Longrightarrow> main_step exec w concurrency others m (m\<lparr>wm_pc := Gone 0\<rparr>)"
| QuitFails: "wm_pc m = Quitting \<Longrightarrow> main_step exec w concurrency others m (m\<lparr>wm_pc := Gone 1\<rparr>)"

abbreviation main_reach ::
  "'s service \<Rightarrow> worker \<Rightarrow> jsnum \<Rightarrow> ('s \<Rightarrow> 's \<Rightarrow> bool) \<Rightarrow> 's worker_main \<Rightarrow> 's worker_main \<Rightarrow> bool" where
  "main_reach exec w concurrency others \<equiv> (main_step exec w concurrency others)\<^sup>*\<^sup>*"

subsection \<open>A clean exit\<close>

text \<open>The loop and the jobs leave \<open>stop\<close> where it is, and a loop that is over stays over.\<close>
lemma pump_frame:
  assumes "loop_turn exec w cc c = Some d \<or> avail_turn exec w cc c = Some d \<or> job_turn exec n c = Some d"
  shows "rt_stop (fst d) = rt_stop (fst c) \<and> (rt_loop (fst c) = Exited \<longrightarrow> rt_loop (fst d) = Exited)"
  using assms
proof (elim disjE)
  assume "loop_turn exec w cc c = Some d"
  then show ?thesis
    by (cases c) (auto simp: loop_turn_def start_job_def next_index_def split: loop_pc.splits prog.splits if_splits prod.splits)
next
  assume "avail_turn exec w cc c = Some d"
  then show ?thesis
    by (cases c) (auto simp: avail_turn_def start_job_def next_index_def split: avail_pc.splits prog.splits if_splits prod.splits)
next
  assume "job_turn exec n c = Some d"
  then show ?thesis by (cases c) (auto simp: job_turn_def split: prog.splits if_splits prod.splits)
qed

text \<open>\<open>stop\<close> cleans up only once the loop is over.\<close>
definition loop_over :: "worker_rt \<Rightarrow> bool" where
  "loop_over rt \<longleftrightarrow> (rt_stop rt = Stopped \<or> (\<exists>p. rt_stop rt = Cleaning p) \<longrightarrow> rt_loop rt = Exited)"

lemma loop_over_step:
  assumes "worker_step exec w cc others c d" and "loop_over (fst c)" and "rt_loop (fst c) \<noteq> NotStarted"
  shows "loop_over (fst d)" and "rt_stop (fst c) = Stopped \<Longrightarrow> rt_stop (fst d) = Stopped"
proof -
  have "loop_over (fst d) \<and> (rt_stop (fst c) = Stopped \<longrightarrow> rt_stop (fst d) = Stopped)"
    using assms(1)
  proof cases
    case (Stop t)
    then show ?thesis using assms(2,3)
      by (cases c) (auto simp: stop_turn_def loop_over_def split: stop_pc.splits prog.splits if_splits prod.splits option.splits)
  next
    case (Job n)
    then show ?thesis using assms(2) pump_frame [of exec w cc c d n] by (auto simp: loop_over_def)
  qed (use assms(2) pump_frame [of exec w cc c d] in \<open>auto simp: loop_over_def\<close>)
  then show "loop_over (fst d)" and "rt_stop (fst c) = Stopped \<Longrightarrow> rt_stop (fst d) = Stopped" by blast+
qed

definition orderly :: "'s worker_main \<Rightarrow> bool" where
  "orderly m \<longleftrightarrow> well_timed (wm_process m) \<and> loop_over (wm_rt m) \<and> rt_loop (wm_rt m) \<noteq> NotStarted \<and>
     (wm_pc m \<in> {Stopping, Quitting, Gone 0} \<longrightarrow> live_intervals (wm_process m) = 0) \<and>
     (wm_pc m \<in> {Quitting, Gone 0} \<longrightarrow> rt_stop (wm_rt m) = Stopped)"

lemma shutdown_live: "well_timed p \<Longrightarrow> live_intervals (shutdown p) = 0"
  by (cases "wp_janitor p"; cases "sch_timer (wp_scheduler p)")
    (auto simp: live_intervals_def shutdown_def well_timed_def one_interval_def scheduler_stop_def
      janitor_stop_def clearInterval_def Let_def split: option.splits)

lemma process_step_live: "process_step p p' \<Longrightarrow> live_intervals p = 0 \<Longrightarrow> well_timed p \<Longrightarrow> live_intervals p' = 0"
  by (induction rule: process_step.induct)
    (auto simp: live_intervals_def shutdown_live [unfolded live_intervals_def] janitor_tick_ends_def scheduler_tick_ends_def split: option.splits)

lemma orderly_step: "main_step exec w cc others m m' \<Longrightarrow> orderly m \<Longrightarrow> orderly m'"
proof (induction rule: main_step.induct)
  case (Timer m p)
  then show ?case using well_timed_step process_step_live by (auto simp: orderly_def)
next
  case (Work m rt s)
  then show ?case using loop_over_step [OF Work(2)] loop_started_step [OF Work(2)] by (auto simp: orderly_def)
next
  case (Signal m)
  have "well_timed (shutdown (wm_process m))" using Signal well_timed_step [OF PSignal] by (simp add: orderly_def)
  moreover have "loop_over rt \<and> rt_loop rt \<noteq> NotStarted"
    if "stop_turn exec w False (wm_rt m, wm_services m) = Some (rt, s)" for rt s
    using Signal loop_over_step(1) [OF worker_step.Stop [OF that]] loop_started_step [OF worker_step.Stop [OF that]]
    by (simp add: orderly_def)
  ultimately show ?case using Signal by (auto simp: orderly_def main_signal_def shutdown_live split: option.splits)
qed (auto simp: orderly_def)

lemma orderly_reach: "main_reach exec w cc others (main_started cfg None s) m \<Longrightarrow> orderly m"
proof (induction rule: rtranclp_induct)
  case base
  have "well_timed (boot cfg)" by (rule well_timed_reach) (rule rtranclp.rtrancl_refl)
  then show ?case by (simp add: orderly_def main_started_def started_def loop_over_def)
qed (rule orderly_step)



subsection \<open>An exit during a tick\<close>

text \<open>Turns of the worker that do not start \<open>stop\<close> can be taken by the process.\<close>
lemma turns_main:
  assumes "wm_pc m = Stopping"
  shows "main_reach exec w cc others m (m\<lparr>wm_rt := fst (run_turns exec w cc xs (wm_rt m, wm_services m)),
     wm_services := snd (run_turns exec w cc xs (wm_rt m, wm_services m))\<rparr>)"
  using assms
proof (induction xs arbitrary: m)
  case (Cons x xs)
  let ?c = "(wm_rt m, wm_services m)"
  show ?case
  proof (cases "take_turn exec w cc x ?c")
    case (Some d)
    let ?m = "m\<lparr>wm_rt := fst d, wm_services := snd d\<rparr>"
    have "main_step exec w cc others m ?m"
      by (rule Work) (use Cons.prems take_turn_step [OF Some, of others] in simp_all)
    moreover have "wm_pc ?m = Stopping" using Cons.prems by simp
    ultimately show ?thesis using Cons.IH [of ?m] Some by (simp add: converse_rtranclp_into_rtranclp)
  qed (use Cons in simp)
qed simp

definition stop_idle :: "turn list" where
  "stop_idle = [TStop False, TStop False, TLoop, TStop False, TStop False, TStop False, TStop False, TStop False]"

lemma stop_idle_ends:
  "rt_stop (fst (run_turns (mem_exec no_faults) worker1 (Num 5) (TStop False # stop_idle) (started, mem_queued))) = Stopped"
  by (simp add: stop_idle_def turn_defs loop_eval cong: run_congs)

lemma stopping_exits:
  assumes "wm_pc m = Stopping"
    and "rt_stop (fst (run_turns exec w cc xs (wm_rt m, wm_services m))) = Stopped"
  shows "\<exists>m'. main_reach exec w cc others m m' \<and> wm_pc m' = Gone 0 \<and> wm_process m' = wm_process m"
proof -
  obtain rt s where d: "run_turns exec w cc xs (wm_rt m, wm_services m) = (rt, s)" by (rule prod.exhaust)
  let ?m = "m\<lparr>wm_rt := rt, wm_services := s\<rparr>"
  have "main_reach exec w cc others m ?m" using turns_main [OF assms(1), of exec w cc others xs] d by simp
  moreover have "main_step exec w cc others ?m (?m\<lparr>wm_pc := Quitting\<rparr>)"
    by (rule StopDone) (use assms d in simp_all)
  moreover have "main_step exec w cc others (?m\<lparr>wm_pc := Quitting\<rparr>) (?m\<lparr>wm_pc := Quitting, wm_pc := Gone 0\<rparr>)"
    by (rule Quit) simp
  ultimately have "main_reach exec w cc others m (?m\<lparr>wm_pc := Quitting, wm_pc := Gone 0\<rparr>)"
    by (meson rtranclp.rtrancl_into_rtrancl)
  then show ?thesis by force
qed

text \<open>\<open>shutdown\<close> does not wait for a tick of the scheduler: a process can exit with success while one is
  under way, which is then cut off between any two of its commands.\<close>
theorem exit_cuts_tick:
  "\<exists>m. main_reach (mem_exec no_faults) worker1 (Num 5) (\<lambda>_ _. False) (main_started cfg1 None mem_queued) m \<and>
     wm_pc m = Gone 0 \<and> sch_ticks (wp_scheduler (wm_process m)) = 1"
proof -
  let ?step = "main_step (mem_exec no_faults) worker1 (Num 5) (\<lambda>_ _. False)"
  let ?m0 = "main_started cfg1 None mem_queued"
  let ?p = "(boot cfg1)\<lparr>wp_scheduler := scheduler_fires (wp_scheduler (boot cfg1))\<rparr>"
  define m1 where "m1 = ?m0\<lparr>wm_process := ?p\<rparr>"
  define m2 where "m2 = main_signal (mem_exec no_faults) worker1 m1"
  have "?step ?m0 m1" unfolding m1_def
  proof (rule Timer)
    have "h_live (sch_host (wp_scheduler (boot cfg1))) \<noteq> []" by (simp add: boot_def scheduler_timer_defs)
    from PFires [OF this] show "process_step (wm_process ?m0) ?p" by (simp add: main_started_def)
    show "?p \<noteq> shutdown (wm_process ?m0)"
      by (simp add: main_started_def shutdown_def boot_def scheduler_timer_defs)
  qed (simp add: main_started_def)
  moreover have "?step m1 m2" unfolding m2_def by (rule Signal) (simp add: m1_def main_started_def)
  ultimately have reach: "?step\<^sup>*\<^sup>* ?m0 m2" by (rule converse_rtranclp_into_rtranclp [OF _ r_into_rtranclp])
  have pc: "wm_pc m2 = Stopping" and ticks: "sch_ticks (wp_scheduler (wm_process m2)) = 1"
    by (simp_all add: m2_def m1_def main_signal_def stop_turn_def main_started_def started_def shutdown_def boot_def scheduler_timer_defs)
  have "take_turn (mem_exec no_faults) worker1 (Num 5) (TStop False) (started, mem_queued) = Some (wm_rt m2, wm_services m2)"
    by (simp add: m2_def m1_def main_signal_def stop_turn_def main_started_def started_def)
  then have "rt_stop (fst (run_turns (mem_exec no_faults) worker1 (Num 5) stop_idle (wm_rt m2, wm_services m2))) = Stopped"
    using stop_idle_ends by (simp add: run_turns.simps(2))
  from stopping_exits [OF pc this] show ?thesis using rtranclp_trans [OF reach] ticks by metis
qed

end
