(* ===== verification/Server_Process.thy ===== *)
theory Server_Process
  imports Live_Views Connections
begin

text \<open>
  The server process from its start to its exit: \<open>main\<close> and \<open>shutdown\<close> of \<^verbatim>\<open>server/src/index.ts\<close> with the
  bus of \<^verbatim>\<open>server/src/websocket.ts\<close>.  What a request does is \<open>Server_App.app\<close>; here only counts that it was
  accepted and answered.

  Node and \<open>ws\<close> behave as documented: \<open>server.close\<close> takes no new connection, closes the idle ones, and calls
  back when none is left, an upgraded one included; \<open>wss.close\<close> takes no new client and leaves the others alone.
  A rejection or an error event that no one handles ends the process with exit code 1.
\<close>

subsection \<open>The state and the handlers\<close>

datatype server_phase = Boot | Serve | Drain | Quits | Over int

record server_main =
  sm_phase :: server_phase
  sm_redis :: redis_client
  sm_promise :: waiting
  sm_bus :: event_bus
  sm_upgrading :: bool
  sm_listening :: bool
  sm_busy :: nat
  sm_idle :: nat
  sm_accepted :: nat
  sm_answered :: nat
  sm_dropped :: nat

text \<open>Up to the wait for Redis; without a configuration \<open>main\<close> rejects.\<close>
definition server_init :: "process_env \<Rightarrow> server_main" where
  "server_init env =
     (let blank = \<lparr>sm_phase = Over 1, sm_redis = createRedisClient '''' Map.empty, sm_promise = Pending_ready, sm_bus = new_bus False,
            sm_upgrading = False, sm_listening = False, sm_busy = 0, sm_idle = 0, sm_accepted = 0, sm_answered = 0, sm_dropped = 0\<rparr>
      in case loadServerConfig env of
           Inl e \<Rightarrow> blank
         | Inr cfg \<Rightarrow> (let redis = createRedisClient (sc_redisUrl cfg) Map.empty
                       in blank\<lparr>sm_phase := Boot, sm_redis := redis, sm_promise := await_ready redis\<rparr>))"

definition server_hears :: "client_event \<Rightarrow> server_main \<Rightarrow> server_main" where
  "server_hears e m = (case hear e (sm_redis m, sm_promise m) of (r, p) \<Rightarrow> m\<lparr>sm_redis := r, sm_promise := p\<rparr>)"

text \<open>From there to \<open>server.listen\<close> nothing is awaited; the new subscriber is still connecting.\<close>
definition server_boots :: "server_main \<Rightarrow> server_main" where
  "server_boots m = m\<lparr>sm_phase := Serve, sm_bus := new_bus False, sm_upgrading := True\<rparr>"

definition bus_close :: "server_main \<Rightarrow> server_main" where
  "bus_close m = m\<lparr>sm_upgrading := False\<rparr>"

definition server_shutdown :: "server_main \<Rightarrow> server_main" where
  "server_shutdown m = (bus_close m)\<lparr>sm_listening := False, sm_idle := 0, sm_phase := Drain\<rparr>"

text \<open>The requests that are not logged.\<close>
definition log_ignored :: "string option \<Rightarrow> bool" where
  "log_ignored url = (let u = nullish url '''' in u = ''/health'' \<or> u = ''/metrics'')"

definition drained :: "server_main \<Rightarrow> bool" where
  "drained m \<longleftrightarrow> sm_busy m = 0 \<and> sm_idle m = 0 \<and> eb_clients (sm_bus m) = []"

abbreviation with_clients :: "((nat \<times> bool) list \<Rightarrow> (nat \<times> bool) list) \<Rightarrow> server_main \<Rightarrow> server_main" where
  "with_clients f m \<equiv> m\<lparr>sm_bus := (sm_bus m)\<lparr>eb_clients := f (eb_clients (sm_bus m))\<rparr>\<rparr>"

text \<open>\<open>leaves\<close>: the sockets whose client closes them some time.\<close>
inductive server_step :: "(nat \<Rightarrow> bool) \<Rightarrow> server_main \<Rightarrow> server_main \<Rightarrow> bool" for leaves where
  RedisEvent: "sm_phase m = Boot \<Longrightarrow> server_step leaves m (server_hears e m)"
| Boots: "sm_phase m = Boot \<Longrightarrow> sm_promise m = Connected \<Longrightarrow> server_step leaves m (server_boots m)"
| BootFails: "sm_phase m = Boot \<Longrightarrow> sm_promise m = Refused e \<Longrightarrow> server_step leaves m (m\<lparr>sm_phase := Over 1\<rparr>)"
| Listens: "sm_phase m = Serve \<Longrightarrow> server_step leaves m (m\<lparr>sm_listening := True\<rparr>)"
| ListenFails: "sm_phase m = Serve \<Longrightarrow> \<not> sm_listening m \<Longrightarrow> server_step leaves m (m\<lparr>sm_phase := Over 1\<rparr>)"
| Subscribes: "sm_phase m \<in> {Serve, Drain} \<Longrightarrow> server_step leaves m (m\<lparr>sm_bus := bus_ready (sm_bus m)\<rparr>)"
| SubscribeFails: "sm_phase m \<in> {Serve, Drain} \<Longrightarrow> server_step leaves m (m\<lparr>sm_phase := Over 1\<rparr>)"
| Message: "sm_phase m \<in> {Serve, Drain, Quits} \<Longrightarrow> server_step leaves m (m\<lparr>sm_bus := bus_message ch msg (sm_bus m)\<rparr>)"
| Connects: "sm_phase m = Serve \<Longrightarrow> sm_listening m \<Longrightarrow>
     server_step leaves m (m\<lparr>sm_busy := sm_busy m + 1, sm_accepted := sm_accepted m + 1\<rparr>)"
| Reuses: "sm_phase m \<in> {Serve, Drain} \<Longrightarrow> 0 < sm_idle m \<Longrightarrow>
     server_step leaves m (m\<lparr>sm_idle := sm_idle m - 1, sm_busy := sm_busy m + 1, sm_accepted := sm_accepted m + 1\<rparr>)"
| Answers: "sm_phase m \<in> {Serve, Drain} \<Longrightarrow> 0 < sm_busy m \<Longrightarrow>
     server_step leaves m (m\<lparr>sm_busy := sm_busy m - 1, sm_answered := sm_answered m + 1,
       sm_idle := sm_idle m + (if keep_alive then 1 else 0)\<rparr>)"
| Aborts: "sm_phase m \<in> {Serve, Drain} \<Longrightarrow> 0 < sm_busy m \<Longrightarrow>
     server_step leaves m (m\<lparr>sm_busy := sm_busy m - 1, sm_dropped := sm_dropped m + 1\<rparr>)"
| IdleEnds: "sm_phase m \<in> {Serve, Drain} \<Longrightarrow> 0 < sm_idle m \<Longrightarrow> server_step leaves m (m\<lparr>sm_idle := sm_idle m - 1\<rparr>)"
| SocketOpens: "sm_phase m = Serve \<Longrightarrow> sm_listening m \<Longrightarrow> sm_upgrading m \<Longrightarrow> i \<notin> fst ` set (eb_clients (sm_bus m)) \<Longrightarrow>
     server_step leaves m (with_clients (\<lambda>cs. cs @ [(i, True)]) m)"
| SocketCloses: "sm_phase m \<in> {Serve, Drain} \<Longrightarrow> leaves i \<Longrightarrow>
     server_step leaves m (with_clients (map (\<lambda>(j, up). (j, up \<and> j \<noteq> i))) m)"
| SocketGone: "sm_phase m \<in> {Serve, Drain} \<Longrightarrow> leaves i \<Longrightarrow>
     server_step leaves m (with_clients (filter (\<lambda>(j, up). j \<noteq> i)) m)"
| Signal: "sm_phase m \<in> {Serve, Drain} \<Longrightarrow> server_step leaves m (server_shutdown m)"
| AllClosed: "sm_phase m = Drain \<Longrightarrow> drained m \<Longrightarrow> server_step leaves m (m\<lparr>sm_phase := Quits\<rparr>)"
| QuitsDone: "sm_phase m = Quits \<Longrightarrow> server_step leaves m (m\<lparr>sm_phase := Over 0\<rparr>)"
| QuitsFail: "sm_phase m = Quits \<Longrightarrow> server_step leaves m (m\<lparr>sm_phase := Over 1\<rparr>)"

abbreviation server_reach :: "(nat \<Rightarrow> bool) \<Rightarrow> server_main \<Rightarrow> server_main \<Rightarrow> bool" where
  "server_reach leaves \<equiv> (server_step leaves)\<^sup>*\<^sup>*"

lemma bus_clients [simp]:
  "eb_clients (bus_message ch msg b) = eb_clients b" "eb_clients (bus_ready b) = eb_clients b" "eb_clients (new_bus r) = []"
  by (simp_all add: bus_message_def bus_ready_def new_bus_def)

subsection \<open>A run\<close>

definition env_local :: process_env where
  "env_local = [''REDIS_URL'' \<mapsto> ''redis://localhost'', ''DATABASE_URL'' \<mapsto> ''postgres://localhost'']"

text \<open>A server that listens, with a request under way and the sockets of some dashboards.\<close>
definition serving :: "(nat \<times> bool) list \<Rightarrow> server_main" where
  "serving cs = (server_boots (server_hears EvReady (server_init env_local)))\<lparr>sm_listening := True, sm_busy := 1, sm_accepted := 1,
     sm_bus := (new_bus False)\<lparr>eb_clients := cs\<rparr>\<rparr>"

lemmas boot_defs = server_boots_def server_hears_def server_init_def loadServerConfig_def env_local_def truthy_def hear_def Let_def

lemma serving_simps [simp]:
  "sm_phase (serving cs) = Serve" "sm_listening (serving cs)" "sm_upgrading (serving cs)" "sm_busy (serving cs) = 1"
  "sm_idle (serving cs) = 0" "sm_accepted (serving cs) = 1" "sm_answered (serving cs) = 0" "sm_dropped (serving cs) = 0"
  "sm_bus (serving cs) = (new_bus False)\<lparr>eb_clients := cs\<rparr>"
  by (simp_all add: serving_def boot_defs)

lemma serving_reached: "server_reach leaves (server_init env_local) (serving [])"
proof -
  let ?m0 = "server_init env_local"
  let ?m1 = "server_hears EvReady ?m0"
  let ?m2 = "(server_boots ?m1)\<lparr>sm_listening := True\<rparr>"
  let ?m3 = "?m2\<lparr>sm_busy := sm_busy ?m2 + 1, sm_accepted := sm_accepted ?m2 + 1\<rparr>"
  have boot: "sm_phase ?m0 = Boot" "sm_phase ?m1 = Boot" "sm_promise ?m1 = Connected"
    by (simp_all add: boot_defs await_ready_def createRedisClient_def)
  have "server_step leaves ?m0 ?m1" by (rule RedisEvent) (rule boot)
  moreover have "server_step leaves ?m1 (server_boots ?m1)" by (rule Boots) (rule boot)+
  moreover have "server_step leaves (server_boots ?m1) ?m2" by (rule Listens) (simp add: server_boots_def)
  moreover have "server_step leaves ?m2 ?m3" by (rule Connects) (simp_all add: server_boots_def)
  moreover have "?m3 = serving []" by (simp add: serving_def boot_defs new_bus_def)
  ultimately show ?thesis by (metis rtranclp.rtrancl_into_rtrancl rtranclp.rtrancl_refl)
qed

lemma dashboard_reached: "server_reach leaves (server_init env_local) (serving [(7, True)])"
proof -
  have "server_step leaves (serving []) (with_clients (\<lambda>cs. cs @ [(7, True)]) (serving []))" by (rule SocketOpens) simp_all
  moreover have "with_clients (\<lambda>cs. cs @ [(7, True)]) (serving []) = serving [(7, True)]" by (simp add: serving_def)
  ultimately show ?thesis using serving_reached [of leaves] by (metis rtranclp.rtrancl_into_rtrancl)
qed

subsection \<open>A shutdown drops no request\<close>

definition accounted :: "server_main \<Rightarrow> bool" where
  "accounted m \<longleftrightarrow> sm_accepted m = sm_answered m + sm_dropped m + sm_busy m \<and>
     (sm_phase m \<in> {Quits, Over 0} \<longrightarrow> drained m) \<and>
     (sm_phase m \<in> {Drain, Quits, Over 0} \<longrightarrow> \<not> sm_listening m \<and> \<not> sm_upgrading m)"

lemma accounted_init: "accounted (server_init env)"
  by (auto simp: accounted_def server_init_def Let_def split: sum.splits)

lemma accounted_step: "server_step leaves m m' \<Longrightarrow> accounted m \<Longrightarrow> accounted m'"
  by (induction rule: server_step.induct)
    (auto simp: accounted_def drained_def server_hears_def server_boots_def server_shutdown_def bus_close_def split: prod.splits)

lemma accounted_reach: "server_reach leaves (server_init env) m \<Longrightarrow> accounted m"
  by (induction rule: rtranclp_induct) (auto intro: accounted_init accounted_step)

text \<open>C38: A server that exits with success has answered every request it accepted, but for those whose client
  gave up; it has no socket left, and it has taken no connection since the signal.\<close>
theorem server_exit_drained:
  assumes "server_reach leaves (server_init env) m" and "sm_phase m = Over 0"
  shows "sm_accepted m = sm_answered m + sm_dropped m \<and> eb_clients (sm_bus m) = [] \<and> \<not> sm_listening m"
  using accounted_reach [OF assms(1)] assms(2) by (simp add: accounted_def drained_def)

theorem server_exit_drained_witness:
  "\<exists>m. server_reach (\<lambda>_. False) (server_init env_local) m \<and> sm_phase m = Over 0 \<and> sm_accepted m = 1 \<and> sm_answered m = 1"
proof -
  let ?m1 = "server_shutdown (serving [])"
  let ?m2 = "?m1\<lparr>sm_busy := sm_busy ?m1 - 1, sm_answered := sm_answered ?m1 + 1, sm_idle := sm_idle ?m1 + (if False then 1 else 0)\<rparr>"
  let ?m3 = "?m2\<lparr>sm_phase := Quits\<rparr>" let ?m4 = "?m3\<lparr>sm_phase := Over 0\<rparr>"
  let ?step = "server_step (\<lambda>_. False)"
  note defs = server_shutdown_def bus_close_def drained_def
  have "?step (serving []) ?m1" by (rule Signal) simp
  moreover have "?step ?m1 ?m2" by (rule Answers) (simp_all add: defs)
  moreover have "?step ?m2 ?m3" by (rule AllClosed) (simp_all add: defs)
  moreover have "?step ?m3 ?m4" by (rule QuitsDone) (simp add: defs)
  ultimately have reach: "server_reach (\<lambda>_. False) (server_init env_local) ?m4"
    using serving_reached [of "\<lambda>_. False"] by (meson rtranclp.rtrancl_into_rtrancl)
  from server_exit_drained [OF reach] have "sm_accepted ?m4 = sm_answered ?m4" by (simp add: defs)
  with reach show ?thesis by (intro exI [of _ ?m4]) (simp add: defs)
qed

subsection \<open>The end of a shutdown\<close>

text \<open>The connections that a shutdown has to wait for.\<close>
definition waits_for :: "server_main \<Rightarrow> nat" where
  "waits_for m = 2 * sm_busy m + sm_idle m + length (eb_clients (sm_bus m))"

lemma drain_progress:
  assumes "sm_phase m = Drain" and "\<forall>i. leaves i" and "\<not> drained m"
  shows "\<exists>m'. server_step leaves m m' \<and> sm_phase m' = Drain \<and> waits_for m' < waits_for m"
proof (cases "sm_busy m = 0")
  case False
  from Answers [of m leaves False] assms False show ?thesis by (force simp: waits_for_def)
next
  case busy: True
  show ?thesis
  proof (cases "sm_idle m = 0")
    case False
    from IdleEnds [of m leaves] assms False show ?thesis by (force simp: waits_for_def)
  next
    case True
    with busy assms(3) obtain i up cs where cs: "eb_clients (sm_bus m) = (i, up) # cs"
      by (cases "eb_clients (sm_bus m)") (auto simp: drained_def)
    have "server_step leaves m (with_clients (filter (\<lambda>(j, up). j \<noteq> i)) m)" by (rule SocketGone) (use assms in simp_all)
    moreover have "waits_for (with_clients (filter (\<lambda>(j, up). j \<noteq> i)) m) < waits_for m"
      by (simp add: waits_for_def cs le_imp_less_Suc)
    ultimately show ?thesis using assms(1) by (intro exI conjI) (assumption | simp)+
  qed
qed

text \<open>From every moment of a shutdown the process can come to its exit, if its clients answer or leave.\<close>
theorem shutdown_can_finish:
  assumes "sm_phase m = Drain" and "\<forall>i. leaves i"
  shows "\<exists>m'. server_reach leaves m m' \<and> sm_phase m' = Over 0"
  using assms(1)
proof (induction "waits_for m" arbitrary: m rule: less_induct)
  case less
  show ?case
  proof (cases "drained m")
    case True
    have "server_step leaves m (m\<lparr>sm_phase := Quits\<rparr>)" by (rule AllClosed) (use less True in simp_all)
    moreover have "server_step leaves (m\<lparr>sm_phase := Quits\<rparr>) (m\<lparr>sm_phase := Quits, sm_phase := Over 0\<rparr>)" by (rule QuitsDone) simp
    ultimately have "server_reach leaves m (m\<lparr>sm_phase := Quits, sm_phase := Over 0\<rparr>)"
      by (rule converse_rtranclp_into_rtranclp [OF _ r_into_rtranclp])
    then show ?thesis by force
  next
    case False
    with less drain_progress [OF _ assms(2)] show ?thesis by (metis converse_rtranclp_into_rtranclp)
  qed
qed

theorem shutdown_can_finish_witness:
  "\<exists>m'. server_reach (\<lambda>_. True) (server_shutdown (serving [(7, True)])) m' \<and> sm_phase m' = Over 0"
  by (rule shutdown_can_finish) (simp_all add: server_shutdown_def bus_close_def)

subsection \<open>A dashboard that stays open\<close>

definition held_open :: "nat \<Rightarrow> server_main \<Rightarrow> bool" where
  "held_open i m \<longleftrightarrow> i \<in> fst ` set (eb_clients (sm_bus m)) \<and> (sm_phase m = Drain \<or> sm_phase m = Over 1)"

lemma held_open_step: "server_step leaves m m' \<Longrightarrow> \<not> leaves i \<Longrightarrow> held_open i m \<Longrightarrow> held_open i m'"
  by (induction rule: server_step.induct)
    (force simp: held_open_def drained_def server_shutdown_def bus_close_def)+

text \<open>C39: A shutdown does not close the sockets of the dashboards: while one of them stays open the process never
  exits with success, and does not even close its own connections.\<close>
theorem open_socket_blocks_exit:
  assumes "sm_phase m = Drain" and "i \<in> fst ` set (eb_clients (sm_bus m))" and "\<not> leaves i" and "server_reach leaves m m'"
  shows "sm_phase m' = Drain \<or> sm_phase m' = Over 1"
proof -
  have "held_open i m" using assms(1,2) by (simp add: held_open_def)
  with assms(4) have "held_open i m'" by (induction rule: rtranclp_induct) (use assms(3) held_open_step in blast)+
  then show ?thesis by (simp add: held_open_def)
qed

text \<open>The dashboard still gets the messages of the channel.\<close>
theorem open_socket_blocks_exit_witness:
  "server_reach (\<lambda>_. False) (server_init env_local) (server_shutdown (serving [(7, True)])) \<and>
   (let m = server_shutdown (serving [(7, True)]);
        m' = m\<lparr>sm_bus := bus_message events_channel ''event'' (sm_bus m)\<rparr>
    in server_reach (\<lambda>_. False) m m' \<and> (sm_phase m' = Drain \<or> sm_phase m' = Over 1))"
proof -
  let ?m = "server_shutdown (serving [(7, True)])"
  let ?m' = "?m\<lparr>sm_bus := bus_message events_channel ''event'' (sm_bus ?m)\<rparr>"
  have m: "sm_phase ?m = Drain" "7 \<in> fst ` set (eb_clients (sm_bus ?m))" by (simp_all add: server_shutdown_def bus_close_def)
  have step: "server_reach (\<lambda>_. False) ?m ?m'" by (rule r_into_rtranclp, rule Message) (simp add: m)
  have "server_step (\<lambda>_. False) (serving [(7, True)]) ?m" by (rule Signal) simp
  with dashboard_reached have "server_reach (\<lambda>_. False) (server_init env_local) ?m" by (rule rtranclp.rtrancl_into_rtrancl)
  with step open_socket_blocks_exit [OF m _ step] show ?thesis by (simp add: Let_def)
qed

end
