(* ===== verification/Load_Plan.thy ===== *)
theory Load_Plan
  imports Load_Test
begin

text \<open>
  The \<open>options\<close> of the load tests in \<^verbatim>\<open>k6/scenarios.js\<close> and \<^verbatim>\<open>k6/enqueue-load.js\<close> as data, and what they plan:
  when a scenario runs and how many requests it sends.  The executors are k6; the model has what its
  documentation says of their rates.
\<close>

subsection \<open>Durations\<close>

definition unit_seconds :: "char \<Rightarrow> nat option" where
  "unit_seconds c = (if c = CHR ''s'' then Some 1 else if c = CHR ''m'' then Some 60 else if c = CHR ''h'' then Some 3600 else None)"

text \<open>A sequence of numbers with units; \<open>n\<close> is the number read so far.\<close>
fun read_duration :: "nat \<Rightarrow> string \<Rightarrow> nat option" where
  "read_duration n [] = (if n = 0 then Some 0 else None)"
| "read_duration n (c # cs) =
     (if (of_char c :: nat) \<in> {48..57} then read_duration (10 * n + (of_char c - 48)) cs
      else case unit_seconds c of
             None \<Rightarrow> None
           | Some u \<Rightarrow> (case read_duration 0 cs of None \<Rightarrow> None | Some rest \<Rightarrow> Some (n * u + rest)))"

definition duration :: "string \<Rightarrow> nat" where
  "duration cs = nullish (read_duration 0 cs) 0"

subsection \<open>The options\<close>

record stage =
  st_duration :: string
  st_target :: nat

datatype executor =
    Shared_Iterations nat string
  | Constant_Arrival_Rate nat string string
  | Ramping_Arrival_Rate nat string "stage list"

record load_scenario =
  ls_executor :: executor
  ls_vus :: nat
  ls_maxVUs :: nat
  ls_exec :: string
  ls_startTime :: string

definition scenario_burst :: load_scenario where
  "scenario_burst = \<lparr>ls_executor = Shared_Iterations 1000 ''10s'', ls_vus = 50, ls_maxVUs = 50, ls_exec = ''burst'', ls_startTime = ''0s''\<rparr>"

definition scenario_sustained :: load_scenario where
  "scenario_sustained = \<lparr>ls_executor = Constant_Arrival_Rate 500 ''1s'' ''5m'', ls_vus = 100, ls_maxVUs = 200,
     ls_exec = ''sustained'', ls_startTime = ''15s''\<rparr>"

definition scenario_mixed :: load_scenario where
  "scenario_mixed = \<lparr>ls_executor = Ramping_Arrival_Rate 50 ''1s''
       [\<lparr>st_duration = ''1m'', st_target = 200\<rparr>, \<lparr>st_duration = ''3m'', st_target = 200\<rparr>, \<lparr>st_duration = ''1m'', st_target = 0\<rparr>],
     ls_vus = 100, ls_maxVUs = 300, ls_exec = ''mixedPriorities'', ls_startTime = ''5m30s''\<rparr>"

definition load_scenarios :: "(string \<times> load_scenario) list" where
  "load_scenarios = [(''burst'', scenario_burst), (''sustained'', scenario_sustained), (''mixed_priorities'', scenario_mixed)]"

text \<open>The stages of the other test, of virtual users and not of rates.\<close>
definition enqueue_stages :: "stage list" where
  "enqueue_stages = [\<lparr>st_duration = ''30s'', st_target = 100\<rparr>, \<lparr>st_duration = ''2m'', st_target = 100\<rparr>, \<lparr>st_duration = ''10s'', st_target = 0\<rparr>]"

text \<open>The thresholds of both tests, in the words of k6, which evaluates them.\<close>
definition load_thresholds :: "(string \<times> string) list" where
  "load_thresholds = [(''http_req_duration'', ''p(95)<100''), (''http_req_failed'', ''rate<0.01'')]"

subsection \<open>What is planned\<close>

definition scenario_window :: "load_scenario \<Rightarrow> nat \<times> nat" where
  "scenario_window sc =
     (let start = duration (ls_startTime sc)
      in (start, start + (case ls_executor sc of
            Shared_Iterations n d \<Rightarrow> duration d
          | Constant_Arrival_Rate r u d \<Rightarrow> duration d
          | Ramping_Arrival_Rate r u sts \<Rightarrow> sum_list (map (duration \<circ> st_duration) sts))))"

text \<open>A stage changes the rate linearly: the mean of its two ends over its length.\<close>
fun ramp_iterations :: "nat \<Rightarrow> stage list \<Rightarrow> nat" where
  "ramp_iterations rate [] = 0"
| "ramp_iterations rate (st # sts) = (rate + st_target st) * duration (st_duration st) div 2 + ramp_iterations (st_target st) sts"

definition planned_iterations :: "load_scenario \<Rightarrow> nat" where
  "planned_iterations sc =
     (case ls_executor sc of
        Shared_Iterations n d \<Rightarrow> n
      | Constant_Arrival_Rate r u d \<Rightarrow> r * duration d div duration u
      | Ramping_Arrival_Rate r u sts \<Rightarrow> ramp_iterations r sts div duration u)"

lemmas scenario_defs = scenario_burst_def scenario_sustained_def scenario_mixed_def

lemma durations [simp]:
  "duration ''0s'' = 0" "duration ''10s'' = 10" "duration ''15s'' = 15" "duration ''1s'' = 1" "duration ''1m'' = 60"
  "duration ''3m'' = 180" "duration ''5m'' = 300" "duration ''5m30s'' = 330" "duration ''30s'' = 30" "duration ''2m'' = 120"
  by code_simp+

text \<open>The three scenarios run one after the other, as their comments say, and plan 200,500 requests, three in
  four of them at the constant 500 a second.\<close>
theorem load_plan:
  "map (scenario_window \<circ> snd) load_scenarios = [(0, 10), (15, 315), (330, 630)] \<and>
   sorted_wrt (\<lambda>a b. snd (scenario_window (snd a)) < fst (scenario_window (snd b))) load_scenarios \<and>
   map (planned_iterations \<circ> snd) load_scenarios = [1000, 150000, 49500] \<and>
   map ls_exec (map snd load_scenarios) = [''burst'', ''sustained'', ''mixedPriorities''] \<and>
   sum_list (map (duration \<circ> st_duration) enqueue_stages) = 160"
  by (simp add: load_scenarios_def scenario_defs scenario_window_def planned_iterations_def enqueue_stages_def Let_def)

end
